(* ===== verification/Jdx_Prelude.thy ===== *)
theory Jdx_Prelude
  imports Complex_Main "HOL-Library.List_Lexorder" "HOL-Library.Char_ord"
    "HOL-Library.Product_Lexorder" "HOL-Library.Multiset" "HOL-Library.Word"
begin

text \<open>
  Shared vocabulary of the development: the error values the packages return, the error monad
  their early returns are written in, the part of Go's \<open>strings\<close> package the code uses
  (on ASCII text: a Go string is its byte sequence, here a char list), and the list lemmas
  several components need.
\<close>

section \<open>Fact collections\<close>

named_theorems row_simps
  \<comment> \<open>how the table primitives act on the other tables and on the keys of their own\<close>
named_theorems wf_intros
  \<comment> \<open>preservation of the store invariant by the primitives and the transactions\<close>

section \<open>Errors and the error monad\<close>

text \<open>
  One constructor per sentinel of the source, plus the classes of driver and codec errors the
  code only propagates. \<open>ErrEndpointNotFound\<close> is the service's wrapper around the store's
  \<open>ErrNotFound\<close>; \<open>err_is\<close> is \<open>errors.Is\<close> on these values.
\<close>

datatype gerr =
    ErrNotFound | ErrConflict | ErrDuplicateFact | ErrInvalidInput | ErrNotImplemented
  | ErrInvalidPolicy | ErrUnauthenticated | ErrForbidden | ErrEndpointNotFound
  | ErrSQL | ErrMarshal | ErrUnmarshal | ErrUnknownKind | ErrThreshold | ErrConfig
  | ErrAuthorizer | ErrCredential | ErrRequest | ErrMsg string

definition err_is :: "gerr \<Rightarrow> gerr \<Rightarrow> bool" where
  "err_is e target \<longleftrightarrow> e = target \<or> (e = ErrEndpointNotFound \<and> target = ErrNotFound)"

type_synonym 'a res = "gerr + 'a"

definition rbind :: "'a res \<Rightarrow> ('a \<Rightarrow> 'b res) \<Rightarrow> 'b res" where
  "rbind m f = (case m of Inl e \<Rightarrow> Inl e | Inr x \<Rightarrow> f x)"

lemma rbind_simps [simp]:
  "rbind (Inl e) f = Inl e"
  "rbind (Inr x) f = f x"
  by (simp_all add: rbind_def)

lemma rbind_eq_Inr_iff: "rbind m f = Inr y \<longleftrightarrow> (\<exists>x. m = Inr x \<and> f x = Inr y)"
  by (cases m) auto

lemma rbindE:
  assumes "rbind m f = Inr y"
  obtains x where "m = Inr x" and "f x = Inr y"
  using assms by (auto simp: rbind_eq_Inr_iff)

text \<open>A loop \<open>for _, x := range xs\<close> whose body may return early with an error.\<close>

fun rfold :: "('x \<Rightarrow> 's \<Rightarrow> 's res) \<Rightarrow> 'x list \<Rightarrow> 's \<Rightarrow> 's res" where
  "rfold f [] s = Inr s"
| "rfold f (x # xs) s = rbind (f x s) (rfold f xs)"

lemma rfold_append: "rfold f (xs @ ys) s = rbind (rfold f xs s) (rfold f ys)"
  by (induction xs arbitrary: s) (auto simp: rbind_def split: sum.splits)

lemma rfold_invariant:
  assumes "rfold f xs s = Inr t" and "P s"
    and "\<And>x s t. x \<in> set xs \<Longrightarrow> P s \<Longrightarrow> f x s = Inr t \<Longrightarrow> P t"
  shows "P t"
  using assms
proof (induction xs arbitrary: s)
  case Nil
  then show ?case by simp
next
  case (Cons x xs)
  from Cons.prems(1) obtain u where u: "f x s = Inr u" "rfold f xs u = Inr t"
    by (auto elim: rbindE)
  show ?case
    by (rule Cons.IH [OF u(2)]) (use Cons.prems(2,3) u(1) in auto)
qed

lemma rfold_cong: "(\<And>x s. x \<in> set xs \<Longrightarrow> f x s = g x s) \<Longrightarrow> rfold f xs s = rfold g xs s"
  by (induction xs arbitrary: s) (simp_all add: rbind_def split: sum.split)

text \<open>A loop that appends one result per element, with the same early return.\<close>

fun rmap :: "('x \<Rightarrow> 'y res) \<Rightarrow> 'x list \<Rightarrow> 'y list res" where
  "rmap f [] = Inr []"
| "rmap f (x # xs) = rbind (f x) (\<lambda>y. rbind (rmap f xs) (\<lambda>ys. Inr (y # ys)))"

lemma rmap_InrD: "rmap f xs = Inr ys \<Longrightarrow> list_all2 (\<lambda>x y. f x = Inr y) xs ys"
  by (induction xs arbitrary: ys) (auto elim!: rbindE)

lemma rmap_total: "(\<And>x. x \<in> set xs \<Longrightarrow> f x = Inr (g x)) \<Longrightarrow> rmap f xs = Inr (map g xs)"
  by (induction xs) simp_all

section \<open>Text: the functions of Go's strings package on ASCII\<close>

definition is_space :: "char \<Rightarrow> bool" where
  "is_space c \<longleftrightarrow> c \<in> {CHR '' '', CHR 0x09, CHR 0x0A, CHR 0x0B, CHR 0x0C, CHR 0x0D}"

definition lower_char :: "char \<Rightarrow> char" where
  "lower_char c =
     (if 65 \<le> (of_char c :: nat) \<and> (of_char c :: nat) \<le> 90 then char_of ((of_char c :: nat) + 32) else c)"

definition ToLower :: "string \<Rightarrow> string" where
  "ToLower s = map lower_char s"

fun fields_from :: "string \<Rightarrow> string \<Rightarrow> string list" where
  "fields_from w [] = (if w = [] then [] else [rev w])"
| "fields_from w (c # cs) =
     (if is_space c then (if w = [] then fields_from [] cs else rev w # fields_from [] cs)
      else fields_from (c # w) cs)"

definition Fields :: "string \<Rightarrow> string list" where
  "Fields s = fields_from [] s"

fun Join :: "string list \<Rightarrow> string \<Rightarrow> string" where
  "Join [] sep = []"
| "Join [x] sep = x"
| "Join (x # y # ys) sep = x @ sep @ Join (y # ys) sep"

definition TrimSpace :: "string \<Rightarrow> string" where
  "TrimSpace s = rev (dropWhile is_space (rev (dropWhile is_space s)))"

lemma TrimSpace_Nil_iff: "TrimSpace s = [] \<longleftrightarrow> (\<forall>c \<in> set s. is_space c)"
proof
  assume "TrimSpace s = []"
  then have "\<forall>c \<in> set (dropWhile is_space s). is_space c"
    by (simp add: TrimSpace_def)
  then have "dropWhile is_space s = []"
    by (metis hd_dropWhile list.set_sel(1))
  then show "\<forall>c \<in> set s. is_space c" by simp
next
  assume "\<forall>c \<in> set s. is_space c"
  then have "dropWhile is_space s = []" by simp
  then show "TrimSpace s = []" by (metis TrimSpace_def dropWhile.simps(1) rev.simps(1))
qed

lemma lower_char_idem [simp]: "lower_char (lower_char c) = lower_char c"
  by (auto simp: lower_char_def of_char_of)

lemma ToLower_idem [simp]: "ToLower (ToLower s) = ToLower s"
  by (simp add: ToLower_def)

lemma is_space_lower_char [simp]: "is_space (lower_char c) = is_space c"
proof (cases "65 \<le> (of_char c :: nat) \<and> (of_char c :: nat) \<le> 90")
  case True
  then have "(of_char (lower_char c) :: nat) = (of_char c :: nat) + 32"
    by (simp add: lower_char_def of_char_of)
  with True have "97 \<le> (of_char (lower_char c) :: nat)" "65 \<le> (of_char c :: nat)" by simp_all
  then show ?thesis by (auto simp: is_space_def)
next
  case False
  then have "lower_char c = c" unfolding lower_char_def by (rule if_not_P)
  then show ?thesis by simp
qed

lemma fields_from_words:
  assumes "\<forall>c \<in> set w. \<not> is_space c" and "u \<in> set (fields_from w s)"
  shows "u \<noteq> [] \<and> (\<forall>c \<in> set u. \<not> is_space c)"
  using assms
proof (induction w s rule: fields_from.induct)
  case (1 w)
  then show ?case by (cases "w = []") simp_all
next
  case (2 w c cs)
  show ?case
  proof (cases "is_space c")
    case True
    show ?thesis
    proof (cases "w = []")
      case True
      with "2.prems"(2) \<open>is_space c\<close> have "u \<in> set (fields_from [] cs)" by simp
      with "2.IH"(1) [OF \<open>is_space c\<close> True] show ?thesis by simp
    next
      case False
      with "2.prems"(2) \<open>is_space c\<close> have "u = rev w \<or> u \<in> set (fields_from [] cs)" by simp
      then show ?thesis
        using "2.IH"(2) [OF \<open>is_space c\<close> False] "2.prems"(1) False by fastforce
    qed
  next
    case False
    with "2.prems"(2) have "u \<in> set (fields_from (c # w) cs)" by simp
    with "2.IH"(3) [OF False] "2.prems"(1) False show ?thesis by simp
  qed
qed

lemma Fields_words: "w \<in> set (Fields s) \<Longrightarrow> w \<noteq> [] \<and> (\<forall>c \<in> set w. \<not> is_space c)"
  unfolding Fields_def by (rule fields_from_words [of "[]"]) simp_all

lemma fields_from_word:
  "\<forall>c \<in> set u. \<not> is_space c \<Longrightarrow> fields_from w (u @ s) = fields_from (rev u @ w) s"
  by (induction u arbitrary: w) auto

lemma Fields_Join:
  "\<forall>w \<in> set ws. w \<noteq> [] \<and> (\<forall>c \<in> set w. \<not> is_space c) \<Longrightarrow> Fields (Join ws '' '') = ws"
proof (induction ws rule: induct_list012)
  case 1
  then show ?case by (simp add: Fields_def)
next
  case (2 x)
  then show ?case using fields_from_word [of x "[]" "[]"] by (simp add: Fields_def)
next
  case (3 x y zs)
  have sp: "is_space CHR '' ''" by (simp add: is_space_def)
  have "Fields (Join (x # y # zs) '' '') = fields_from (rev x) ('' '' @ Join (y # zs) '' '')"
    using "3.prems" fields_from_word [of x "[]"] by (simp add: Fields_def)
  also have "\<dots> = x # Fields (Join (y # zs) '' '')"
    using "3.prems" sp by (simp add: Fields_def)
  finally show ?case using 3 by simp
qed

lemma fields_from_map:
  "(\<And>c. is_space (f c) = is_space c) \<Longrightarrow>
     fields_from (map f w) (map f s) = map (map f) (fields_from w s)"
proof (induction w s rule: fields_from.induct)
  case (1 w)
  then show ?case by (simp add: rev_map)
next
  case (2 w c cs)
  then show ?case
    by (cases "is_space c"; cases "w = []") (simp_all add: rev_map del: map_map)
qed

lemma Join_map: "Join (map (map f) ws) (map f sep) = map f (Join ws sep)"
  by (induction ws sep rule: Join.induct) simp_all

text \<open>A separator that no part contains makes \<open>Join\<close> injective on non-empty lists.\<close>

lemma append_sep_inj:
  "c \<notin> set u \<Longrightarrow> c \<notin> set v \<Longrightarrow> u @ c # s = v @ c # t \<Longrightarrow> u = v \<and> s = t"
proof (induction u arbitrary: v)
  case Nil
  then show ?case by (cases v) auto
next
  case (Cons a u)
  then show ?case by (cases v) auto
qed

lemma Join_inj:
  assumes "Join xs [c] = Join ys [c]" and "xs \<noteq> []" and "ys \<noteq> []"
    and "\<forall>x \<in> set xs. c \<notin> set x" and "\<forall>y \<in> set ys. c \<notin> set y"
  shows "xs = ys"
  using assms
proof (induction xs arbitrary: ys rule: induct_list012)
  case 1
  then show ?case by simp
next
  case (2 x)
  then show ?case
    by (cases ys rule: remdups_adj.cases) auto
next
  case (3 x y zs)
  from "3.prems" obtain u us where ys: "ys = u # us" by (cases ys) auto
  from "3.prems" ys have "us \<noteq> []" by (cases us) auto
  then obtain v vs where us: "us = v # vs" by (cases us) auto
  from "3.prems" ys us have "x = u \<and> Join (y # zs) [c] = Join (v # vs) [c]"
    by (intro append_sep_inj [of c]) auto
  with "3.IH"(2) [of "v # vs"] "3.prems" ys us show ?case by auto
qed

lemma sort_Nil_iff [simp]: "sort xs = [] \<longleftrightarrow> xs = []"
  by (metis length_0_conv length_sort)

section \<open>Rows with a key\<close>

text \<open>
  A table is the list of its rows in insertion order. These lemmas are about lists of rows
  with a key function; they are what primary keys and unique indexes come down to.
\<close>

definition lookup_row :: "('r \<Rightarrow> 'k) \<Rightarrow> 'k \<Rightarrow> 'r list \<Rightarrow> 'r option" where
  "lookup_row key k rows = find (\<lambda>r. key r = k) rows"

lemma lookup_row_None_iff: "lookup_row key k rows = None \<longleftrightarrow> k \<notin> key ` set rows"
  by (auto simp: lookup_row_def find_None_iff)

lemma lookup_row_SomeD: "lookup_row key k rows = Some r \<Longrightarrow> r \<in> set rows \<and> key r = k"
  by (auto simp: lookup_row_def find_Some_iff)

lemma lookup_row_append:
  "lookup_row key k (xs @ ys) =
     (case lookup_row key k xs of None \<Rightarrow> lookup_row key k ys | Some r \<Rightarrow> Some r)"
  by (induction xs) (auto simp: lookup_row_def)

lemma lookup_row_Some_iff:
  "distinct (map key rows) \<Longrightarrow> lookup_row key k rows = Some r \<longleftrightarrow> r \<in> set rows \<and> key r = k"
proof (induction rows)
  case Nil
  then show ?case by (simp add: lookup_row_def)
next
  case (Cons a rows)
  then show ?case by (auto simp: lookup_row_def)
qed

lemma lookup_row_filter:
  "distinct (map key rows) \<Longrightarrow>
     lookup_row key k (filter P rows) =
       (case lookup_row key k rows of None \<Rightarrow> None | Some r \<Rightarrow> if P r then Some r else None)"
proof (induction rows)
  case Nil
  then show ?case by (simp add: lookup_row_def)
next
  case (Cons a rows)
  show ?case
  proof (cases "key a = k")
    case True
    with Cons.prems have "lookup_row key k (filter P rows) = None"
      by (auto simp: lookup_row_None_iff)
    with True show ?thesis by (simp add: lookup_row_def)
  next
    case False
    with Cons show ?thesis by (simp add: lookup_row_def)
  qed
qed

lemma lookup_row_map:
  "(\<And>r. key (f r) = key r) \<Longrightarrow> lookup_row key k (map f rows) = map_option f (lookup_row key k rows)"
  by (induction rows) (auto simp: lookup_row_def)

lemma distinct_map_inj_on:
  "distinct (map f xs) \<Longrightarrow> x \<in> set xs \<Longrightarrow> y \<in> set xs \<Longrightarrow> f x = f y \<Longrightarrow> x = y"
  by (auto simp: distinct_map inj_on_def)

end
