(* ===== verification/Jdx_Domain.thy ===== *)
theory Jdx_Domain
  imports Jdx_Prelude
begin

text \<open>
  The vocabulary of \<open>internal/domain\<close>: entities, edges, provenance, visibility, facts, the
  schema.org allow-lists and the derived dedupe key. Identifiers are opaque strings as in the
  source. A Go string type with a closed set of constants and a \<open>Valid\<close> method is a datatype
  with the constants as constructors and one constructor for every other string, so that the
  default-deny branches of the code are branches of the model. Times are nanoseconds since Go's
  zero time. Confidence and similarity scores are real numbers: rounding of float64 is not
  modelled, and NaN cannot reach these values (they come from JSON or from \<open>cosine\<close> on finite
  vectors).
\<close>

section \<open>Identifiers, visibility, provenance\<close>

type_synonym entity_id = string
type_synonym edge_id = string
type_synonym space_id = string
type_synonym principal_id = string
type_synonym writer_id = string
type_synonym etype = string
type_synonym predicate = string
type_synonym time = int

datatype visibility = VisPrivate | VisSpace | VisPublic | VisOther string

definition Visibility_Valid :: "visibility \<Rightarrow> bool" where
  "Visibility_Valid v =
     (case v of VisPrivate \<Rightarrow> True | VisSpace \<Rightarrow> True | VisPublic \<Rightarrow> True | VisOther _ \<Rightarrow> False)"

datatype assert_method = Asserted | Inferred | MethodOther string

definition AssertMethod_Valid :: "assert_method \<Rightarrow> bool" where
  "AssertMethod_Valid m = (m = Asserted \<or> m = Inferred)"

record provenance =
  Asserter :: string
  Method :: assert_method
  Source :: string
  Confidence :: real
  AssertedAt :: time

record external_id =
  Scheme :: string
  Value :: string

definition Key :: "external_id \<Rightarrow> string" where
  "Key x = Scheme x @ '':'' @ Value x"

text \<open>A vector component is the bit pattern of its float32 (\<open>math.Float32bits\<close>).\<close>

type_synonym f32bits = "32 word"

section \<open>JSON values and raw messages\<close>

text \<open>
  A \<open>json.RawMessage\<close> is absent (the nil slice), a text that is not JSON, or the text of a JSON
  document; of a document only its value is kept (\<open>encoding/json\<close> compacts white space anyway).
  Numbers keep their literal.
\<close>

datatype json = JNull | JBool bool | JNum string | JStr string | JArr "json list"
  | JObj "(string \<times> json) list"

datatype rawmsg = RawEmpty | RawBad string | RawDoc json

definition raw_len0 :: "rawmsg \<Rightarrow> bool" where
  "raw_len0 p = (p = RawEmpty)"

text \<open>Decoding an object into a Go map keeps the last value of a repeated key.\<close>

definition obj_get :: "(string \<times> json) list \<Rightarrow> string \<Rightarrow> json option" where
  "obj_get kvs k = map_of (rev kvs) k"

section \<open>Entities, edges, facts\<close>

record embedding =
  Model :: string
  Field :: string
  Vector :: "f32bits list"

record entity =
  E_ID :: entity_id
  E_Type :: etype
  E_Props :: rawmsg
  E_ExternalIDs :: "external_id list"
  E_Provenance :: provenance
  E_Space :: space_id
  E_Owner :: principal_id
  E_Visibility :: visibility
  E_Embeddings :: "embedding list"
  E_CreatedAt :: time
  E_UpdatedAt :: time
  E_Deleted :: bool

definition ExternalKeys :: "entity \<Rightarrow> string list" where
  "ExternalKeys e = map Key (E_ExternalIDs e)"

record edge =
  D_ID :: edge_id
  D_Predicate :: predicate
  D_From :: entity_id
  D_To :: entity_id
  D_Props :: rawmsg
  D_Provenance :: provenance
  D_Space :: space_id
  D_Owner :: principal_id
  D_Visibility :: visibility
  D_CreatedAt :: time
  D_Deleted :: bool

datatype fact_kind = FactEntityAsserted | FactEntityRetracted | FactEdgeAsserted
  | FactEdgeRetracted | FactEntityMerged | FactOther string

definition FactKind_Valid :: "fact_kind \<Rightarrow> bool" where
  "FactKind_Valid k = (case k of
       FactEntityAsserted \<Rightarrow> True | FactEntityRetracted \<Rightarrow> True | FactEdgeAsserted \<Rightarrow> True
     | FactEdgeRetracted \<Rightarrow> True | FactEntityMerged \<Rightarrow> True | FactOther _ \<Rightarrow> False)"

section \<open>The schema.org profile\<close>

definition allowedTypes :: "etype list" where
  "allowedTypes = [''Thing'', ''Movie'', ''TVSeries'', ''TVEpisode'', ''VideoObject'', ''Clip'',
     ''Person'', ''Organization'', ''Event'', ''CreativeWork'', ''Product'', ''Book'',
     ''Article'', ''Note'']"

definition allowedPredicates :: "predicate list" where
  "allowedPredicates = [''about'', ''mentions'', ''subjectOf'', ''hasPart'', ''isPartOf'',
     ''actor'', ''director'', ''author'', ''creator'', ''about?'', ''sameAs'', ''sameAs?'',
     ''relatedTo'']"

definition KnownType :: "etype \<Rightarrow> bool" where
  "KnownType t = List.member allowedTypes t"

definition KnownPredicate :: "predicate \<Rightarrow> bool" where
  "KnownPredicate p = List.member allowedPredicates p"

section \<open>Derived dedupe keys\<close>

text \<open>
  \<open>sha\<close> stands for \<open>hex(sha256(_))\<close>, a parameter: the model is about what is hashed. A NUL byte
  is \<open>CHR 0x00\<close>.
\<close>

definition normalizeName :: "string \<Rightarrow> string" where
  "normalizeName s = Join (Fields (ToLower s)) '' ''"

definition dedupe_preimage :: "etype \<Rightarrow> external_id list \<Rightarrow> string \<Rightarrow> string" where
  "dedupe_preimage t exts displayName =
     (let keys = sort (map Key exts) in
      ''jdx.entity'' @ [CHR 0x00] @ t @ [CHR 0x00] @ Join keys [CHR 0x00] @
      (if keys = [] then [CHR 0x00] @ normalizeName displayName else []))"

definition DeriveDedupeKey ::
    "(string \<Rightarrow> string) \<Rightarrow> etype \<Rightarrow> external_id list \<Rightarrow> string \<Rightarrow> string" where
  "DeriveDedupeKey sha t exts displayName = sha (dedupe_preimage t exts displayName)"

definition RandomKeyNeeded :: "external_id list \<Rightarrow> string \<Rightarrow> bool" where
  "RandomKeyNeeded exts displayName = (exts = [] \<and> normalizeName displayName = [])"

section \<open>Lemmas\<close>

lemma Key_inj:
  assumes "Key x = Key y" and "CHR '':'' \<notin> set (Scheme x)" and "CHR '':'' \<notin> set (Scheme y)"
  shows "x = y"
  using append_sep_inj [of "CHR '':''" "Scheme x" "Scheme y" "Value x" "Value y"] assms
  by (simp add: Key_def)

lemma Key_nonempty [simp]: "Key x \<noteq> []"
  by (simp add: Key_def)

lemma Fields_lower: "Fields (ToLower s) = map ToLower (Fields s)"
  using fields_from_map [of lower_char "[]" s] by (simp add: Fields_def ToLower_def)

lemma ToLower_Join: "Join (map ToLower ws) '' '' = ToLower (Join ws '' '')"
  using Join_map [of lower_char ws "'' ''"]
  by (simp add: ToLower_def [abs_def] lower_char_def)

lemma normalizeName_idem: "normalizeName (normalizeName s) = normalizeName s"
proof -
  have "ToLower (Join (Fields (ToLower s)) '' '') = Join (Fields (ToLower s)) '' ''"
    by (simp add: Fields_lower ToLower_Join)
  then show ?thesis
    unfolding normalizeName_def by (simp add: Fields_Join Fields_words)
qed

lemma normalizeName_eq_Nil: "normalizeName s = [] \<longleftrightarrow> Fields s = []"
proof
  assume "normalizeName s = []"
  then have "Fields (normalizeName s) = []" by (simp add: Fields_def)
  then have "Fields (ToLower s) = []"
    unfolding normalizeName_def by (simp add: Fields_Join Fields_words)
  then show "Fields s = []" by (simp add: Fields_lower)
qed (simp add: normalizeName_def Fields_lower)

lemma dedupe_preimage_perm:
  assumes "mset (map Key exts) = mset (map Key exts')" and "exts \<noteq> []"
  shows "dedupe_preimage t exts n = dedupe_preimage t exts' n'"
proof -
  from assms have "exts' \<noteq> []" by auto
  moreover have "sort (map Key exts) = sort (map Key exts')"
    using assms(1) by (metis properties_for_sort sorted_sort mset_sort)
  ultimately show ?thesis using assms(2) by (simp add: dedupe_preimage_def Let_def)
qed

text \<open>
  The hashed text determines the type and the multiset of join keys, provided no NUL byte occurs
  in them; so the derived key can only conflate two assertions through the digest.
\<close>

lemma Join_hd: "ks \<noteq> [] \<Longrightarrow> hd ks \<noteq> [] \<Longrightarrow> Join ks sep \<noteq> [] \<and> hd (Join ks sep) = hd (hd ks)"
  by (cases ks rule: remdups_adj.cases) auto

definition nul_free :: "string \<Rightarrow> bool" where
  "nul_free s = (CHR 0x00 \<notin> set s)"

lemma preimage_tail_inj:
  fixes n n' :: string
  assumes eq: "Join ks [CHR 0x00] @ (if ks = [] then [CHR 0x00] @ n else []) =
      Join ks' [CHR 0x00] @ (if ks' = [] then [CHR 0x00] @ n' else [])"
    and ks: "\<forall>k \<in> set ks. nul_free k \<and> k \<noteq> []" and ks': "\<forall>k \<in> set ks'. nul_free k \<and> k \<noteq> []"
  shows "ks = ks' \<and> (ks = [] \<longrightarrow> n = n')"
proof -
  have head: "hd (Join zs [CHR 0x00]) \<noteq> CHR 0x00 \<and> Join zs [CHR 0x00] \<noteq> []"
    if "zs \<noteq> []" "\<forall>k \<in> set zs. nul_free k \<and> k \<noteq> []" for zs :: "string list"
  proof -
    from that have hz: "hd zs \<noteq> []" "nul_free (hd zs)" by (auto intro: hd_in_set)
    then have "hd (hd zs) \<noteq> CHR 0x00" by (metis hd_in_set nul_free_def)
    with Join_hd [OF that(1) hz(1)] show ?thesis by simp
  qed
  show ?thesis
  proof (cases "ks = []"; cases "ks' = []")
    assume "ks = []" "ks' = []"
    with eq show ?thesis by simp
  next
    assume a: "ks = []" "ks' \<noteq> []"
    with eq have "Join ks' [CHR 0x00] = CHR 0x00 # n" by simp
    with head [OF a(2) ks'] show ?thesis by simp
  next
    assume a: "ks \<noteq> []" "ks' = []"
    with eq have "Join ks [CHR 0x00] = CHR 0x00 # n'" by simp
    with head [OF a(1) ks] show ?thesis by simp
  next
    assume a: "ks \<noteq> []" "ks' \<noteq> []"
    with eq have "Join ks [CHR 0x00] = Join ks' [CHR 0x00]" by simp
    with a ks ks' show ?thesis using Join_inj [of ks "CHR 0x00" ks'] by (auto simp: nul_free_def)
  qed
qed

lemma dedupe_preimage_inj:
  assumes eq: "dedupe_preimage t exts n = dedupe_preimage t' exts' n'"
    and t: "nul_free t" "nul_free t'"
    and k: "\<forall>x \<in> set exts. nul_free (Key x)" "\<forall>x \<in> set exts'. nul_free (Key x)"
  shows "t = t' \<and> mset (map Key exts) = mset (map Key exts') \<and>
    (exts = [] \<longrightarrow> normalizeName n = normalizeName n')"
proof -
  let ?r = "\<lambda>exts n. Join (sort (map Key exts)) [CHR 0x00] @
      (if sort (map Key exts) = [] then [CHR 0x00] @ normalizeName n else [])"
  from eq have "t @ CHR 0x00 # ?r exts n = t' @ CHR 0x00 # ?r exts' n'"
    unfolding dedupe_preimage_def Let_def by (simp only: append_Cons append_Nil append.assoc list.inject same_append_eq)
  then have tt: "t = t'" and rr: "?r exts n = ?r exts' n'"
    using append_sep_inj [of "CHR 0x00" t t'] t unfolding nul_free_def by blast+
  have "sort (map Key exts) = sort (map Key exts') \<and>
      (sort (map Key exts) = [] \<longrightarrow> normalizeName n = normalizeName n')"
    by (rule preimage_tail_inj [OF rr]) (use k in auto)
  moreover from this have "mset (map Key exts) = mset (map Key exts')" by (metis mset_sort)
  ultimately show ?thesis using tt by simp
qed

lemma Fields_inj_Join: "Join (Fields s) '' '' = Join (Fields t) '' '' \<Longrightarrow> Fields s = Fields t"
  by (metis Fields_Join Fields_words)

section \<open>Properties\<close>

text \<open>With external ids the derived dedupe key depends on the type and on which ids there
  are, not on their order and not on the display name: two callers that list the same ids
  differently assert the same thing.\<close>

theorem DeriveDedupeKey_order:
  assumes "mset exts = mset exts'" and "exts \<noteq> []"
  shows "DeriveDedupeKey sha t exts name = DeriveDedupeKey sha t exts' name'"
proof -
  have "mset (map Key exts) = mset (map Key exts')" using assms(1) by simp
  from dedupe_preimage_perm [OF this assms(2), of t name name'] show ?thesis by (simp add: DeriveDedupeKey_def)
qed

theorem DeriveDedupeKey_order_witness:
  "DeriveDedupeKey rev ''Movie'' [\<lparr>Scheme = ''imdb'', Value = ''tt1''\<rparr>, \<lparr>Scheme = ''tmdb'', Value = ''7''\<rparr>] ''A'' =
   DeriveDedupeKey rev ''Movie'' [\<lparr>Scheme = ''tmdb'', Value = ''7''\<rparr>, \<lparr>Scheme = ''imdb'', Value = ''tt1''\<rparr>] ''B''"
  by (rule DeriveDedupeKey_order) simp_all

text \<open>The derived dedupe key conflates nothing by itself: when the digest does not collide on
  the two texts and no NUL byte occurs in the parts, equal keys mean the same type, the same
  multiset of external join keys and, without external ids, the same normalized name.\<close>

theorem DeriveDedupeKey_injective:
  assumes "DeriveDedupeKey sha t exts n = DeriveDedupeKey sha t' exts' n'"
    and "inj_on sha {dedupe_preimage t exts n, dedupe_preimage t' exts' n'}"
    and "nul_free t" and "nul_free t'"
    and "\<forall>x \<in> set exts. nul_free (Key x)" and "\<forall>x \<in> set exts'. nul_free (Key x)"
  shows "t = t' \<and> mset (map Key exts) = mset (map Key exts') \<and>
    (exts = [] \<longrightarrow> normalizeName n = normalizeName n')"
proof (rule dedupe_preimage_inj [OF _ assms(3-6)])
  show "dedupe_preimage t exts n = dedupe_preimage t' exts' n'"
    by (rule inj_onD [OF assms(2) assms(1) [unfolded DeriveDedupeKey_def]]) simp_all
qed

theorem DeriveDedupeKey_injective_witness:
  "mset (map Key [\<lparr>Scheme = ''a'', Value = ''1''\<rparr>, \<lparr>Scheme = ''b'', Value = ''2''\<rparr>]) =
     mset (map Key [\<lparr>Scheme = ''b'', Value = ''2''\<rparr>, \<lparr>Scheme = ''a'', Value = ''1''\<rparr>])"
  (is "mset (map Key ?xs) = mset (map Key ?ys)")
proof -
  have eq: "DeriveDedupeKey (\<lambda>s. s) ''Note'' ?xs ''x'' = DeriveDedupeKey (\<lambda>s. s) ''Note'' ?ys ''y''"
    by code_simp
  have n: "nul_free ''Note''" and k: "\<forall>x \<in> set ?xs. nul_free (Key x)" "\<forall>x \<in> set ?ys. nul_free (Key x)"
    by code_simp+
  from DeriveDedupeKey_injective [OF eq inj_on_id2 n n k] show ?thesis by blast
qed

text \<open>Two names normalize to the same text exactly when they have the same words up to case;
  the normal form is stable, and it is empty exactly when the name has no word, which is when an
  assertion without external ids needs a random key.\<close>

theorem normalizeName_spec:
  "(normalizeName s = normalizeName t \<longleftrightarrow> map ToLower (Fields s) = map ToLower (Fields t)) \<and>
   normalizeName (normalizeName s) = normalizeName s \<and>
   (RandomKeyNeeded exts s \<longleftrightarrow> exts = [] \<and> Fields s = [])"
proof -
  have "normalizeName s = normalizeName t \<longleftrightarrow> Fields (ToLower s) = Fields (ToLower t)"
    using Fields_inj_Join by (auto simp: normalizeName_def)
  then show ?thesis
    by (simp add: Fields_lower normalizeName_idem RandomKeyNeeded_def normalizeName_eq_Nil)
qed

end
