(* ===== verification/Jdx_Codec.thy ===== *)
theory Jdx_Codec
  imports Jdx_Domain
begin

unbundle bit_operations_syntax

text \<open>
  The encodings the SQLite adapter stores: float32 vectors as little-endian bytes, timestamps as
  RFC 3339 text with nanoseconds, JSON property bags and their union, and the marshalled payload
  of a fact (\<open>sqlite.go\<close>, \<open>entities.go\<close>, \<open>fts.go\<close>).
\<close>

section \<open>float32 vectors as bytes\<close>

type_synonym byte = "8 word"

definition PutUint32 :: "f32bits \<Rightarrow> byte list" where
  "PutUint32 w = [ucast w, ucast (drop_bit 8 w), ucast (drop_bit 16 w), ucast (drop_bit 24 w)]"

definition Uint32 :: "byte \<Rightarrow> byte \<Rightarrow> byte \<Rightarrow> byte \<Rightarrow> f32bits" where
  "Uint32 a b c d =
     ucast a OR push_bit 8 (ucast b) OR push_bit 16 (ucast c) OR push_bit 24 (ucast d)"

definition encodeVec :: "f32bits list \<Rightarrow> byte list" where
  "encodeVec v = concat (map PutUint32 v)"

fun decodeVec :: "byte list \<Rightarrow> f32bits list" where
  "decodeVec (a # b # c # d # bs) = Uint32 a b c d # decodeVec bs"
| "decodeVec _ = []"

lemma Uint32_PutUint32: "Uint32 (ucast w) (ucast (drop_bit 8 w)) (ucast (drop_bit 16 w)) (ucast (drop_bit 24 w)) = w"
proof (rule bit_word_eqI)
  fix n assume "n < LENGTH(32)"
  then have n: "n < 32" by simp
  have b: "bit (Uint32 (ucast w) (ucast (drop_bit 8 w)) (ucast (drop_bit 16 w)) (ucast (drop_bit 24 w))) n
      \<longleftrightarrow> n < 8 \<and> bit w n \<or> 8 \<le> n \<and> n < 16 \<and> bit w n \<or> 16 \<le> n \<and> n < 24 \<and> bit w n \<or>
        24 \<le> n \<and> n < 32 \<and> bit w n"
    using n by (auto simp: Uint32_def bit_or_iff bit_push_bit_iff bit_ucast_iff bit_drop_bit_eq)
  show "bit (Uint32 (ucast w) (ucast (drop_bit 8 w)) (ucast (drop_bit 16 w)) (ucast (drop_bit 24 w))) n = bit w n"
    unfolding b using n by linarith
qed

lemma decodeVec_encodeVec [simp]: "decodeVec (encodeVec v) = v"
  by (induction v) (simp_all add: encodeVec_def PutUint32_def Uint32_PutUint32)

lemma length_encodeVec [simp]: "length (encodeVec v) = 4 * length v"
  by (induction v) (simp_all add: encodeVec_def PutUint32_def)

lemma length_decodeVec: "length (decodeVec b) = length b div 4"
  by (induction b rule: decodeVec.induct) simp_all

text \<open>The value of a float32 bit pattern. Infinities and NaNs (exponent field 255) have none.\<close>

definition f32_exp :: "f32bits \<Rightarrow> nat" where
  "f32_exp w = unat (take_bit 8 (drop_bit 23 w))"

definition f32_finite :: "f32bits \<Rightarrow> bool" where
  "f32_finite w = (f32_exp w \<noteq> 255)"

definition f32_val :: "f32bits \<Rightarrow> real" where
  "f32_val w =
     (let m = real (unat (take_bit 23 w)); e = f32_exp w in
      (if bit w 31 then -1 else 1) *
      (if e = 0 then m / 2 ^ 149
       else if e \<ge> 150 then (m + 2 ^ 23) * 2 ^ (e - 150) else (m + 2 ^ 23) / 2 ^ (150 - e)))"

section \<open>Timestamps as text\<close>

text \<open>
  \<open>t.UTC().Format(time.RFC3339Nano)\<close>. The date-and-time prefix has fixed width (years 0 to
  9999), so that comparing it as text compares the seconds: it is kept as the number of seconds.
  The rest of the text is the fraction with trailing zeros removed, and \<open>Z\<close>. Columns are compared
  as text, that is lexicographically on the pair.
\<close>

type_synonym tstext = "int \<times> string"

fun digits :: "nat \<Rightarrow> nat \<Rightarrow> nat list" where
  "digits 0 n = []"
| "digits (Suc k) n = digits k (n div 10) @ [n mod 10]"

definition digits_val :: "nat list \<Rightarrow> nat" where
  "digits_val ds = foldl (\<lambda>a d. 10 * a + d) 0 ds"

definition trim_zeros :: "nat list \<Rightarrow> nat list" where
  "trim_zeros ds = rev (dropWhile (\<lambda>d. d = 0) (rev ds))"

definition digit_char :: "nat \<Rightarrow> char" where
  "digit_char d = char_of (48 + d)"

definition char_digit :: "char \<Rightarrow> nat" where
  "char_digit c = of_char c - 48"

definition fmt_frac :: "nat \<Rightarrow> string" where
  "fmt_frac ns = (let ds = trim_zeros (digits 9 ns) in
     (if ds = [] then [] else CHR ''.'' # map digit_char ds) @ ''Z'')"

definition parse_frac :: "string \<Rightarrow> nat" where
  "parse_frac s = (case s of
       [] \<Rightarrow> 0
     | c # cs \<Rightarrow> if c = CHR ''.''
         then (let ds = map char_digit (butlast cs) in digits_val ds * 10 ^ (9 - length ds)) else 0)"

definition fmtTS :: "time \<Rightarrow> tstext" where
  "fmtTS t = (t div 10 ^ 9, fmt_frac (nat (t mod 10 ^ 9)))"

definition parseTS :: "tstext \<Rightarrow> time" where
  "parseTS x = fst x * 10 ^ 9 + int (parse_frac (snd x))"

lemma digits_val_snoc: "digits_val (ds @ [d]) = 10 * digits_val ds + d"
  by (simp add: digits_val_def)

lemma length_digits [simp]: "length (digits k n) = k"
  by (induction k n rule: digits.induct) simp_all

lemma digits_nine: "digits 9 n = [n div 10 ^ 8 mod 10, n div 10 ^ 7 mod 10, n div 10 ^ 6 mod 10,
    n div 10 ^ 5 mod 10, n div 10 ^ 4 mod 10, n div 10 ^ 3 mod 10, n div 10 ^ 2 mod 10, n div 10 mod 10, n mod 10]"
proof -
  have nine: "9 = Suc (Suc (Suc (Suc (Suc (Suc (Suc (Suc (Suc 0))))))))" by simp
  show ?thesis unfolding nine digits.simps by (simp flip: div_mult2_eq)
qed

lemma digits_lt: "d \<in> set (digits k n) \<Longrightarrow> d < 10"
  by (induction k n rule: digits.induct) auto

lemma digits_val_digits: "digits_val (digits k n) = n mod 10 ^ k"
proof (induction k n rule: digits.induct)
  case (1 n)
  then show ?case by (simp add: digits_val_def)
next
  case (2 k n)
  then show ?case by (simp add: digits_val_snoc mod_mult2_eq)
qed

lemma digits_val_zeros: "digits_val (ds @ replicate j 0) = digits_val ds * 10 ^ j"
  by (induction j) (simp_all add: digits_val_snoc replicate_append_same [symmetric]
      flip: append_assoc)

lemma trim_zeros_pad: "trim_zeros ds @ replicate (length ds - length (trim_zeros ds)) 0 = ds"
proof -
  have "takeWhile (\<lambda>d. d = 0) (rev ds) = replicate (length (takeWhile (\<lambda>d. d = 0) (rev ds))) (0::nat)"
    by (metis (mono_tags, lifting) replicate_length_same set_takeWhileD)
  moreover have "length ds = length (takeWhile (\<lambda>d. d = 0) (rev ds)) + length (trim_zeros ds)"
    by (metis length_append length_rev takeWhile_dropWhile_id trim_zeros_def)
  moreover have "rev ds = takeWhile (\<lambda>d. d = 0) (rev ds) @ rev (trim_zeros ds)"
    by (simp add: trim_zeros_def)
  ultimately show ?thesis
    by (metis add_diff_cancel_right' rev_append rev_replicate rev_rev_ident)
qed

lemma trim_zeros_subset: "set (trim_zeros ds) \<subseteq> set ds"
  by (auto simp: trim_zeros_def dest: set_dropWhileD)

lemma char_digit_digit_char: "d < 10 \<Longrightarrow> char_digit (digit_char d) = d"
  by (simp add: char_digit_def digit_char_def of_char_of)

lemma parse_fmt_frac: "ns < 10 ^ 9 \<Longrightarrow> parse_frac (fmt_frac ns) = ns"
proof -
  assume ns: "ns < 10 ^ 9"
  let ?ds = "trim_zeros (digits 9 ns)"
  have id: "map (char_digit \<circ> digit_char) ?ds = ?ds"
    by (rule map_idI) (use digits_lt trim_zeros_subset char_digit_digit_char in fastforce)
  have "digits_val ?ds * 10 ^ (9 - length ?ds) = digits_val (?ds @ replicate (9 - length ?ds) 0)"
    by (simp add: digits_val_zeros)
  also have "\<dots> = digits_val (digits 9 ns)"
    using trim_zeros_pad [of "digits 9 ns"] by simp
  also have "\<dots> = ns" using ns by (simp add: digits_val_digits)
  finally show ?thesis
    by (auto simp: parse_frac_def fmt_frac_def Let_def id butlast_append digits_val_def)
qed

lemma parseTS_fmtTS [simp]: "parseTS (fmtTS t) = t"
proof -
  have "nat (t mod 10 ^ 9) < 10 ^ 9" by (simp add: nat_less_iff)
  then show ?thesis by (simp add: parseTS_def fmtTS_def parse_fmt_frac)
qed

section \<open>JSON property bags\<close>

definition obj_put :: "string \<Rightarrow> json \<Rightarrow> (string \<times> json) list \<Rightarrow> (string \<times> json) list" where
  "obj_put k v kvs =
     (if k \<in> fst ` set kvs then map (\<lambda>(k', v'). if k' = k then (k, v) else (k', v')) kvs
      else kvs @ [(k, v)])"

definition obj_del :: "string \<Rightarrow> (string \<times> json) list \<Rightarrow> (string \<times> json) list" where
  "obj_del k kvs = filter (\<lambda>(k', _). k' \<noteq> k) kvs"

definition members :: "json \<Rightarrow> (string \<times> json) list" where
  "members j = (case j of JObj kvs \<Rightarrow> kvs | _ \<Rightarrow> [])"

text \<open>SQLite's \<open>json_patch(target, patch)\<close>: the RFC 7396 merge patch.\<close>

function (sequential) json_patch :: "json \<Rightarrow> json \<Rightarrow> json"
  and patch_members :: "(string \<times> json) list \<Rightarrow> (string \<times> json) list \<Rightarrow> (string \<times> json) list" where
  "json_patch t (JObj ps) = JObj (patch_members (members t) ps)"
| "json_patch t p = p"
| "patch_members kvs [] = kvs"
| "patch_members kvs ((k, v) # ps) =
     patch_members
       (if v = JNull then obj_del k kvs
        else obj_put k (json_patch (case map_of kvs k of None \<Rightarrow> JNull | Some w \<Rightarrow> w) v) kvs) ps"
  by pat_completeness auto
termination
  by (relation "measure (\<lambda>x. case x of Inl (t, p) \<Rightarrow> 2 * size p + 1
      | Inr (kvs, ps) \<Rightarrow> 2 * size_list (size_prod (\<lambda>_. 0) size) ps)") auto

definition obj_norm :: "(string \<times> json) list \<Rightarrow> (string \<times> json) list" where
  "obj_norm kvs = foldr (\<lambda>(k, v) rest. if k \<in> fst ` set rest then rest else (k, v) # rest) kvs []"

definition extractName :: "rawmsg \<Rightarrow> string" where
  "extractName props = (case props of
       RawDoc (JObj kvs) \<Rightarrow> (case obj_get kvs ''name'' of Some (JStr n) \<Rightarrow> n | _ \<Rightarrow> [])
     | _ \<Rightarrow> [])"

definition extractSearchText :: "json \<Rightarrow> etype \<Rightarrow> string" where
  "extractSearchText props typ =
     Join (typ # concat (map (\<lambda>(k, v). case v of JStr s \<Rightarrow> if s \<noteq> [] then [s] else [] | _ \<Rightarrow> [])
       (obj_norm (members props)))) '' ''"

section \<open>Fact payloads\<close>

text \<open>
  What \<open>json.Marshal\<close> writes and \<open>json.Unmarshal\<close> reads back. A nil \<open>json.RawMessage\<close> is
  written as \<open>null\<close>; reading \<open>null\<close> gives the four bytes \<open>null\<close>, a JSON document, not the nil
  slice. A raw message that is not JSON and a vector with an infinity or a NaN make Marshal fail.
  The other fields are read back as they were written.
\<close>

datatype payload = PEntity entity | PEdge edge | PMerge entity_id entity_id | PEmpty

definition wire_props :: "rawmsg \<Rightarrow> rawmsg res" where
  "wire_props p = (case p of RawEmpty \<Rightarrow> Inr (RawDoc JNull) | RawDoc j \<Rightarrow> Inr (RawDoc j)
     | RawBad _ \<Rightarrow> Inl ErrMarshal)"

definition embeddings_finite :: "embedding list \<Rightarrow> bool" where
  "embeddings_finite es = (\<forall>e \<in> set es. \<forall>w \<in> set (Vector e). f32_finite w)"

definition marshal_entity :: "entity \<Rightarrow> payload res" where
  "marshal_entity e =
     (if \<not> embeddings_finite (E_Embeddings e) then Inl ErrMarshal
      else rbind (wire_props (E_Props e)) (\<lambda>p. Inr (PEntity (e\<lparr>E_Props := p\<rparr>))))"

definition marshal_edge :: "edge \<Rightarrow> payload res" where
  "marshal_edge d = rbind (wire_props (D_Props d)) (\<lambda>p. Inr (PEdge (d\<lparr>D_Props := p\<rparr>)))"

definition unmarshal_entity :: "payload \<Rightarrow> entity res" where
  "unmarshal_entity p = (case p of PEntity e \<Rightarrow> Inr e | _ \<Rightarrow> Inl ErrUnmarshal)"

definition unmarshal_edge :: "payload \<Rightarrow> edge res" where
  "unmarshal_edge p = (case p of PEdge d \<Rightarrow> Inr d | _ \<Rightarrow> Inl ErrUnmarshal)"

definition unmarshal_merge :: "payload \<Rightarrow> (entity_id \<times> entity_id) res" where
  "unmarshal_merge p = (case p of PMerge k d \<Rightarrow> Inr (k, d) | _ \<Rightarrow> Inl ErrUnmarshal)"

section \<open>The property union of an attach\<close>

lemma map_of_obj_put:
  "map_of (obj_put k v kvs) x = (if x = k then Some v else map_of kvs x)"
proof (cases "k \<in> fst ` set kvs")
  case True
  have "map_of (map (\<lambda>(k', v'). if k' = k then (k, v) else (k', v')) kvs) x =
      (if x = k then (if k \<in> fst ` set kvs then Some v else None) else map_of kvs x)" for kvs
    by (induction kvs) (auto simp: rev_image_eqI)
  with True show ?thesis by (simp add: obj_put_def)
next
  case False
  then have "map_of kvs k = None" by (simp add: map_of_eq_None_iff)
  with False show ?thesis by (simp add: obj_put_def map_add_def split: option.split)
qed

lemma map_of_obj_del: "map_of (obj_del k kvs) x = (if x = k then None else map_of kvs x)"
  by (induction kvs) (auto simp: obj_del_def)

lemma patch_members_map_of:
  assumes "distinct (map fst ps)"
  shows "map_of (patch_members kvs ps) x = (case map_of ps x of
      None \<Rightarrow> map_of kvs x
    | Some v \<Rightarrow> if v = JNull then None
        else Some (json_patch (case map_of kvs x of None \<Rightarrow> JNull | Some w \<Rightarrow> w) v))"
  using assms
proof (induction ps arbitrary: kvs x)
  case Nil
  then show ?case by simp
next
  case (Cons p ps)
  obtain k v where p: "p = (k, v)" by (cases p)
  from Cons.prems p have k: "map_of ps k = None" "distinct (map fst ps)"
    by (auto simp: map_of_eq_None_iff)
  show ?case
    by (cases "x = k"; cases "v = JNull")
       (simp_all add: p Cons.IH [OF k(2)] k(1) map_of_obj_put map_of_obj_del split: option.split)
qed

section \<open>Properties\<close>

text \<open>A stored embedding is read back bit for bit, and takes four bytes per component, which
  is what the dim column promises.\<close>

theorem vec_roundtrip: "decodeVec (encodeVec v) = v \<and> length (encodeVec v) = 4 * length v"
  by simp



text \<open>Within one second the text order of timestamps is not the time order: RFC3339Nano drops
  trailing zeros, and the Z that then follows sorts after every digit. A query that orders by
  created_at can list a later row first.\<close>

theorem timestamp_text_order_in_second: "\<exists>s t. s < t \<and> s div 10 ^ 9 = t div 10 ^ 9 \<and> fmtTS t < fmtTS s"
proof (intro exI conjI)
  show "(100000000 :: int) < 150000000" by simp
  show "(100000000 :: int) div 10 ^ 9 = 150000000 div 10 ^ 9" by simp
  have t: "trim_zeros [Suc 0, 0, 0, 0, 0, 0, 0, 0, 0] = [Suc 0]" "trim_zeros [Suc 0, 5, 0, 0, 0, 0, 0, 0, 0] = [Suc 0, 5]"
    by (simp_all add: trim_zeros_def)
  have c: "digit_char (Suc 0) = CHR ''1''" "digit_char 5 = CHR ''5''"
    by (simp_all add: digit_char_def char_of_def bit_iff_odd)
  have "fmt_frac 100000000 = ''.1Z''" "fmt_frac 150000000 = ''.15Z''"
    by (simp_all add: fmt_frac_def digits_nine t c Let_def)
  then have "fmtTS 150000000 = (0, ''.15Z'')" "fmtTS 100000000 = (0, ''.1Z'')"
    by (simp_all add: fmtTS_def)
  then show "fmtTS 150000000 < fmtTS 100000000"
    by (simp add: less_prod_def less_char_def)
qed

text \<open>What an attach does to the properties: json_patch of the candidate's object by the stored
  one keeps every stored value (a stored object is united member by member, a stored null drops
  the key) and adds the candidate's keys the stored object lacks.\<close>

theorem attach_union:
  assumes "distinct (map fst stored)"
  shows "map_of (members (json_patch (JObj cand) (JObj stored))) k = (case map_of stored k of
      None \<Rightarrow> map_of cand k
    | Some v \<Rightarrow> if v = JNull then None
        else Some (json_patch (case map_of cand k of None \<Rightarrow> JNull | Some w \<Rightarrow> w) v))"
  using patch_members_map_of [OF assms, of cand k] by (simp add: members_def)

theorem attach_union_witness:
  "map_of (members (json_patch (JObj [(''name'', JStr ''New''), (''year'', JNum ''1999'')])
      (JObj [(''name'', JStr ''Old'')]))) ''name'' = Some (JStr ''Old'')"
  using attach_union [of "[(''name'', JStr ''Old'')]" "[(''name'', JStr ''New''), (''year'', JNum ''1999'')]" "''name''"]
  by simp

end
