(* ===== verification/Jdx_Access.thy ===== *)
theory Jdx_Access
  imports Jdx_Domain
begin

text \<open>
  The identity seam of \<open>internal/access\<close> and the hard ACL as the SQLite adapter compiles it
  (\<open>accessClause\<close> in \<open>sqlite.go\<close>): a WHERE fragment with positional placeholders and the
  argument list that fills them, evaluated on the guarded columns of a row. The contract between
  an access model and the store is the locale \<open>access_model\<close>.
\<close>

section \<open>Principals, decisions, filters\<close>

record principal =
  P_ID :: principal_id
  P_Spaces :: "space_id list"
  P_WriteSpaces :: "space_id list"
  P_ApproverSpaces :: "space_id list"
  P_Restricted :: bool

record lens =
  L_ID :: string
  HideTypes :: "etype list"
  HidePredicates :: "predicate list"

record decision =
  Principal :: principal
  Lenses :: "lens list"
  D_Source :: string

fun ContainsSpace :: "space_id list \<Rightarrow> space_id \<Rightarrow> bool" where
  "ContainsSpace [] s = False"
| "ContainsSpace (x # xs) s = (if x = s then True else ContainsSpace xs s)"

record guarded =
  G_Space :: space_id
  G_Owner :: principal_id
  G_Visibility :: visibility
  G_Type :: etype
  G_Predicate :: predicate

record acl_filter =
  F_Principal :: principal_id
  F_Spaces :: "space_id list"
  F_Restricted :: bool
  F_DenyTypes :: "etype list"
  F_AllowPublic :: bool

section \<open>The compiled WHERE fragment\<close>

text \<open>
  The fragment's syntax, with \<open>?\<close> placeholders: \<open>C_SpaceIn n\<close> is \<open>space IN (?,...)\<close> with \<open>n\<close>
  of them. Its evaluation consumes the arguments from left to right, as positional binding does.
\<close>

datatype sqlcond = C_VisIs visibility | C_SpaceIn nat | C_OwnerIs | C_TypeNotIn nat
  | C_And sqlcond sqlcond | C_Or "sqlcond list"

fun sql_eval :: "guarded \<Rightarrow> sqlcond \<Rightarrow> string list \<Rightarrow> bool \<times> string list"
  and sql_eval_or :: "guarded \<Rightarrow> sqlcond list \<Rightarrow> string list \<Rightarrow> bool \<times> string list" where
  "sql_eval g (C_VisIs v) args = (G_Visibility g = v, args)"
| "sql_eval g (C_SpaceIn n) args = (List.member (take n args) (G_Space g), drop n args)"
| "sql_eval g C_OwnerIs args =
     (case args of [] \<Rightarrow> (False, []) | a # as \<Rightarrow> (G_Owner g = a, as))"
| "sql_eval g (C_TypeNotIn n) args = (\<not> List.member (take n args) (G_Type g), drop n args)"
| "sql_eval g (C_And a b) args =
     (let (x, args1) = sql_eval g a args; (y, args2) = sql_eval g b args1 in (x \<and> y, args2))"
| "sql_eval g (C_Or cs) args = sql_eval_or g cs args"
| "sql_eval_or g [] args = (False, args)"
| "sql_eval_or g (c # cs) args =
     (let (x, args1) = sql_eval g c args; (y, args2) = sql_eval_or g cs args1 in (x \<or> y, args2))"

definition accessClause :: "acl_filter \<Rightarrow> bool \<Rightarrow> sqlcond \<times> string list" where
  "accessClause af gateTypes =
     (let ors1 = (if F_AllowPublic af then [C_VisIs VisPublic] else []);
          ors2 = (if length (F_Spaces af) > 0
                  then ors1 @ [C_And (C_VisIs VisSpace) (C_SpaceIn (length (F_Spaces af)))] else ors1);
          args2 = (if length (F_Spaces af) > 0 then F_Spaces af else []);
          ors3 = ors2 @ [C_And (C_VisIs VisPrivate) C_OwnerIs];
          args3 = args2 @ [F_Principal af]
      in if gateTypes \<and> F_Restricted af \<and> length (F_DenyTypes af) > 0
         then (C_And (C_Or ors3) (C_TypeNotIn (length (F_DenyTypes af))), args3 @ F_DenyTypes af)
         else (C_Or ors3, args3))"

definition accessWhere :: "acl_filter \<Rightarrow> guarded \<Rightarrow> bool" where
  "accessWhere af g = (let (c, args) = accessClause af True in fst (sql_eval g c args))"

definition accessWhereEdge :: "acl_filter \<Rightarrow> guarded \<Rightarrow> bool" where
  "accessWhereEdge af g = (let (c, args) = accessClause af False in fst (sql_eval g c args))"

section \<open>What the fragment means\<close>

definition visible_spec :: "acl_filter \<Rightarrow> guarded \<Rightarrow> bool" where
  "visible_spec af g =
     (case G_Visibility g of
        VisPublic \<Rightarrow> F_AllowPublic af
      | VisSpace \<Rightarrow> G_Space g \<in> set (F_Spaces af)
      | VisPrivate \<Rightarrow> G_Owner g = F_Principal af
      | VisOther _ \<Rightarrow> False)"

lemma accessClause_eval:
  "sql_eval g (fst (accessClause af gt)) (snd (accessClause af gt) @ rest) =
     (visible_spec af g \<and> \<not> (gt \<and> F_Restricted af \<and> G_Type g \<in> set (F_DenyTypes af)), rest)"
  by (cases "G_Visibility g")
     (auto simp: accessClause_def visible_spec_def Let_def List.member_iff)

lemma accessWhere_iff:
  "accessWhere af g \<longleftrightarrow>
     visible_spec af g \<and> \<not> (F_Restricted af \<and> G_Type g \<in> set (F_DenyTypes af))"
  using accessClause_eval [of g af True "[]"] by (simp add: accessWhere_def case_prod_beta)

lemma accessWhereEdge_iff: "accessWhereEdge af g \<longleftrightarrow> visible_spec af g"
  using accessClause_eval [of g af False "[]"] by (simp add: accessWhereEdge_def case_prod_beta)

lemma ContainsSpace_iff [simp]: "ContainsSpace xs s \<longleftrightarrow> s \<in> set xs"
  by (induction xs) auto

section \<open>The contract of an access model\<close>

locale access_model =
  fixes FilterFor :: "decision \<Rightarrow> acl_filter"
    and CanRead :: "decision \<Rightarrow> guarded \<Rightarrow> bool"
    and CanWrite :: "decision \<Rightarrow> space_id \<Rightarrow> bool"
    and CanApprove :: "decision \<Rightarrow> space_id \<Rightarrow> bool"
  assumes filter_agrees: "accessWhere (FilterFor d) g \<longleftrightarrow> CanRead d g"
    and filter_principal: "F_Principal (FilterFor d) = P_ID (Principal d)"
    and filter_spaces: "F_Spaces (FilterFor d) = P_Spaces (Principal d)"
    and write_granted: "CanWrite d s \<longleftrightarrow> s \<in> set (P_WriteSpaces (Principal d))"
    and approve_granted: "CanApprove d s \<longleftrightarrow> s \<in> set (P_ApproverSpaces (Principal d))"
begin

lemma read_default_deny: "G_Visibility g = VisOther v \<Longrightarrow> \<not> CanRead d g"
  by (simp add: filter_agrees [symmetric] accessWhere_iff visible_spec_def)

lemma read_space_needs_membership:
  "CanRead d g \<Longrightarrow> G_Visibility g = VisSpace \<Longrightarrow> G_Space g \<in> set (P_Spaces (Principal d))"
  by (simp add: filter_agrees [symmetric] accessWhere_iff visible_spec_def filter_spaces)

lemma read_private_needs_owner:
  "CanRead d g \<Longrightarrow> G_Visibility g = VisPrivate \<Longrightarrow> G_Owner g = P_ID (Principal d)"
  by (simp add: filter_agrees [symmetric] accessWhere_iff visible_spec_def filter_principal)

lemma read_outside_spaces:
  "CanRead d g \<Longrightarrow> G_Space g \<notin> set (P_Spaces (Principal d)) \<Longrightarrow>
     G_Visibility g = VisPublic \<or> G_Owner g = P_ID (Principal d)"
  using read_default_deny read_space_needs_membership read_private_needs_owner
  by (cases "G_Visibility g") auto

lemma filtered_rows_readable:
  "r \<in> set (filter (\<lambda>r. accessWhere (FilterFor d) (guard r)) rows) \<Longrightarrow> CanRead d (guard r)"
  by (simp add: filter_agrees)

lemma no_write_set_read_only: "P_WriteSpaces (Principal d) = [] \<Longrightarrow> \<not> CanWrite d s"
  by (simp add: write_granted)

lemma no_approver_set_no_approval: "P_ApproverSpaces (Principal d) = [] \<Longrightarrow> \<not> CanApprove d s"
  by (simp add: approve_granted)

end

section \<open>The rules both models share\<close>

text \<open>
  \<open>starchart.Model\<close> and \<open>jumpdrive.Model\<close> implement the same four methods over a list of
  denied types; the text of the functions is the same in both packages.
\<close>

fun containsType :: "etype list \<Rightarrow> etype \<Rightarrow> bool" where
  "containsType [] t = False"
| "containsType (x # xs) t = (if x = t then True else containsType xs t)"

lemma containsType_iff [simp]: "containsType xs t \<longleftrightarrow> t \<in> set xs"
  by (induction xs) auto

end
