(* ===== verification/Jdx_Resolve.thy ===== *)
theory Jdx_Resolve
  imports Jdx_Domain
begin

text \<open>
  The pure resolve-before-create decision of \<open>internal/domain/resolve.go\<close>: given what the store
  found, what to do with a candidate. The rendered reason text is a datatype with the numbers
  the source interpolates.
\<close>

section \<open>Policy, thresholds, inputs, verdict\<close>

datatype resolve_policy = ResolveAuto | ResolveExternalOnly | ResolveForceNew | PolicyOther string

definition Policy_Valid :: "resolve_policy \<Rightarrow> bool" where
  "Policy_Valid p = (case p of ResolveAuto \<Rightarrow> True | ResolveExternalOnly \<Rightarrow> True
     | ResolveForceNew \<Rightarrow> True | PolicyOther _ \<Rightarrow> False)"

record thresholds =
  AutoMerge :: real
  Review :: real

definition Thresholds_Validate :: "thresholds \<Rightarrow> gerr option" where
  "Thresholds_Validate t =
     (if \<not> (Review t > 0 \<and> Review t \<le> 1) then Some ErrThreshold
      else if \<not> (AutoMerge t > 0 \<and> AutoMerge t \<le> 1) then Some ErrThreshold
      else if \<not> (AutoMerge t > Review t) then Some ErrThreshold
      else None)"

record scored_match =
  SM_ID :: entity_id
  SM_Score :: real

record resolve_inputs =
  ExternalIDHits :: "entity_id list"
  VectorNeighbors :: "scored_match list"

datatype resolve_action = ActionInsertNew | ActionAttach | ActionMerge | ActionInsertFlagged
datatype match_kind = MatchNone | MatchExternal | MatchVector

datatype reason = ReasonSingleExternal | ReasonCollision nat | ReasonForceNew
  | ReasonExternalOnly | ReasonVectorAttach real real | ReasonVectorReview real real real
  | ReasonNoMatch | ReasonEmpty

record resolve_decision =
  Action :: resolve_action
  MatchKind :: match_kind
  Target :: entity_id
  MergeTargets :: "entity_id list"
  FlagTo :: entity_id
  FlagScore :: real
  Reason :: reason

definition decision0 :: resolve_decision where
  "decision0 = \<lparr>Action = ActionInsertNew, MatchKind = MatchNone, Target = [], MergeTargets = [],
     FlagTo = [], FlagScore = 0, Reason = ReasonEmpty\<rparr>"

section \<open>The decision\<close>

text \<open>\<open>dedupe_go\<close> is the loop of \<open>dedupeIDs\<close> with its \<open>seen\<close> map.\<close>

fun dedupe_go :: "entity_id list \<Rightarrow> entity_id list \<Rightarrow> entity_id list" where
  "dedupe_go seen [] = []"
| "dedupe_go seen (x # xs) =
     (if List.member seen x then dedupe_go seen xs else x # dedupe_go (x # seen) xs)"

definition dedupeIDs :: "entity_id list \<Rightarrow> entity_id list" where
  "dedupeIDs ids = dedupe_go [] ids"

definition maxScore :: "scored_match list \<Rightarrow> scored_match option" where
  "maxScore ns = (case ns of [] \<Rightarrow> None
     | n # rest \<Rightarrow> Some (foldl (\<lambda>best m. if SM_Score m > SM_Score best then m else best) n rest))"

definition Resolve ::
    "entity \<Rightarrow> resolve_inputs \<Rightarrow> resolve_policy \<Rightarrow> thresholds \<Rightarrow> resolve_decision res" where
  "Resolve candidate inp policy th =
     (if \<not> Policy_Valid policy then Inl ErrInvalidPolicy
      else if policy \<noteq> ResolveForceNew \<and> ExternalIDHits inp \<noteq> [] then
        (let distinct_ids = dedupeIDs (ExternalIDHits inp) in
         if length distinct_ids = 1 then
           Inr (decision0\<lparr>Action := ActionAttach, MatchKind := MatchExternal,
             Target := distinct_ids ! 0, Reason := ReasonSingleExternal\<rparr>)
         else
           Inr (decision0\<lparr>Action := ActionMerge, MatchKind := MatchExternal,
             Target := distinct_ids ! 0, MergeTargets := distinct_ids,
             Reason := ReasonCollision (length distinct_ids)\<rparr>))
      else if policy = ResolveForceNew then Inr (decision0\<lparr>Reason := ReasonForceNew\<rparr>)
      else if policy = ResolveExternalOnly then Inr (decision0\<lparr>Reason := ReasonExternalOnly\<rparr>)
      else
        (case maxScore (VectorNeighbors inp) of
           Some best \<Rightarrow>
             (if SM_Score best \<ge> AutoMerge th then
                Inr (decision0\<lparr>Action := ActionAttach, MatchKind := MatchVector,
                  Target := SM_ID best, Reason := ReasonVectorAttach (SM_Score best) (AutoMerge th)\<rparr>)
              else if SM_Score best \<ge> Review th then
                Inr (decision0\<lparr>Action := ActionInsertFlagged, MatchKind := MatchNone,
                  FlagTo := SM_ID best, FlagScore := SM_Score best,
                  Reason := ReasonVectorReview (SM_Score best) (Review th) (AutoMerge th)\<rparr>)
              else Inr (decision0\<lparr>Reason := ReasonNoMatch\<rparr>))
         | None \<Rightarrow> Inr (decision0\<lparr>Reason := ReasonNoMatch\<rparr>)))"

section \<open>Lemmas\<close>

lemma set_dedupe_go: "set (dedupe_go seen xs) = set xs - set seen"
  by (induction seen xs rule: dedupe_go.induct) (auto simp: List.member_iff)

lemma distinct_dedupe_go: "distinct (dedupe_go seen xs)"
  by (induction seen xs rule: dedupe_go.induct) (auto simp: set_dedupe_go)

lemma set_dedupeIDs [simp]: "set (dedupeIDs xs) = set xs"
  by (simp add: dedupeIDs_def set_dedupe_go)

lemma distinct_dedupeIDs [simp]: "distinct (dedupeIDs xs)"
  by (simp add: dedupeIDs_def distinct_dedupe_go)

lemma dedupeIDs_Nil_iff [simp]: "dedupeIDs xs = [] \<longleftrightarrow> xs = []"
  by (metis set_dedupeIDs set_empty)

lemma dedupe_go_distinct:
  "distinct xs \<Longrightarrow> set xs \<inter> set seen = {} \<Longrightarrow> dedupe_go seen xs = xs"
  by (induction seen xs rule: dedupe_go.induct) (auto simp: List.member_iff)

lemma dedupeIDs_distinct: "distinct xs \<Longrightarrow> dedupeIDs xs = xs"
  by (simp add: dedupeIDs_def dedupe_go_distinct)

lemma dedupeIDs_hd: "xs \<noteq> [] \<Longrightarrow> dedupeIDs xs ! 0 = hd xs"
  by (cases xs) (auto simp: dedupeIDs_def List.member_iff)

lemma foldl_max_score:
  assumes "r = foldl (\<lambda>best m. if SM_Score m > SM_Score best then m else best) n ns"
  shows "r \<in> set (n # ns) \<and> (\<forall>m \<in> set (n # ns). SM_Score m \<le> SM_Score r)"
  using assms
proof (induction ns arbitrary: n)
  case Nil
  then show ?case by simp
next
  case (Cons a ns)
  let ?b = "if SM_Score a > SM_Score n then a else n"
  from Cons.prems have "r = foldl (\<lambda>best m. if SM_Score m > SM_Score best then m else best) ?b ns"
    by simp
  from Cons.IH [OF this] show ?case by (auto split: if_splits)
qed

lemma maxScore_SomeD:
  "maxScore ns = Some m \<Longrightarrow> m \<in> set ns \<and> (\<forall>n \<in> set ns. SM_Score n \<le> SM_Score m)"
  using foldl_max_score by (fastforce simp: maxScore_def split: list.splits)

lemma maxScore_None_iff [simp]: "maxScore ns = None \<longleftrightarrow> ns = []"
  by (simp add: maxScore_def split: list.splits)

lemma maxScore_Nil [simp]: "maxScore [] = None"
  by simp

lemma Resolve_valid_total: "Policy_Valid p \<Longrightarrow> \<exists>d. Resolve c inp p th = Inr d"
  by (auto simp: Resolve_def Let_def split: option.splits)

lemma dedupeIDs_two:
  assumes "xs \<noteq> []" and "length (dedupeIDs xs) \<noteq> 1"
  shows "2 \<le> length (dedupeIDs xs)"
  using assms by (cases "dedupeIDs xs" rule: remdups_adj.cases) auto

section \<open>Properties\<close>

text \<open>The candidate of the witnesses.\<close>

definition sample_cand :: entity where
  "sample_cand = \<lparr>E_ID = [], E_Type = ''Movie'', E_Props = RawEmpty, E_ExternalIDs = [],
     E_Provenance = \<lparr>Asserter = ''kate'', Method = Asserted, Source = [], Confidence = 1, AssertedAt = 0\<rparr>,
     E_Space = ''home'', E_Owner = ''kate'', E_Visibility = VisSpace, E_Embeddings = [],
     E_CreatedAt = 0, E_UpdatedAt = 0, E_Deleted = False\<rparr>"

text \<open>C25: Resolve never joins a candidate to an existing entity without evidence: an attach or a
  merge happens only outside \<open>force_new\<close>, and rests either on an external id hit (the target is
  the oldest hit) or, in \<open>auto\<close> mode without any hit, on the best vector neighbour scoring at
  least the auto-merge threshold.\<close>

theorem Resolve_joins_only_on_evidence:
  assumes "Resolve c inp p th = Inr d" and "Action d = ActionAttach \<or> Action d = ActionMerge"
  shows "p \<noteq> ResolveForceNew \<and>
    (if ExternalIDHits inp \<noteq> [] then MatchKind d = MatchExternal \<and> Target d = hd (ExternalIDHits inp)
     else p = ResolveAuto \<and> MatchKind d = MatchVector \<and> Action d = ActionAttach \<and>
       (\<exists>m \<in> set (VectorNeighbors inp). Target d = SM_ID m \<and> SM_Score m \<ge> AutoMerge th \<and>
          (\<forall>n \<in> set (VectorNeighbors inp). SM_Score n \<le> SM_Score m)))"
proof (cases "maxScore (VectorNeighbors inp)")
  case None
  with assms show ?thesis
    by (auto simp: Resolve_def Let_def decision0_def dedupeIDs_hd Policy_Valid_def
        split: if_splits resolve_policy.splits)
next
  case (Some m)
  note m = maxScore_SomeD [OF Some]
  show ?thesis
  proof (cases "ExternalIDHits inp = []")
    case True
    from assms Some True have "p = ResolveAuto \<and> MatchKind d = MatchVector \<and> Action d = ActionAttach \<and>
        Target d = SM_ID m \<and> SM_Score m \<ge> AutoMerge th"
      by (auto simp: Resolve_def decision0_def Policy_Valid_def split: if_splits resolve_policy.splits)
    with m True show ?thesis by auto
  next
    case False
    with assms Some show ?thesis
      by (auto simp: Resolve_def Let_def decision0_def dedupeIDs_hd split: if_splits)
  qed
qed

theorem Resolve_joins_only_on_evidence_witness:
  "SM_ID \<lparr>SM_ID = ''e2'', SM_Score = 0.95\<rparr> = ''e2'' \<and>
   (\<exists>d. Resolve sample_cand \<lparr>ExternalIDHits = [], VectorNeighbors = [\<lparr>SM_ID = ''e1'', SM_Score = 0.4\<rparr>, \<lparr>SM_ID = ''e2'', SM_Score = 0.95\<rparr>]\<rparr>
       ResolveAuto \<lparr>AutoMerge = 0.9, Review = 0.7\<rparr> = Inr d \<and> Action d = ActionAttach \<and> MatchKind d = MatchVector)"
proof -
  let ?inp = "\<lparr>ExternalIDHits = [], VectorNeighbors = [\<lparr>SM_ID = ''e1'', SM_Score = 0.4\<rparr>, \<lparr>SM_ID = ''e2'', SM_Score = 0.95\<rparr>]\<rparr>"
  let ?th = "\<lparr>AutoMerge = 0.9, Review = 0.7\<rparr>"
  obtain d where d: "Resolve sample_cand ?inp ResolveAuto ?th = Inr d" "Action d = ActionAttach"
    by (simp add: Resolve_def Policy_Valid_def maxScore_def decision0_def)
  from Resolve_joins_only_on_evidence [OF d(1)] d show ?thesis by auto
qed

text \<open>C6: External ids decide alone: with hits (and without \<open>force_new\<close>) one distinct hit is an
  attach and several are a merge that keeps the oldest and folds in every other hit once, in
  order; the vector neighbours are never looked at.\<close>

theorem Resolve_external_first:
  assumes "Policy_Valid p" and "p \<noteq> ResolveForceNew" and "ExternalIDHits inp \<noteq> []"
  shows "\<exists>d. Resolve c inp p th = Inr d \<and> MatchKind d = MatchExternal \<and>
    Target d = hd (ExternalIDHits inp) \<and>
    (if set (ExternalIDHits inp) = {Target d} then Action d = ActionAttach
     else Action d = ActionMerge \<and> set (MergeTargets d) = set (ExternalIDHits inp) \<and>
       distinct (MergeTargets d) \<and> MergeTargets d ! 0 = Target d \<and> 2 \<le> length (MergeTargets d))"
proof -
  let ?ds = "dedupeIDs (ExternalIDHits inp)"
  have hd: "?ds ! 0 = hd (ExternalIDHits inp)" by (rule dedupeIDs_hd [OF assms(3)])
  show ?thesis
  proof (cases "length ?ds = 1")
    case True
    then obtain x where "?ds = [x]" by (auto simp: length_Suc_conv)
    then have "set (ExternalIDHits inp) = {hd (ExternalIDHits inp)}"
      using set_dedupeIDs [of "ExternalIDHits inp"] hd by simp
    with True assms hd show ?thesis by (simp add: Resolve_def Let_def decision0_def)
  next
    case False
    from dedupeIDs_two [OF assms(3) False] have two: "2 \<le> length ?ds" .
    have "set (ExternalIDHits inp) \<noteq> {hd (ExternalIDHits inp)}"
    proof
      assume "set (ExternalIDHits inp) = {hd (ExternalIDHits inp)}"
      then have "card (set ?ds) = 1" by simp
      then show False using two distinct_card [OF distinct_dedupeIDs [of "ExternalIDHits inp"]] by simp
    qed
    with False two assms hd show ?thesis by (simp add: Resolve_def Let_def decision0_def)
  qed
qed

theorem Resolve_external_first_witness:
  "\<exists>d. Resolve sample_cand \<lparr>ExternalIDHits = [''b'', ''a'', ''b''], VectorNeighbors = []\<rparr> ResolveExternalOnly \<lparr>AutoMerge = 0.9, Review = 0.7\<rparr> = Inr d \<and>
     Action d = ActionMerge \<and> Target d = ''b'' \<and> MergeTargets d = [''b'', ''a'']"
proof -
  have "\<exists>d. Resolve sample_cand \<lparr>ExternalIDHits = [''b'', ''a'', ''b''], VectorNeighbors = []\<rparr> ResolveExternalOnly \<lparr>AutoMerge = 0.9, Review = 0.7\<rparr> = Inr d \<and>
      MatchKind d = MatchExternal"
    using Resolve_external_first [of ResolveExternalOnly "\<lparr>ExternalIDHits = [''b'', ''a'', ''b''], VectorNeighbors = []\<rparr>" sample_cand "\<lparr>AutoMerge = 0.9, Review = 0.7\<rparr>"]
    by (auto simp: Policy_Valid_def)
  then show ?thesis
    by (simp add: Resolve_def Policy_Valid_def Let_def dedupeIDs_def decision0_def)
qed

text \<open>C26: The review band is soft: an insert-flagged verdict names a neighbour scoring at least the
  review threshold while no neighbour reaches the auto-merge threshold; a plain insert in \<open>auto\<close>
  mode means every neighbour is below the review threshold.\<close>

theorem Resolve_review_band:
  assumes "Resolve c inp p th = Inr d" and "Review th \<le> AutoMerge th"
  shows "(Action d = ActionInsertFlagged \<longrightarrow> p = ResolveAuto \<and> ExternalIDHits inp = [] \<and>
      Review th \<le> FlagScore d \<and> FlagScore d < AutoMerge th \<and>
      (\<exists>m \<in> set (VectorNeighbors inp). SM_ID m = FlagTo d \<and> SM_Score m = FlagScore d) \<and>
      (\<forall>m \<in> set (VectorNeighbors inp). SM_Score m \<le> FlagScore d)) \<and>
    (Action d = ActionInsertNew \<and> p = ResolveAuto \<longrightarrow>
      (\<forall>m \<in> set (VectorNeighbors inp). SM_Score m < Review th))"
proof (cases "maxScore (VectorNeighbors inp)")
  case None
  with assms show ?thesis
    by (auto simp: Resolve_def Let_def decision0_def split: if_splits)
next
  case (Some m)
  note m = maxScore_SomeD [OF Some]
  show ?thesis
  proof (cases "p = ResolveAuto \<and> ExternalIDHits inp = []")
    case True
    with assms(1) Some have d: "d = (if SM_Score m \<ge> AutoMerge th then
          decision0\<lparr>Action := ActionAttach, MatchKind := MatchVector, Target := SM_ID m,
            Reason := ReasonVectorAttach (SM_Score m) (AutoMerge th)\<rparr>
        else if SM_Score m \<ge> Review th then
          decision0\<lparr>Action := ActionInsertFlagged, MatchKind := MatchNone, FlagTo := SM_ID m, FlagScore := SM_Score m,
            Reason := ReasonVectorReview (SM_Score m) (Review th) (AutoMerge th)\<rparr>
        else decision0\<lparr>Reason := ReasonNoMatch\<rparr>)"
      by (auto simp: Resolve_def Policy_Valid_def split: if_splits)
    consider "SM_Score m \<ge> AutoMerge th" | "SM_Score m < AutoMerge th" "SM_Score m \<ge> Review th"
      | "SM_Score m < Review th" by linarith
    then show ?thesis
    proof cases
      case 1
      with d show ?thesis by (simp add: decision0_def)
    next
      case 2
      with d m True show ?thesis by (auto simp: decision0_def)
    next
      case 3
      with d m assms(2) show ?thesis by (fastforce simp: decision0_def)
    qed
  next
    case False
    with assms(1) show ?thesis
      by (auto simp: Resolve_def Let_def decision0_def Policy_Valid_def
          split: if_splits option.splits resolve_policy.splits)
  qed
qed

theorem Resolve_review_band_witness:
  "\<exists>d. Resolve sample_cand \<lparr>ExternalIDHits = [], VectorNeighbors = [\<lparr>SM_ID = ''e1'', SM_Score = 0.8\<rparr>]\<rparr> ResolveAuto
      \<lparr>AutoMerge = 0.9, Review = 0.7\<rparr> = Inr d \<and> Action d = ActionInsertFlagged \<and> FlagTo d = ''e1'' \<and> FlagScore d < 0.9"
proof -
  let ?inp = "\<lparr>ExternalIDHits = [], VectorNeighbors = [\<lparr>SM_ID = ''e1'', SM_Score = 0.8\<rparr>]\<rparr>"
  obtain d where d: "Resolve sample_cand ?inp ResolveAuto \<lparr>AutoMerge = 0.9, Review = 0.7\<rparr> = Inr d"
      "Action d = ActionInsertFlagged" "FlagTo d = ''e1''"
    by (simp add: Resolve_def Policy_Valid_def maxScore_def decision0_def)
  from Resolve_review_band [OF d(1)] d show ?thesis by auto
qed

text \<open>Resolve errs exactly on an unknown policy, and thresholds pass validation exactly when
  0 < review < auto-merge <= 1.\<close>

theorem Resolve_errors:
  "(\<exists>d. Resolve c inp p th = Inr d) = Policy_Valid p \<and>
   (\<not> Policy_Valid p \<longrightarrow> Resolve c inp p th = Inl ErrInvalidPolicy) \<and>
   (Thresholds_Validate th = None) = (0 < Review th \<and> Review th < AutoMerge th \<and> AutoMerge th \<le> 1)"
proof -
  have "(\<exists>d. Resolve c inp p th = Inr d) = Policy_Valid p"
    using Resolve_valid_total by (auto simp: Resolve_def)
  moreover have "\<not> Policy_Valid p \<longrightarrow> Resolve c inp p th = Inl ErrInvalidPolicy"
    by (simp add: Resolve_def)
  ultimately show ?thesis by (auto simp: Thresholds_Validate_def)
qed

theorem Resolve_errors_witness:
  "Resolve sample_cand \<lparr>ExternalIDHits = [], VectorNeighbors = []\<rparr> (PolicyOther ''maybe'') \<lparr>AutoMerge = 0.9, Review = 0.7\<rparr> = Inl ErrInvalidPolicy"
  using Resolve_errors [of sample_cand "\<lparr>ExternalIDHits = [], VectorNeighbors = []\<rparr>" "PolicyOther ''maybe''" "\<lparr>AutoMerge = 0.9, Review = 0.7\<rparr>"] by (simp add: Policy_Valid_def)

end
