(* ===== verification/Jdx_Db.thy ===== *)
theory Jdx_Db
  imports Jdx_Codec Jdx_Access Jdx_Resolve
begin

text \<open>
  The SQLite schema of \<open>internal/store/sqlite/migrations\<close> (after 0004) and the SQL statements the
  adapter issues on it. A table is the list of its rows in insertion order. A statement that a
  PRIMARY KEY, UNIQUE, CHECK or FOREIGN KEY constraint rejects is \<open>Inl ErrSQL\<close>; DELETE on
  \<open>entities\<close> cascades to the child tables. The invariant \<open>wf_db\<close> states every constraint of the
  schema together with what the adapter itself keeps: the key column, the vector lengths, the
  full-text rows, the numbering of the log.
\<close>

section \<open>Rows\<close>

record prov_cols =
  pv_asserter :: string
  pv_method :: assert_method
  pv_source :: string
  pv_confidence :: real
  pv_asserted_at :: tstext

record entity_row =
  er_id :: entity_id
  er_type :: etype
  er_props :: json
  er_space :: space_id
  er_owner :: principal_id
  er_vis :: visibility
  er_prov :: prov_cols
  er_created_at :: tstext
  er_updated_at :: tstext

record ext_row =
  xr_entity :: entity_id
  xr_scheme :: string
  xr_value :: string
  xr_key :: string
  xr_space :: space_id

record emb_row =
  mr_entity :: entity_id
  mr_model :: string
  mr_field :: string
  mr_dim :: nat
  mr_vector :: "byte list"

record edge_row =
  dr_id :: edge_id
  dr_predicate :: predicate
  dr_from :: entity_id
  dr_to :: entity_id
  dr_props :: "json option"
  dr_space :: space_id
  dr_owner :: principal_id
  dr_vis :: visibility
  dr_prov :: prov_cols
  dr_created_at :: tstext

record fact_row =
  f_seq :: nat
  f_id :: string
  f_kind :: fact_kind
  f_subject :: string
  f_writer :: writer_id
  f_dedupe :: string
  f_payload :: payload
  f_actor :: principal_id
  f_created_at :: tstext

text \<open>
  \<open>store.AppendEntityInput\<close> and \<open>store.AppendEdgeInput\<close>; a proposal's payload is the JSON of
  one of them, a text that is JSON but does not decode into the expected one, or not JSON.
\<close>

record append_entity_input =
  AE_Candidate :: entity
  AE_Writer :: writer_id
  AE_DedupeKey :: string
  AE_Actor :: principal_id
  AE_Policy :: resolve_policy

record append_edge_input =
  AD_Edge :: edge
  AD_Writer :: writer_id
  AD_DedupeKey :: string
  AD_Actor :: principal_id

datatype proposal_payload = PPEntity append_entity_input | PPEdge append_edge_input
  | PPOtherJson | PPInvalid

datatype proposal_status = StPending | StPromoted | StDiscarded

record proposal_row =
  pr_id :: string
  pr_kind :: fact_kind
  pr_proposer :: principal_id
  pr_space :: space_id
  pr_payload :: proposal_payload
  pr_status :: proposal_status
  pr_created_at :: tstext
  pr_decided_at :: "tstext option"
  pr_decided_by :: "principal_id option"
  pr_result_subject :: "string option"

record db =
  facts :: "fact_row list"
  entities :: "entity_row list"
  entity_external_ids :: "ext_row list"
  entity_labels :: "(entity_id \<times> string) list"
  embeddings :: "emb_row list"
  edges :: "edge_row list"
  entities_fts :: "(entity_id \<times> string) list"
  proposals :: "proposal_row list"

definition empty_db :: db where
  "empty_db = \<lparr>facts = [], entities = [], entity_external_ids = [], entity_labels = [],
     embeddings = [], edges = [], entities_fts = [], proposals = []\<rparr>"

text \<open>
  What one operation draws from its surroundings: the successive values of \<open>s.now()\<close> and
  \<open>s.newID()\<close>, the thresholds, and \<open>hex(sha256(_))\<close>.
\<close>

record env =
  env_now :: "nat \<Rightarrow> time"
  env_newID :: "nat \<Rightarrow> string"
  env_th :: thresholds
  env_sha :: "string \<Rightarrow> string"

section \<open>Child tables: rows that belong to an entity\<close>

definition del_dups ::
    "('r \<Rightarrow> entity_id) \<Rightarrow> ('r \<Rightarrow> 'k) \<Rightarrow> entity_id \<Rightarrow> entity_id \<Rightarrow> 'r list \<Rightarrow> 'r list" where
  "del_dups ent ckey keep gone rows =
     filter (\<lambda>r. \<not> (ent r = gone \<and> ckey r \<in> ckey ` set (filter (\<lambda>s. ent s = keep) rows))) rows"

definition move_rows ::
    "('r \<Rightarrow> entity_id) \<Rightarrow> (entity_id \<Rightarrow> 'r \<Rightarrow> 'r) \<Rightarrow> entity_id \<Rightarrow> entity_id \<Rightarrow> 'r list \<Rightarrow> 'r list" where
  "move_rows ent set_ent keep gone rows = map (\<lambda>r. if ent r = gone then set_ent keep r else r) rows"

locale child_table =
  fixes ent :: "'r \<Rightarrow> entity_id" and set_ent :: "entity_id \<Rightarrow> 'r \<Rightarrow> 'r" and ckey :: "'r \<Rightarrow> 'k"
  assumes ent_set [simp]: "ent (set_ent e r) = e"
    and ckey_set [simp]: "ckey (set_ent e r) = ckey r"
begin

lemma moved_pk:
  assumes pk: "distinct (map (\<lambda>r. (ent r, ckey r)) rows)" and ne: "keep \<noteq> gone"
  shows "distinct (map (\<lambda>r. (ent r, ckey r))
           (move_rows ent set_ent keep gone (del_dups ent ckey keep gone rows)))"
proof -
  let ?f = "\<lambda>r. (if ent r = gone then keep else ent r, ckey r)"
  let ?rows = "del_dups ent ckey keep gone rows"
  have "map (\<lambda>r. (ent r, ckey r)) (move_rows ent set_ent keep gone ?rows) = map ?f ?rows"
    by (auto simp: move_rows_def)
  moreover have "inj_on ?f (set ?rows)"
  proof (rule inj_onI)
    fix r s assume rs: "r \<in> set ?rows" "s \<in> set ?rows" and eq: "?f r = ?f s"
    from rs have in_rows: "r \<in> set rows" "s \<in> set rows" by (auto simp: del_dups_def)
    have "ent r = ent s"
      using rs eq ne by (auto simp: del_dups_def image_iff split: if_splits)
    with eq have "(ent r, ckey r) = (ent s, ckey s)" by simp
    with pk in_rows show "r = s"
      using distinct_map_inj_on [of "\<lambda>r. (ent r, ckey r)" rows r s] by simp
  qed
  moreover have "distinct ?rows"
    using pk by (simp add: del_dups_def distinct_map)
  ultimately show ?thesis by (simp add: distinct_map)
qed

lemma moved_ents:
  "keep \<noteq> gone \<Longrightarrow> r \<in> set (move_rows ent set_ent keep gone rows) \<Longrightarrow> ent r \<noteq> gone"
  by (auto simp: move_rows_def split: if_splits)

lemma moved_refs:
  assumes "\<forall>r \<in> set rows. ent r \<in> I" and "list_ex (\<lambda>r. ent r = gone) rows \<longrightarrow> keep \<in> I"
  shows "\<forall>r \<in> set (move_rows ent set_ent keep gone rows). ent r \<in> I"
  using assms by (auto simp: move_rows_def list_ex_iff)

lemma moved_map:
  "(\<And>e r. h (set_ent e r) = h r) \<Longrightarrow> map h (move_rows ent set_ent keep gone rows) = map h rows"
  by (simp add: move_rows_def)

lemma moved_all:
  "(\<And>e r. P (set_ent e r) = P r) \<Longrightarrow> \<forall>r \<in> set rows. P r \<Longrightarrow>
     \<forall>r \<in> set (move_rows ent set_ent keep gone rows). P r"
  by (auto simp: move_rows_def)

text \<open>No key is lost: what either entity had, the survivor has afterwards.\<close>

lemma moved_keys:
  assumes "keep \<noteq> gone"
  shows "ckey ` set (filter (\<lambda>r. ent r = keep)
           (move_rows ent set_ent keep gone (del_dups ent ckey keep gone rows))) =
         ckey ` set (filter (\<lambda>r. ent r = keep \<or> ent r = gone) rows)"
proof
  show "ckey ` set (filter (\<lambda>r. ent r = keep)
           (move_rows ent set_ent keep gone (del_dups ent ckey keep gone rows)))
      \<subseteq> ckey ` set (filter (\<lambda>r. ent r = keep \<or> ent r = gone) rows)"
  proof
    fix k assume "k \<in> ckey ` set (filter (\<lambda>r. ent r = keep)
           (move_rows ent set_ent keep gone (del_dups ent ckey keep gone rows)))"
    then obtain s where s: "s \<in> set rows" "k = ckey (if ent s = gone then set_ent keep s else s)"
        "ent (if ent s = gone then set_ent keep s else s) = keep"
      by (auto simp: move_rows_def del_dups_def)
    then have "k = ckey s" "ent s = keep \<or> ent s = gone" by (auto split: if_splits)
    with s(1) show "k \<in> ckey ` set (filter (\<lambda>r. ent r = keep \<or> ent r = gone) rows)" by auto
  qed
next
  show "ckey ` set (filter (\<lambda>r. ent r = keep \<or> ent r = gone) rows)
      \<subseteq> ckey ` set (filter (\<lambda>r. ent r = keep)
           (move_rows ent set_ent keep gone (del_dups ent ckey keep gone rows)))"
  proof
    fix k assume "k \<in> ckey ` set (filter (\<lambda>r. ent r = keep \<or> ent r = gone) rows)"
    then obtain r where r: "r \<in> set rows" "ent r = keep \<or> ent r = gone" "k = ckey r" by auto
    let ?moved = "\<lambda>r. if ent r = gone then set_ent keep r else r"
    obtain s where s: "s \<in> set (del_dups ent ckey keep gone rows)" "k = ckey s"
        "ent s = keep \<or> ent s = gone"
      using r assms by (cases "ent r = keep") (auto simp: del_dups_def)
    then have "?moved s \<in> set (move_rows ent set_ent keep gone (del_dups ent ckey keep gone rows))"
      by (simp add: move_rows_def)
    moreover have "ent (?moved s) = keep" "ckey (?moved s) = k" using s by auto
    ultimately show "k \<in> ckey ` set (filter (\<lambda>r. ent r = keep)
           (move_rows ent set_ent keep gone (del_dups ent ckey keep gone rows)))"
      by force
  qed
qed

lemma moved_others:
  assumes "e \<noteq> keep" and "e \<noteq> gone"
  shows "filter (\<lambda>r. ent r = e) (move_rows ent set_ent keep gone (del_dups ent ckey keep gone rows))
       = filter (\<lambda>r. ent r = e) rows"
proof -
  have "filter (\<lambda>r. ent r = e) (map (\<lambda>r. if ent r = gone then set_ent keep r else r) zs)
      = filter (\<lambda>r. ent r = e) zs" for zs
    using assms by (induction zs) auto
  moreover have "filter (\<lambda>r. ent r = e) (filter (\<lambda>r. \<not> (ent r = gone \<and> Q r)) zs)
      = filter (\<lambda>r. ent r = e) zs" for Q zs
    using assms by (induction zs) auto
  ultimately show ?thesis by (simp add: move_rows_def del_dups_def)
qed

end

definition xr_set :: "entity_id \<Rightarrow> ext_row \<Rightarrow> ext_row" where
  "xr_set e x = x\<lparr>xr_entity := e\<rparr>"

definition lb_set :: "entity_id \<Rightarrow> entity_id \<times> string \<Rightarrow> entity_id \<times> string" where
  "lb_set e r = (e, snd r)"

definition mr_set :: "entity_id \<Rightarrow> emb_row \<Rightarrow> emb_row" where
  "mr_set e m = m\<lparr>mr_entity := e\<rparr>"

definition mr_key :: "emb_row \<Rightarrow> string \<times> string" where
  "mr_key m = (mr_model m, mr_field m)"

interpretation xt: child_table xr_entity xr_set xr_key
  by unfold_locales (simp_all add: xr_set_def)

interpretation lt: child_table fst lb_set snd
  by unfold_locales (simp_all add: lb_set_def)

interpretation mt: child_table mr_entity mr_set mr_key
  by unfold_locales (simp_all add: mr_set_def mr_key_def)

section \<open>Statements on entities and their full-text rows\<close>

definition has_entity :: "db \<Rightarrow> entity_id \<Rightarrow> bool" where
  "has_entity db e = (e \<in> er_id ` set (entities db))"

definition get_entity_row :: "db \<Rightarrow> entity_id \<Rightarrow> entity_row option" where
  "get_entity_row db e = lookup_row er_id e (entities db)"

definition props_col :: "rawmsg \<Rightarrow> json res" where
  "props_col p = (case p of RawDoc j \<Rightarrow> Inr j | _ \<Rightarrow> Inl ErrSQL)"

definition insert_entity :: "entity_row \<Rightarrow> db \<Rightarrow> db res" where
  "insert_entity r db =
     (if has_entity db (er_id r) then Inl ErrSQL
      else if \<not> Visibility_Valid (er_vis r) \<or> \<not> AssertMethod_Valid (pv_method (er_prov r)) then Inl ErrSQL
      else Inr (db\<lparr>entities := entities db @ [r]\<rparr>))"

definition update_entity :: "entity_id \<Rightarrow> (entity_row \<Rightarrow> entity_row) \<Rightarrow> db \<Rightarrow> db" where
  "update_entity e f db =
     db\<lparr>entities := map (\<lambda>r. if er_id r = e then f r else r) (entities db)\<rparr>"

definition delete_entity :: "entity_id \<Rightarrow> db \<Rightarrow> db" where
  "delete_entity e db =
     db\<lparr>entities := filter (\<lambda>r. er_id r \<noteq> e) (entities db),
        entity_external_ids := filter (\<lambda>x. xr_entity x \<noteq> e) (entity_external_ids db),
        entity_labels := filter (\<lambda>l. fst l \<noteq> e) (entity_labels db),
        embeddings := filter (\<lambda>m. mr_entity m \<noteq> e) (embeddings db),
        edges := filter (\<lambda>d. dr_from d \<noteq> e \<and> dr_to d \<noteq> e) (edges db)\<rparr>"

definition delete_fts :: "entity_id \<Rightarrow> db \<Rightarrow> db" where
  "delete_fts e db = db\<lparr>entities_fts := filter (\<lambda>t. fst t \<noteq> e) (entities_fts db)\<rparr>"

definition insert_fts :: "entity_id \<Rightarrow> string \<Rightarrow> db \<Rightarrow> db" where
  "insert_fts e txt db = db\<lparr>entities_fts := entities_fts db @ [(e, txt)]\<rparr>"

section \<open>Statements on the child tables\<close>

text \<open>OR IGNORE skips a row that a PRIMARY KEY or UNIQUE index rejects, not a FOREIGN KEY one.\<close>

definition insert_ext_or_ignore :: "ext_row \<Rightarrow> db \<Rightarrow> db res" where
  "insert_ext_or_ignore x db =
     (if list_ex (\<lambda>y. xr_entity y = xr_entity x \<and> xr_key y = xr_key x \<or>
            xr_space y = xr_space x \<and> xr_key y = xr_key x) (entity_external_ids db) then Inr db
      else if \<not> has_entity db (xr_entity x) then Inl ErrSQL
      else Inr (db\<lparr>entity_external_ids := entity_external_ids db @ [x]\<rparr>))"

definition insert_emb_or_replace :: "emb_row \<Rightarrow> db \<Rightarrow> db res" where
  "insert_emb_or_replace m db =
     (if \<not> has_entity db (mr_entity m) then Inl ErrSQL
      else Inr (db\<lparr>embeddings :=
        filter (\<lambda>n. \<not> (mr_entity n = mr_entity m \<and> mr_key n = mr_key m)) (embeddings db) @ [m]\<rparr>))"

text \<open>UPDATE ... SET entity_id: the new rows must satisfy the key and the reference.\<close>

definition move_ext :: "entity_id \<Rightarrow> entity_id \<Rightarrow> db \<Rightarrow> db res" where
  "move_ext keep gone db =
     (let rows = move_rows xr_entity xr_set keep gone (entity_external_ids db) in
      if \<not> distinct (map (\<lambda>x. (xr_entity x, xr_key x)) rows) then Inl ErrSQL
      else if list_ex (\<lambda>x. xr_entity x = gone) (entity_external_ids db) \<and> \<not> has_entity db keep
      then Inl ErrSQL
      else Inr (db\<lparr>entity_external_ids := rows\<rparr>))"

definition move_labels :: "entity_id \<Rightarrow> entity_id \<Rightarrow> db \<Rightarrow> db res" where
  "move_labels keep gone db =
     (let rows = move_rows fst lb_set keep gone (entity_labels db) in
      if \<not> distinct (map (\<lambda>x. (fst x, snd x)) rows) then Inl ErrSQL
      else if list_ex (\<lambda>x. fst x = gone) (entity_labels db) \<and> \<not> has_entity db keep
      then Inl ErrSQL
      else Inr (db\<lparr>entity_labels := rows\<rparr>))"

definition move_emb :: "entity_id \<Rightarrow> entity_id \<Rightarrow> db \<Rightarrow> db res" where
  "move_emb keep gone db =
     (let rows = move_rows mr_entity mr_set keep gone (embeddings db) in
      if \<not> distinct (map (\<lambda>m. (mr_entity m, mr_key m)) rows) then Inl ErrSQL
      else if list_ex (\<lambda>m. mr_entity m = gone) (embeddings db) \<and> \<not> has_entity db keep
      then Inl ErrSQL
      else Inr (db\<lparr>embeddings := rows\<rparr>))"

section \<open>Statements on edges\<close>

definition insert_edge_or_replace :: "edge_row \<Rightarrow> db \<Rightarrow> db res" where
  "insert_edge_or_replace d db =
     (if \<not> Visibility_Valid (dr_vis d) \<or> \<not> AssertMethod_Valid (pv_method (dr_prov d)) then Inl ErrSQL
      else if \<not> has_entity db (dr_from d) \<or> \<not> has_entity db (dr_to d) then Inl ErrSQL
      else Inr (db\<lparr>edges := filter (\<lambda>r. dr_id r \<noteq> dr_id d) (edges db) @ [d]\<rparr>))"

definition repoint_from :: "entity_id \<Rightarrow> entity_id \<Rightarrow> db \<Rightarrow> db res" where
  "repoint_from keep gone db =
     (if list_ex (\<lambda>d. dr_from d = gone) (edges db) \<and> \<not> has_entity db keep then Inl ErrSQL
      else Inr (db\<lparr>edges := map (\<lambda>d. if dr_from d = gone then d\<lparr>dr_from := keep\<rparr> else d) (edges db)\<rparr>))"

definition repoint_to :: "entity_id \<Rightarrow> entity_id \<Rightarrow> db \<Rightarrow> db res" where
  "repoint_to keep gone db =
     (if list_ex (\<lambda>d. dr_to d = gone) (edges db) \<and> \<not> has_entity db keep then Inl ErrSQL
      else Inr (db\<lparr>edges := map (\<lambda>d. if dr_to d = gone then d\<lparr>dr_to := keep\<rparr> else d) (edges db)\<rparr>))"

definition delete_edge :: "edge_id \<Rightarrow> db \<Rightarrow> db" where
  "delete_edge e db = db\<lparr>edges := filter (\<lambda>d. dr_id d \<noteq> e) (edges db)\<rparr>"

section \<open>The fact log\<close>

text \<open>
  \<open>insertFact\<close>: the next AUTOINCREMENT number; a UNIQUE violation on (writer, dedupe_key) is
  translated to \<open>ErrDuplicateFact\<close>, and the kind's CHECK rejects an unknown kind.
\<close>

definition next_seq :: "fact_row list \<Rightarrow> nat" where
  "next_seq fs = Suc (foldl max 0 (map f_seq fs))"

definition insertFact ::
    "string \<Rightarrow> fact_kind \<Rightarrow> string \<Rightarrow> writer_id \<Rightarrow> string \<Rightarrow> payload \<Rightarrow> principal_id \<Rightarrow> time \<Rightarrow> db \<Rightarrow> db res" where
  "insertFact nid kind subject writer dedupeKey payload actor ts db =
     (if \<not> FactKind_Valid kind then Inl ErrSQL
      else if list_ex (\<lambda>f. f_writer f = writer \<and> f_dedupe f = dedupeKey) (facts db)
      then Inl ErrDuplicateFact
      else Inr (db\<lparr>facts := facts db @ [\<lparr>f_seq = next_seq (facts db), f_id = nid, f_kind = kind,
        f_subject = subject, f_writer = writer, f_dedupe = dedupeKey, f_payload = payload,
        f_actor = actor, f_created_at = fmtTS ts\<rparr>]\<rparr>))"

text \<open>\<open>SELECT subject FROM facts WHERE writer=? AND dedupe_key=? AND kind=? ORDER BY seq LIMIT 1\<close>\<close>

definition prior_subject :: "fact_kind \<Rightarrow> writer_id \<Rightarrow> string \<Rightarrow> db \<Rightarrow> string option" where
  "prior_subject kind writer dedupeKey db =
     map_option f_subject
       (find (\<lambda>f. f_writer f = writer \<and> f_dedupe f = dedupeKey \<and> f_kind f = kind) (facts db))"

section \<open>The invariant\<close>

text \<open>One predicate per table, over its rows and the set of entity ids they may refer to.\<close>

definition entities_ok :: "entity_row list \<Rightarrow> bool" where
  "entities_ok rows \<longleftrightarrow> distinct (map er_id rows) \<and>
     (\<forall>r \<in> set rows. Visibility_Valid (er_vis r) \<and> AssertMethod_Valid (pv_method (er_prov r)))"

definition ext_ok :: "entity_id set \<Rightarrow> ext_row list \<Rightarrow> bool" where
  "ext_ok I rows \<longleftrightarrow> distinct (map (\<lambda>x. (xr_entity x, xr_key x)) rows) \<and>
     distinct (map (\<lambda>x. (xr_space x, xr_key x)) rows) \<and>
     (\<forall>x \<in> set rows. xr_entity x \<in> I \<and> xr_key x = Key \<lparr>Scheme = xr_scheme x, Value = xr_value x\<rparr>)"

definition labels_ok :: "entity_id set \<Rightarrow> (entity_id \<times> string) list \<Rightarrow> bool" where
  "labels_ok I rows \<longleftrightarrow> distinct (map (\<lambda>x. (fst x, snd x)) rows) \<and> (\<forall>l \<in> set rows. fst l \<in> I)"

definition emb_ok :: "entity_id set \<Rightarrow> emb_row list \<Rightarrow> bool" where
  "emb_ok I rows \<longleftrightarrow> distinct (map (\<lambda>m. (mr_entity m, mr_key m)) rows) \<and>
     (\<forall>m \<in> set rows. mr_entity m \<in> I \<and> length (mr_vector m) = 4 * mr_dim m)"

definition edges_ok :: "entity_id set \<Rightarrow> edge_row list \<Rightarrow> bool" where
  "edges_ok I rows \<longleftrightarrow> distinct (map dr_id rows) \<and>
     (\<forall>d \<in> set rows. dr_from d \<in> I \<and> dr_to d \<in> I \<and>
        Visibility_Valid (dr_vis d) \<and> AssertMethod_Valid (pv_method (dr_prov d)))"

definition log_ok :: "fact_row list \<Rightarrow> bool" where
  "log_ok fs \<longleftrightarrow> map f_seq fs = [1..<Suc (length fs)] \<and>
     distinct (map (\<lambda>f. (f_writer f, f_dedupe f)) fs) \<and> (\<forall>f \<in> set fs. FactKind_Valid (f_kind f))"

definition proposal_ok :: "proposal_row \<Rightarrow> bool" where
  "proposal_ok p \<longleftrightarrow> pr_kind p \<in> {FactEntityAsserted, FactEdgeAsserted} \<and> pr_payload p \<noteq> PPInvalid \<and>
     (if pr_status p = StPending then pr_decided_at p = None \<and> pr_decided_by p = None
      else pr_decided_at p \<noteq> None \<and> pr_decided_by p \<noteq> None) \<and>
     (pr_result_subject p \<noteq> None \<longrightarrow> pr_status p = StPromoted)"

definition proposals_ok :: "proposal_row list \<Rightarrow> bool" where
  "proposals_ok ps \<longleftrightarrow> distinct (map pr_id ps) \<and> (\<forall>p \<in> set ps. proposal_ok p)"

definition ids :: "db \<Rightarrow> entity_id set" where
  "ids db = er_id ` set (entities db)"

definition wf_tables :: "db \<Rightarrow> bool" where
  "wf_tables db \<longleftrightarrow> entities_ok (entities db) \<and> ext_ok (ids db) (entity_external_ids db) \<and>
     labels_ok (ids db) (entity_labels db) \<and> emb_ok (ids db) (embeddings db) \<and>
     edges_ok (ids db) (edges db) \<and> log_ok (facts db) \<and> proposals_ok (proposals db)"

text \<open>\<open>fts_ok\<close> is what \<open>syncEntityFTS\<close> re-establishes: one row per entity, with its current text.\<close>

definition fts_row :: "entity_row \<Rightarrow> entity_id \<times> string" where
  "fts_row r = (er_id r, extractSearchText (er_props r) (er_type r))"

definition fts_ok :: "entity_row list \<Rightarrow> (entity_id \<times> string) list \<Rightarrow> bool" where
  "fts_ok rows fts \<longleftrightarrow> distinct (map fst fts) \<and> fts_row ` set rows \<subseteq> set fts"

definition wf_db :: "db \<Rightarrow> bool" where
  "wf_db db \<longleftrightarrow> wf_tables db \<and> fts_ok (entities db) (entities_fts db)"

lemma wf_empty_db: "wf_db empty_db"
  by (simp add: wf_db_def wf_tables_def entities_ok_def ext_ok_def labels_ok_def emb_ok_def
      edges_ok_def log_ok_def proposals_ok_def fts_ok_def empty_db_def)

lemma has_entity_ids: "has_entity db e \<longleftrightarrow> e \<in> ids db"
  by (simp add: has_entity_def ids_def)

text \<open>The ids after each statement.\<close>

lemma ids_frame [simp]:
  "ids (db\<lparr>facts := a\<rparr>) = ids db" "ids (db\<lparr>entity_external_ids := b\<rparr>) = ids db"
  "ids (db\<lparr>entity_labels := c\<rparr>) = ids db" "ids (db\<lparr>embeddings := d\<rparr>) = ids db"
  "ids (db\<lparr>edges := e\<rparr>) = ids db" "ids (db\<lparr>entities_fts := f\<rparr>) = ids db"
  "ids (db\<lparr>proposals := g\<rparr>) = ids db"
  by (simp_all add: ids_def)

lemma ids_insert: "insert_entity r db = Inr db' \<Longrightarrow> ids db' = insert (er_id r) (ids db)"
  by (auto simp: insert_entity_def ids_def split: if_splits)

lemma ids_update:
  assumes "\<And>r. er_id (f r) = er_id r"
  shows "ids (update_entity e f db) = ids db"
proof -
  have "er_id ` set (map (\<lambda>r. if er_id r = e then f r else r) rows) = er_id ` set rows" for rows
    using assms by (induction rows) simp_all
  then show ?thesis by (simp add: ids_def update_entity_def)
qed

lemma ids_delete: "ids (delete_entity e db) = ids db - {e}"
  by (auto simp: ids_def delete_entity_def)

text \<open>Tables under a larger set of ids, and after a DELETE.\<close>

lemma ok_mono:
  "I \<subseteq> J \<Longrightarrow> ext_ok I xs \<Longrightarrow> ext_ok J xs"
  "I \<subseteq> J \<Longrightarrow> labels_ok I ls \<Longrightarrow> labels_ok J ls"
  "I \<subseteq> J \<Longrightarrow> emb_ok I ms \<Longrightarrow> emb_ok J ms"
  "I \<subseteq> J \<Longrightarrow> edges_ok I ds \<Longrightarrow> edges_ok J ds"
  by (auto simp: ext_ok_def labels_ok_def emb_ok_def edges_ok_def)

lemma ok_filter:
  "entities_ok rows \<Longrightarrow> entities_ok (filter P rows)"
  "ext_ok I xs \<Longrightarrow> ext_ok I (filter Q xs)"
  "labels_ok I ls \<Longrightarrow> labels_ok I (filter R ls)"
  "emb_ok I ms \<Longrightarrow> emb_ok I (filter S ms)"
  "edges_ok I ds \<Longrightarrow> edges_ok I (filter T ds)"
  by (auto simp: entities_ok_def ext_ok_def labels_ok_def emb_ok_def edges_ok_def distinct_map_filter)

lemma ok_delete:
  "ext_ok I xs \<Longrightarrow> ext_ok (I - {e}) (filter (\<lambda>x. xr_entity x \<noteq> e) xs)"
  "labels_ok I ls \<Longrightarrow> labels_ok (I - {e}) (filter (\<lambda>l. fst l \<noteq> e) ls)"
  "emb_ok I ms \<Longrightarrow> emb_ok (I - {e}) (filter (\<lambda>m. mr_entity m \<noteq> e) ms)"
  "edges_ok I ds \<Longrightarrow> edges_ok (I - {e}) (filter (\<lambda>d. dr_from d \<noteq> e \<and> dr_to d \<noteq> e) ds)"
  by (auto simp: ext_ok_def labels_ok_def emb_ok_def edges_ok_def distinct_map_filter)

section \<open>Every statement keeps the schema's constraints\<close>

lemma wf_insert_entity [wf_intros]:
  assumes "wf_tables db" and "insert_entity r db = Inr db'"
  shows "wf_tables db'"
proof -
  have "entities_ok (entities db')"
    using assms by (auto simp: insert_entity_def entities_ok_def wf_tables_def has_entity_def split: if_splits)
  then show ?thesis
    using assms ids_insert [OF assms(2)]
    by (auto simp: insert_entity_def wf_tables_def split: if_splits
        intro: ok_mono [OF subset_insertI])
qed

lemma entities_ok_map:
  assumes "entities_ok rows"
    and "\<And>r. er_id (f r) = er_id r" "\<And>r. er_vis (f r) = er_vis r" "\<And>r. er_prov (f r) = er_prov r"
  shows "entities_ok (map f rows)"
  using assms by (simp add: entities_ok_def comp_def)

lemma wf_update_entity [wf_intros]:
  assumes "wf_tables db"
    and "\<And>r. er_id (f r) = er_id r" "\<And>r. er_vis (f r) = er_vis r" "\<And>r. er_prov (f r) = er_prov r"
  shows "wf_tables (update_entity e f db)"
proof -
  have "entities_ok (entities (update_entity e f db))"
    unfolding update_entity_def using assms by (auto simp: wf_tables_def intro: entities_ok_map)
  then show ?thesis
    using assms(1) ids_update [of f e db, OF assms(2)]
    by (simp add: wf_tables_def) (simp add: update_entity_def)
qed

lemma wf_delete_entity [wf_intros]: "wf_tables db \<Longrightarrow> wf_tables (delete_entity e db)"
  by (simp add: wf_tables_def ids_delete) (simp add: delete_entity_def ok_filter ok_delete)

lemma wf_delete_fts [wf_intros]: "wf_tables db \<Longrightarrow> wf_tables (delete_fts e db)"
  by (simp add: delete_fts_def wf_tables_def)

lemma wf_insert_fts [wf_intros]: "wf_tables db \<Longrightarrow> wf_tables (insert_fts e t db)"
  by (simp add: insert_fts_def wf_tables_def)

lemma ext_ok_snoc:
  assumes "ext_ok I xs" and "xr_entity x \<in> I"
    and k: "xr_key x = Key \<lparr>Scheme = xr_scheme x, Value = xr_value x\<rparr>"
    and fresh: "\<not> list_ex (\<lambda>y. xr_entity y = xr_entity x \<and> xr_key y = xr_key x \<or>
            xr_space y = xr_space x \<and> xr_key y = xr_key x) xs"
  shows "ext_ok I (xs @ [x])"
proof -
  from fresh have "(xr_entity x, xr_key x) \<notin> (\<lambda>y. (xr_entity y, xr_key y)) ` set xs"
    "(xr_space x, xr_key x) \<notin> (\<lambda>y. (xr_space y, xr_key y)) ` set xs"
    unfolding list_ex_iff by (metis (mono_tags, lifting) imageE prod.inject)+
  with assms(1,2) k show ?thesis by (simp add: ext_ok_def)
qed

lemma wf_insert_ext [wf_intros]:
  assumes "wf_tables db" and "insert_ext_or_ignore x db = Inr db'"
    and "xr_key x = Key \<lparr>Scheme = xr_scheme x, Value = xr_value x\<rparr>"
  shows "wf_tables db'"
  using assms ext_ok_snoc [of "ids db" "entity_external_ids db" x]
  by (simp add: insert_ext_or_ignore_def wf_tables_def has_entity_ids split: if_splits) auto

lemma wf_insert_emb [wf_intros]:
  assumes "wf_tables db" and "insert_emb_or_replace m db = Inr db'"
    and "length (mr_vector m) = 4 * mr_dim m"
  shows "wf_tables db'"
  using assms
  by (auto simp: insert_emb_or_replace_def wf_tables_def emb_ok_def has_entity_ids
      distinct_map_filter split: if_splits)

lemma wf_insert_edge [wf_intros]:
  "wf_tables db \<Longrightarrow> insert_edge_or_replace d db = Inr db' \<Longrightarrow> wf_tables db'"
  by (auto simp: insert_edge_or_replace_def wf_tables_def edges_ok_def has_entity_ids
      distinct_map_filter split: if_splits)

lemma wf_delete_edge [wf_intros]: "wf_tables db \<Longrightarrow> wf_tables (delete_edge e db)"
  by (simp add: delete_edge_def wf_tables_def ok_filter)

lemma edges_ok_map:
  assumes "edges_ok I ds" and "\<And>d. d \<in> set ds \<Longrightarrow> dr_from (f d) \<in> I \<and> dr_to (f d) \<in> I"
    and "\<And>d. dr_id (f d) = dr_id d" "\<And>d. dr_vis (f d) = dr_vis d" "\<And>d. dr_prov (f d) = dr_prov d"
  shows "edges_ok I (map f ds)"
  using assms by (simp add: edges_ok_def comp_def)

lemma edges_ok_ends:
  "edges_ok I ds \<Longrightarrow> d \<in> set ds \<Longrightarrow> dr_from d \<in> I"
  "edges_ok I ds \<Longrightarrow> d \<in> set ds \<Longrightarrow> dr_to d \<in> I"
  by (simp_all add: edges_ok_def)

lemma wf_repoint_from [wf_intros]:
  assumes "wf_tables db" and "repoint_from k g db = Inr db'"
  shows "wf_tables db'"
proof -
  from assms(1) have e: "edges_ok (ids db) (edges db)" by (simp add: wf_tables_def)
  from assms(2) have "k \<in> ids db \<or> (\<forall>d \<in> set (edges db). dr_from d \<noteq> g)"
    by (auto simp: repoint_from_def list_ex_iff has_entity_ids split: if_splits)
  then have "edges_ok (ids db) (map (\<lambda>d. if dr_from d = g then d\<lparr>dr_from := k\<rparr> else d) (edges db))"
    by (intro edges_ok_map [OF e]) (use edges_ok_ends [OF e] in auto)
  with assms show ?thesis by (auto simp: repoint_from_def wf_tables_def split: if_splits)
qed

lemma wf_repoint_to [wf_intros]:
  assumes "wf_tables db" and "repoint_to k g db = Inr db'"
  shows "wf_tables db'"
proof -
  from assms(1) have e: "edges_ok (ids db) (edges db)" by (simp add: wf_tables_def)
  from assms(2) have "k \<in> ids db \<or> (\<forall>d \<in> set (edges db). dr_to d \<noteq> g)"
    by (auto simp: repoint_to_def list_ex_iff has_entity_ids split: if_splits)
  then have "edges_ok (ids db) (map (\<lambda>d. if dr_to d = g then d\<lparr>dr_to := k\<rparr> else d) (edges db))"
    by (intro edges_ok_map [OF e]) (use edges_ok_ends [OF e] in auto)
  with assms show ?thesis by (auto simp: repoint_to_def wf_tables_def split: if_splits)
qed

lemma next_seq_log: "map f_seq fs = [1..<Suc (length fs)] \<Longrightarrow> next_seq fs = Suc (length fs)"
proof -
  have "foldl max 0 [1..<Suc n] = n" for n :: nat
    by (induction n) auto
  then show "map f_seq fs = [1..<Suc (length fs)] \<Longrightarrow> next_seq fs = Suc (length fs)"
    by (simp add: next_seq_def)
qed

lemma log_ok_snoc:
  "log_ok fs \<Longrightarrow> FactKind_Valid (f_kind f) \<Longrightarrow> f_seq f = next_seq fs \<Longrightarrow>
     \<not> list_ex (\<lambda>g. f_writer g = f_writer f \<and> f_dedupe g = f_dedupe f) fs \<Longrightarrow> log_ok (fs @ [f])"
  using next_seq_log [of fs] by (auto simp: log_ok_def list_ex_iff)

lemma wf_insertFact [wf_intros]:
  assumes "wf_tables db" and "insertFact nid kind sub w dk pl ac ts db = Inr db'"
  shows "wf_tables db'"
  using assms log_ok_snoc [of "facts db"] by (auto simp: insertFact_def wf_tables_def split: if_splits)

end
