(* ===== verification/Jdx_Samples.thy ===== *)
theory Jdx_Samples
  imports Jdx_Db
begin

text \<open>
  A small database on which the theorems with hypotheses are instantiated: the public \<open>a\<close>, the
  space-visible \<open>b\<close> and the private \<open>c\<close>, all of the space \<open>home\<close>; a link from \<open>a\<close> to each of the
  others and one from \<open>c\<close> to \<open>b\<close>; an external id on \<open>a\<close> and one on \<open>b\<close>; an embedding of \<open>a\<close>.
\<close>

definition sample_cols :: prov_cols where
  "sample_cols = \<lparr>pv_asserter = ''kate'', pv_method = Asserted, pv_source = [], pv_confidence = 1,
     pv_asserted_at = (0, ''Z'')\<rparr>"

definition sample_row :: "entity_id \<Rightarrow> principal_id \<Rightarrow> visibility \<Rightarrow> entity_row" where
  "sample_row e ow v = \<lparr>er_id = e, er_type = ''Movie'', er_props = JObj [(''name'', JStr e)],
     er_space = ''home'', er_owner = ow, er_vis = v, er_prov = sample_cols,
     er_created_at = (0, ''Z''), er_updated_at = (0, ''Z'')\<rparr>"

definition sample_edge :: "edge_id \<Rightarrow> entity_id \<Rightarrow> entity_id \<Rightarrow> edge_row" where
  "sample_edge i a b = \<lparr>dr_id = i, dr_predicate = ''about'', dr_from = a, dr_to = b, dr_props = None,
     dr_space = ''home'', dr_owner = ''kate'', dr_vis = VisPublic, dr_prov = sample_cols,
     dr_created_at = (0, ''Z'')\<rparr>"

definition sample_ext :: "entity_id \<Rightarrow> string \<Rightarrow> string \<Rightarrow> ext_row" where
  "sample_ext e s v = \<lparr>xr_entity = e, xr_scheme = s, xr_value = v,
     xr_key = Key \<lparr>Scheme = s, Value = v\<rparr>, xr_space = ''home''\<rparr>"

definition sample_rows :: "entity_row list" where
  "sample_rows = [sample_row ''a'' ''kate'' VisPublic, sample_row ''b'' ''kate'' VisSpace,
     sample_row ''c'' ''zoe'' VisPrivate]"

definition sample_db :: db where
  "sample_db = \<lparr>facts = [], entities = sample_rows,
     entity_external_ids = [sample_ext ''a'' ''tmdb'' ''1'', sample_ext ''b'' ''imdb'' ''2''],
     entity_labels = [], embeddings = [\<lparr>mr_entity = ''a'', mr_model = ''m'', mr_field = ''text'',
       mr_dim = 1, mr_vector = encodeVec [1065353216]\<rparr>],
     edges = [sample_edge ''d1'' ''a'' ''b'', sample_edge ''d2'' ''a'' ''c'', sample_edge ''d3'' ''c'' ''b''],
     entities_fts = map fts_row sample_rows, proposals = []\<rparr>"

lemmas sample_defs = sample_db_def sample_rows_def sample_row_def sample_edge_def sample_ext_def sample_cols_def

lemma sample_ids [simp]: "ids sample_db = {''a'', ''b'', ''c''}"
  by (simp add: ids_def sample_defs)

lemma sample_has [simp]: "has_entity sample_db e \<longleftrightarrow> e \<in> {''a'', ''b'', ''c''}"
  by (simp add: has_entity_ids)

lemma wf_sample: "wf_db sample_db"
proof -
  have "wf_tables sample_db"
    unfolding wf_tables_def sample_ids
    by (simp add: sample_defs entities_ok_def ext_ok_def labels_ok_def emb_ok_def edges_ok_def
        log_ok_def proposals_ok_def Visibility_Valid_def AssertMethod_Valid_def Key_def)
  moreover have "fts_ok (entities sample_db) (entities_fts sample_db)"
    by (simp add: fts_ok_def sample_defs fts_row_def)
  ultimately show ?thesis by (simp add: wf_db_def)
qed

text \<open>A member of the space who owns none of its private rows, and one with no space at all.\<close>

definition member_filter :: acl_filter where
  "member_filter = \<lparr>F_Principal = ''kate'', F_Spaces = [''home''], F_Restricted = False, F_DenyTypes = [],
     F_AllowPublic = True\<rparr>"

definition guest_filter :: acl_filter where
  "guest_filter = \<lparr>F_Principal = ''guest'', F_Spaces = [], F_Restricted = False, F_DenyTypes = [],
     F_AllowPublic = True\<rparr>"

end
