(* ===== verification/Jdx_Snapshot.thy ===== *)
theory Jdx_Snapshot
  imports Jdx_Samples
begin

text \<open>
  The projection steps shared by the online writes and \<open>RebuildProjection\<close>
  (\<open>entities.go\<close>, \<open>edges.go\<close>, \<open>fts.go\<close>): \<open>upsertEntitySnapshot\<close>, \<open>upsertEdgeSnapshot\<close>,
  \<open>mergeEntitiesTx\<close>, and \<open>foldFact\<close> which picks one of them for a logged fact. All run inside a
  write transaction; an error rolls the whole transaction back.
\<close>

section \<open>Provenance columns\<close>

definition normalizeProvenance :: "provenance \<Rightarrow> time \<Rightarrow> provenance" where
  "normalizeProvenance p ts =
     (let p1 = (if Method p = MethodOther [] then p\<lparr>Method := Asserted\<rparr> else p);
          p2 = (if Confidence p1 = 0 \<and> Method p1 = Asserted then p1\<lparr>Confidence := 1\<rparr> else p1)
      in if AssertedAt p2 = 0 then p2\<lparr>AssertedAt := ts\<rparr> else p2)"

definition prov_to_cols :: "provenance \<Rightarrow> prov_cols" where
  "prov_to_cols p = \<lparr>pv_asserter = Asserter p, pv_method = Method p, pv_source = Source p,
     pv_confidence = Confidence p, pv_asserted_at = fmtTS (AssertedAt p)\<rparr>"

definition prov_of_cols :: "prov_cols \<Rightarrow> provenance" where
  "prov_of_cols c = \<lparr>Asserter = pv_asserter c, Method = pv_method c, Source = pv_source c,
     Confidence = pv_confidence c, AssertedAt = parseTS (pv_asserted_at c)\<rparr>"

lemma prov_of_to_cols [simp]: "prov_of_cols (prov_to_cols p) = p"
  by (simp add: prov_of_cols_def prov_to_cols_def)

lemma normalizeProvenance_idem:
  "normalizeProvenance (normalizeProvenance p a) b =
     (if AssertedAt (normalizeProvenance p a) = 0 then (normalizeProvenance p a)\<lparr>AssertedAt := b\<rparr>
      else normalizeProvenance p a)"
  by (simp add: normalizeProvenance_def Let_def)

section \<open>One entity snapshot\<close>

definition syncEntityFTS :: "entity_id \<Rightarrow> db \<Rightarrow> db" where
  "syncEntityFTS e db = (case get_entity_row db e of
       None \<Rightarrow> delete_fts e db
     | Some r \<Rightarrow> insert_fts e (extractSearchText (er_props r) (er_type r)) (delete_fts e db))"

definition entity_to_row :: "entity \<Rightarrow> json \<Rightarrow> provenance \<Rightarrow> tstext \<Rightarrow> entity_row" where
  "entity_to_row e j p tsS = \<lparr>er_id = E_ID e, er_type = E_Type e, er_props = j, er_space = E_Space e,
     er_owner = E_Owner e, er_vis = E_Visibility e, er_prov = prov_to_cols p,
     er_created_at = tsS, er_updated_at = tsS\<rparr>"

definition ext_to_row :: "entity \<Rightarrow> external_id \<Rightarrow> ext_row" where
  "ext_to_row e x = \<lparr>xr_entity = E_ID e, xr_scheme = Scheme x, xr_value = Value x, xr_key = Key x,
     xr_space = E_Space e\<rparr>"

definition emb_to_row :: "entity \<Rightarrow> embedding \<Rightarrow> emb_row" where
  "emb_to_row e m = \<lparr>mr_entity = E_ID e, mr_model = Model m, mr_field = Field m,
     mr_dim = length (Vector m), mr_vector = encodeVec (Vector m)\<rparr>"

definition upsert_row :: "entity \<Rightarrow> time \<Rightarrow> db \<Rightarrow> db res" where
  "upsert_row e ts db =
     (let tsS = fmtTS ts; p = normalizeProvenance (E_Provenance e) ts in
      if \<not> has_entity db (E_ID e) then
        rbind (props_col (if raw_len0 (E_Props e) then RawDoc (JObj []) else E_Props e))
          (\<lambda>j. insert_entity (entity_to_row e j p tsS) db)
      else if \<not> raw_len0 (E_Props e) then
        rbind (props_col (E_Props e))
          (\<lambda>j. Inr (update_entity (E_ID e)
             (\<lambda>r. r\<lparr>er_props := json_patch j (er_props r), er_updated_at := tsS\<rparr>) db))
      else Inr (update_entity (E_ID e) (\<lambda>r. r\<lparr>er_updated_at := tsS\<rparr>) db))"

definition upsertEntitySnapshot :: "entity \<Rightarrow> time \<Rightarrow> db \<Rightarrow> db res" where
  "upsertEntitySnapshot e ts db =
     rbind (upsert_row e ts db) (\<lambda>db1.
     rbind (rfold (\<lambda>x. insert_ext_or_ignore (ext_to_row e x)) (E_ExternalIDs e) db1) (\<lambda>db2.
     rbind (rfold (\<lambda>m. insert_emb_or_replace (emb_to_row e m)) (E_Embeddings e) db2) (\<lambda>db3.
     Inr (syncEntityFTS (E_ID e) db3))))"

section \<open>One edge snapshot\<close>

definition opt_props_col :: "rawmsg \<Rightarrow> json option res" where
  "opt_props_col p = (if raw_len0 p then Inr None else rbind (props_col p) (\<lambda>j. Inr (Some j)))"

definition edge_to_row :: "edge \<Rightarrow> json option \<Rightarrow> provenance \<Rightarrow> tstext \<Rightarrow> edge_row" where
  "edge_to_row d j p tsS = \<lparr>dr_id = D_ID d, dr_predicate = D_Predicate d, dr_from = D_From d,
     dr_to = D_To d, dr_props = j, dr_space = D_Space d, dr_owner = D_Owner d,
     dr_vis = D_Visibility d, dr_prov = prov_to_cols p, dr_created_at = tsS\<rparr>"

definition upsertEdgeSnapshot :: "edge \<Rightarrow> time \<Rightarrow> db \<Rightarrow> db res" where
  "upsertEdgeSnapshot d ts db =
     rbind (opt_props_col (D_Props d)) (\<lambda>j. insert_edge_or_replace
       (edge_to_row d j (normalizeProvenance (D_Provenance d) ts) (fmtTS ts)) db)"

section \<open>Merging two entities\<close>

text \<open>The eleven statements of \<open>mergeEntitiesTx\<close>, in their order.\<close>

definition mergeEntitiesTx :: "entity_id \<Rightarrow> entity_id \<Rightarrow> time \<Rightarrow> db \<Rightarrow> db res" where
  "mergeEntitiesTx keep gone ts db =
     (if keep = gone then Inr db
      else
        let db1 = db\<lparr>entity_external_ids := del_dups xr_entity xr_key keep gone (entity_external_ids db)\<rparr> in
        rbind (move_ext keep gone db1) (\<lambda>db2.
        let db3 = db2\<lparr>entity_labels := del_dups fst snd keep gone (entity_labels db2)\<rparr> in
        rbind (move_labels keep gone db3) (\<lambda>db4.
        let db5 = db4\<lparr>embeddings := del_dups mr_entity mr_key keep gone (embeddings db4)\<rparr> in
        rbind (move_emb keep gone db5) (\<lambda>db6.
        rbind (repoint_from keep gone db6) (\<lambda>db7.
        rbind (repoint_to keep gone db7) (\<lambda>db8.
        let db9 = delete_fts gone (delete_entity gone db8) in
        Inr (update_entity keep (\<lambda>r. r\<lparr>er_updated_at := fmtTS ts\<rparr>) db9)))))))"

section \<open>Folding one logged fact\<close>

definition foldFact :: "fact_kind \<Rightarrow> string \<Rightarrow> payload \<Rightarrow> time \<Rightarrow> db \<Rightarrow> db res" where
  "foldFact kind subject payload ts db = (case kind of
       FactEntityAsserted \<Rightarrow> rbind (unmarshal_entity payload) (\<lambda>e. upsertEntitySnapshot e ts db)
     | FactEntityRetracted \<Rightarrow> Inr (delete_entity subject db)
     | FactEdgeAsserted \<Rightarrow> rbind (unmarshal_edge payload) (\<lambda>d. upsertEdgeSnapshot d ts db)
     | FactEdgeRetracted \<Rightarrow> Inr (delete_edge subject db)
     | FactEntityMerged \<Rightarrow> rbind (unmarshal_merge payload) (\<lambda>(k, g). mergeEntitiesTx k g ts db)
     | FactOther _ \<Rightarrow> Inl ErrUnknownKind)"

section \<open>They keep the schema's constraints\<close>

lemma wf_syncEntityFTS [wf_intros]: "wf_tables db \<Longrightarrow> wf_tables (syncEntityFTS e db)"
  by (auto simp: syncEntityFTS_def intro: wf_intros split: option.splits)

lemma wf_upsert_row [wf_intros]:
  "wf_tables db \<Longrightarrow> upsert_row e ts db = Inr db' \<Longrightarrow> wf_tables db'"
  by (auto simp: upsert_row_def Let_def elim!: rbindE intro!: wf_update_entity
      intro: wf_insert_entity split: if_splits)

lemma wf_insert_exts [wf_intros]:
  assumes "rfold (\<lambda>x. insert_ext_or_ignore (ext_to_row e x)) xs db = Inr db'" and "wf_tables db"
  shows "wf_tables db'"
  by (rule rfold_invariant [where P = wf_tables, OF assms])
     (auto elim: wf_insert_ext simp: ext_to_row_def Key_def)

lemma wf_insert_embs [wf_intros]:
  assumes "rfold (\<lambda>m. insert_emb_or_replace (emb_to_row e m)) ms db = Inr db'" and "wf_tables db"
  shows "wf_tables db'"
  by (rule rfold_invariant [where P = wf_tables, OF assms])
     (auto elim: wf_insert_emb simp: emb_to_row_def)

lemma upsertEntitySnapshotE:
  assumes "upsertEntitySnapshot e ts db = Inr db'"
  obtains db1 db2 db3 where "upsert_row e ts db = Inr db1"
    and "rfold (\<lambda>x. insert_ext_or_ignore (ext_to_row e x)) (E_ExternalIDs e) db1 = Inr db2"
    and "rfold (\<lambda>m. insert_emb_or_replace (emb_to_row e m)) (E_Embeddings e) db2 = Inr db3"
    and "db' = syncEntityFTS (E_ID e) db3"
  using assms by (auto simp: upsertEntitySnapshot_def elim!: rbindE)

lemma wf_upsertEntitySnapshot [wf_intros]:
  assumes "wf_tables db" and "upsertEntitySnapshot e ts db = Inr db'"
  shows "wf_tables db'"
  using assms(2)
proof (rule upsertEntitySnapshotE)
  fix db1 db2 db3
  assume s: "upsert_row e ts db = Inr db1"
    "rfold (\<lambda>x. insert_ext_or_ignore (ext_to_row e x)) (E_ExternalIDs e) db1 = Inr db2"
    "rfold (\<lambda>m. insert_emb_or_replace (emb_to_row e m)) (E_Embeddings e) db2 = Inr db3"
    and db': "db' = syncEntityFTS (E_ID e) db3"
  from wf_upsert_row [OF assms(1) s(1)] have "wf_tables db2" by (rule wf_insert_exts [OF s(2)])
  then have "wf_tables db3" by (rule wf_insert_embs [OF s(3)])
  then show ?thesis unfolding db' by (rule wf_syncEntityFTS)
qed

lemma wf_upsertEdgeSnapshot [wf_intros]:
  "wf_tables db \<Longrightarrow> upsertEdgeSnapshot d ts db = Inr db' \<Longrightarrow> wf_tables db'"
  by (auto simp: upsertEdgeSnapshot_def elim!: rbindE intro: wf_insert_edge)

lemma wf_move_ext:
  assumes "wf_tables db" and "move_ext k g db = Inr db'"
  shows "wf_tables db'"
proof -
  let ?rows = "entity_external_ids db" and ?P = "\<lambda>x. xr_key x = Key \<lparr>Scheme = xr_scheme x, Value = xr_value x\<rparr>"
  from assms(1) have e: "ext_ok (ids db) ?rows" by (simp add: wf_tables_def)
  from assms(2) have pk: "distinct (map (\<lambda>x. (xr_entity x, xr_key x)) (move_rows xr_entity xr_set k g ?rows))"
    and fk: "list_ex (\<lambda>x. xr_entity x = g) ?rows \<longrightarrow> k \<in> ids db"
    and db': "db' = db\<lparr>entity_external_ids := move_rows xr_entity xr_set k g ?rows\<rparr>"
    by (auto simp: move_ext_def has_entity_ids Let_def split: if_splits)
  have sk: "map (\<lambda>x. (xr_space x, xr_key x)) (move_rows xr_entity xr_set k g ?rows)
      = map (\<lambda>x. (xr_space x, xr_key x)) ?rows"
    by (rule xt.moved_map) (simp add: xr_set_def)
  have "\<forall>x \<in> set (move_rows xr_entity xr_set k g ?rows). ?P x"
    by (rule xt.moved_all) (use e in \<open>simp_all add: xr_set_def ext_ok_def\<close>)
  moreover have "\<forall>x \<in> set (move_rows xr_entity xr_set k g ?rows). xr_entity x \<in> ids db"
    by (rule xt.moved_refs [OF _ fk]) (use e in \<open>simp add: ext_ok_def\<close>)
  moreover have "distinct (map (\<lambda>x. (xr_space x, xr_key x)) (move_rows xr_entity xr_set k g ?rows))"
    unfolding sk using e by (simp add: ext_ok_def)
  ultimately have "ext_ok (ids db) (move_rows xr_entity xr_set k g ?rows)"
    using pk unfolding ext_ok_def by blast
  with assms(1) db' show ?thesis by (simp add: wf_tables_def)
qed

lemma wf_move_labels:
  assumes "wf_tables db" and "move_labels k g db = Inr db'"
  shows "wf_tables db'"
proof -
  let ?rows = "entity_labels db"
  from assms(1) have e: "labels_ok (ids db) ?rows" by (simp add: wf_tables_def)
  from assms(2) have pk: "distinct (map (\<lambda>x. (fst x, snd x)) (move_rows fst lb_set k g ?rows))"
    and fk: "list_ex (\<lambda>x. fst x = g) ?rows \<longrightarrow> k \<in> ids db"
    and db': "db' = db\<lparr>entity_labels := move_rows fst lb_set k g ?rows\<rparr>"
    by (auto simp: move_labels_def has_entity_ids Let_def split: if_splits)
  have "labels_ok (ids db) (move_rows fst lb_set k g ?rows)"
    using e pk lt.moved_refs [OF _ fk] unfolding labels_ok_def by blast
  with assms(1) db' show ?thesis by (simp add: wf_tables_def)
qed

lemma wf_move_emb:
  assumes "wf_tables db" and "move_emb k g db = Inr db'"
  shows "wf_tables db'"
proof -
  let ?rows = "embeddings db" and ?P = "\<lambda>m. length (mr_vector m) = 4 * mr_dim m"
  from assms(1) have e: "emb_ok (ids db) ?rows" by (simp add: wf_tables_def)
  from assms(2) have pk: "distinct (map (\<lambda>m. (mr_entity m, mr_key m)) (move_rows mr_entity mr_set k g ?rows))"
    and fk: "list_ex (\<lambda>m. mr_entity m = g) ?rows \<longrightarrow> k \<in> ids db"
    and db': "db' = db\<lparr>embeddings := move_rows mr_entity mr_set k g ?rows\<rparr>"
    by (auto simp: move_emb_def has_entity_ids Let_def split: if_splits)
  have "\<forall>m \<in> set (move_rows mr_entity mr_set k g ?rows). ?P m"
    by (rule mt.moved_all) (use e in \<open>simp_all add: mr_set_def emb_ok_def\<close>)
  moreover have "\<forall>m \<in> set (move_rows mr_entity mr_set k g ?rows). mr_entity m \<in> ids db"
    by (rule mt.moved_refs [OF _ fk]) (use e in \<open>simp add: emb_ok_def\<close>)
  ultimately have "emb_ok (ids db) (move_rows mr_entity mr_set k g ?rows)"
    using pk unfolding emb_ok_def by blast
  with assms(1) db' show ?thesis by (simp add: wf_tables_def)
qed

lemma wf_del_dups:
  "wf_tables db \<Longrightarrow> wf_tables (db\<lparr>entity_external_ids := del_dups xr_entity xr_key k g (entity_external_ids db)\<rparr>)"
  "wf_tables db \<Longrightarrow> wf_tables (db\<lparr>entity_labels := del_dups fst snd k g (entity_labels db)\<rparr>)"
  "wf_tables db \<Longrightarrow> wf_tables (db\<lparr>embeddings := del_dups mr_entity mr_key k g (embeddings db)\<rparr>)"
  by (simp_all add: wf_tables_def del_dups_def ok_filter)

lemmas wf_moves = wf_move_ext wf_move_labels wf_move_emb wf_del_dups wf_repoint_from wf_repoint_to

lemma mergeEntitiesTxE:
  assumes "mergeEntitiesTx k g ts db = Inr db'" and "k \<noteq> g"
  obtains db2 db4 db6 db7 db8 where
    "move_ext k g (db\<lparr>entity_external_ids := del_dups xr_entity xr_key k g (entity_external_ids db)\<rparr>) = Inr db2"
    and "move_labels k g (db2\<lparr>entity_labels := del_dups fst snd k g (entity_labels db2)\<rparr>) = Inr db4"
    and "move_emb k g (db4\<lparr>embeddings := del_dups mr_entity mr_key k g (embeddings db4)\<rparr>) = Inr db6"
    and "repoint_from k g db6 = Inr db7" and "repoint_to k g db7 = Inr db8"
    and "db' = update_entity k (\<lambda>r. r\<lparr>er_updated_at := fmtTS ts\<rparr>) (delete_fts g (delete_entity g db8))"
  using assms by (auto simp: mergeEntitiesTx_def Let_def elim!: rbindE)

lemma wf_mergeEntitiesTx [wf_intros]:
  assumes "wf_tables db" and "mergeEntitiesTx k g ts db = Inr db'"
  shows "wf_tables db'"
proof (cases "k = g")
  case True
  with assms show ?thesis by (simp add: mergeEntitiesTx_def)
next
  case False
  from assms(2) False show ?thesis
  proof (rule mergeEntitiesTxE)
    fix db2 db4 db6 db7 db8
    assume s: "move_ext k g (db\<lparr>entity_external_ids := del_dups xr_entity xr_key k g (entity_external_ids db)\<rparr>) = Inr db2"
      "move_labels k g (db2\<lparr>entity_labels := del_dups fst snd k g (entity_labels db2)\<rparr>) = Inr db4"
      "move_emb k g (db4\<lparr>embeddings := del_dups mr_entity mr_key k g (embeddings db4)\<rparr>) = Inr db6"
      "repoint_from k g db6 = Inr db7" "repoint_to k g db7 = Inr db8"
      and db': "db' = update_entity k (\<lambda>r. r\<lparr>er_updated_at := fmtTS ts\<rparr>) (delete_fts g (delete_entity g db8))"
    from assms(1) have "wf_tables db2" by (rule wf_move_ext [OF wf_del_dups(1) s(1)])
    then have "wf_tables db4" by (rule wf_move_labels [OF wf_del_dups(2) s(2)])
    then have "wf_tables db6" by (rule wf_move_emb [OF wf_del_dups(3) s(3)])
    then have "wf_tables db8" by (rule wf_repoint_to [OF wf_repoint_from [OF _ s(4)] s(5)])
    then have "wf_tables (delete_fts g (delete_entity g db8))" by (intro wf_delete_fts wf_delete_entity)
    then show ?thesis unfolding db' by (rule wf_update_entity) simp_all
  qed
qed

section \<open>What a merge does, in one step\<close>

text \<open>
  The specification of \<open>mergeEntitiesTx\<close>: every table at once. \<open>merge_refines\<close> shows that the
  eleven statements amount to it, and cannot fail, when the constraints hold and the survivor
  exists.
\<close>

definition repoint :: "entity_id \<Rightarrow> entity_id \<Rightarrow> edge_row \<Rightarrow> edge_row" where
  "repoint keep gone d =
     d\<lparr>dr_from := if dr_from d = gone then keep else dr_from d,
       dr_to := if dr_to d = gone then keep else dr_to d\<rparr>"

definition merged :: "entity_id \<Rightarrow> entity_id \<Rightarrow> time \<Rightarrow> db \<Rightarrow> db" where
  "merged keep gone ts db =
     db\<lparr>entities := map (\<lambda>r. if er_id r = keep then r\<lparr>er_updated_at := fmtTS ts\<rparr> else r)
          (filter (\<lambda>r. er_id r \<noteq> gone) (entities db)),
        entity_external_ids := move_rows xr_entity xr_set keep gone
          (del_dups xr_entity xr_key keep gone (entity_external_ids db)),
        entity_labels := move_rows fst lb_set keep gone (del_dups fst snd keep gone (entity_labels db)),
        embeddings := move_rows mr_entity mr_set keep gone
          (del_dups mr_entity mr_key keep gone (embeddings db)),
        edges := map (repoint keep gone) (edges db),
        entities_fts := filter (\<lambda>t. fst t \<noteq> gone) (entities_fts db)\<rparr>"

lemma has_entity_frame [simp]:
  "has_entity (db\<lparr>facts := a\<rparr>) = has_entity db"
  "has_entity (db\<lparr>entity_external_ids := b\<rparr>) = has_entity db"
  "has_entity (db\<lparr>entity_labels := c\<rparr>) = has_entity db"
  "has_entity (db\<lparr>embeddings := d\<rparr>) = has_entity db"
  "has_entity (db\<lparr>edges := e\<rparr>) = has_entity db"
  "has_entity (db\<lparr>entities_fts := f\<rparr>) = has_entity db"
  "has_entity (db\<lparr>proposals := g\<rparr>) = has_entity db"
  by (simp_all add: has_entity_def fun_eq_iff)

lemma filter_moved_all:
  "(\<And>r. r \<in> set rows \<Longrightarrow> P r) \<Longrightarrow> filter P rows = rows"
  by (induction rows) auto

lemma repoint_two_steps:
  "map (\<lambda>d. if dr_to d = g then d\<lparr>dr_to := k\<rparr> else d)
     (map (\<lambda>d. if dr_from d = g then d\<lparr>dr_from := k\<rparr> else d) ds) = map (repoint k g) ds"
  by (induction ds) (simp_all add: repoint_def)

lemma repoint_ends: "k \<noteq> g \<Longrightarrow> dr_from (repoint k g d) \<noteq> g \<and> dr_to (repoint k g d) \<noteq> g"
  by (simp add: repoint_def)

lemma merge_refines:
  assumes wf: "wf_tables db" and k: "has_entity db k" and ne: "k \<noteq> g"
  shows "mergeEntitiesTx k g ts db = Inr (merged k g ts db)"
proof -
  let ?x = "move_rows xr_entity xr_set k g (del_dups xr_entity xr_key k g (entity_external_ids db))"
  let ?l = "move_rows fst lb_set k g (del_dups fst snd k g (entity_labels db))"
  let ?m = "move_rows mr_entity mr_set k g (del_dups mr_entity mr_key k g (embeddings db))"
  let ?d = "map (repoint k g) (edges db)"
  have x: "distinct (map (\<lambda>x. (xr_entity x, xr_key x)) ?x)"
    using wf ne by (intro xt.moved_pk) (simp_all add: wf_tables_def ext_ok_def)
  have l: "distinct (map (\<lambda>x. (fst x, snd x)) ?l)"
    using wf ne by (intro lt.moved_pk) (simp_all add: wf_tables_def labels_ok_def)
  have m: "distinct (map (\<lambda>m. (mr_entity m, mr_key m)) ?m)"
    using wf ne by (intro mt.moved_pk) (simp_all add: wf_tables_def emb_ok_def)
  have "filter (\<lambda>x. xr_entity x \<noteq> g) ?x = ?x" "filter (\<lambda>x. fst x \<noteq> g) ?l = ?l"
    "filter (\<lambda>m. mr_entity m \<noteq> g) ?m = ?m"
    using xt.moved_ents [OF ne] lt.moved_ents [OF ne] mt.moved_ents [OF ne]
    by (auto intro!: filter_moved_all)
  moreover have "filter (\<lambda>d. dr_from d \<noteq> g \<and> dr_to d \<noteq> g) ?d = ?d"
    using repoint_ends [OF ne] by (auto intro!: filter_moved_all)
  ultimately have fin: "update_entity k (\<lambda>r. r\<lparr>er_updated_at := fmtTS ts\<rparr>) (delete_fts g (delete_entity g
      (db\<lparr>entity_external_ids := ?x, entity_labels := ?l, embeddings := ?m, edges := ?d\<rparr>)))
      = merged k g ts db"
    by (simp add: update_entity_def delete_fts_def delete_entity_def merged_def)
  have "move_ext k g (db\<lparr>entity_external_ids := del_dups xr_entity xr_key k g (entity_external_ids db)\<rparr>)
      = Inr (db\<lparr>entity_external_ids := ?x\<rparr>)"
    using x k by (simp add: move_ext_def Let_def)
  moreover have "move_labels k g (db\<lparr>entity_external_ids := ?x,
        entity_labels := del_dups fst snd k g (entity_labels db)\<rparr>)
      = Inr (db\<lparr>entity_external_ids := ?x, entity_labels := ?l\<rparr>)"
    using l k by (simp add: move_labels_def Let_def)
  moreover have "move_emb k g (db\<lparr>entity_external_ids := ?x, entity_labels := ?l,
        embeddings := del_dups mr_entity mr_key k g (embeddings db)\<rparr>)
      = Inr (db\<lparr>entity_external_ids := ?x, entity_labels := ?l, embeddings := ?m\<rparr>)"
    using m k by (simp add: move_emb_def Let_def)
  ultimately show ?thesis
    using ne k fin
    by (simp add: mergeEntitiesTx_def Let_def repoint_from_def repoint_to_def repoint_two_steps
        del: map_map)
qed

lemma image_map_if:
  "(\<And>r. h (f r) = h r) \<Longrightarrow> h ` set (map (\<lambda>r. if P r then f r else r) rows) = h ` set rows"
  by (induction rows) simp_all

lemma merged_entities:
  "entities (merged k g ts db) = map (\<lambda>r. if er_id r = k then r\<lparr>er_updated_at := fmtTS ts\<rparr> else r)
     (filter (\<lambda>r. er_id r \<noteq> g) (entities db))"
  by (simp add: merged_def)

lemma merged_ids: "ids (merged k g ts db) = ids db - {g}"
proof -
  have "ids (merged k g ts db) = er_id ` set (filter (\<lambda>r. er_id r \<noteq> g) (entities db))"
    unfolding ids_def merged_entities by (rule image_map_if) simp
  then show ?thesis by (auto simp: ids_def)
qed

lemma merged_log [simp]:
  "facts (merged k g ts db) = facts db" "proposals (merged k g ts db) = proposals db"
  by (simp_all add: merged_def)

section \<open>The full-text rows follow the stored properties\<close>

lemma rfold_frame:
  assumes "rfold f xs db = Inr db'" and "\<And>x s t. f x s = Inr t \<Longrightarrow> h t = h s"
  shows "h db' = h db"
  by (rule rfold_invariant [where P = "\<lambda>s. h s = h db", OF assms(1)]) (simp_all add: assms(2))

lemma insert_ext_frame [row_simps]:
  "insert_ext_or_ignore x db = Inr db' \<Longrightarrow> entities db' = entities db \<and> entities_fts db' = entities_fts db
     \<and> facts db' = facts db \<and> proposals db' = proposals db \<and> edges db' = edges db
     \<and> embeddings db' = embeddings db \<and> entity_labels db' = entity_labels db"
  by (auto simp: insert_ext_or_ignore_def split: if_splits)

lemma insert_emb_frame [row_simps]:
  "insert_emb_or_replace m db = Inr db' \<Longrightarrow> entities db' = entities db \<and> entities_fts db' = entities_fts db
     \<and> facts db' = facts db \<and> proposals db' = proposals db \<and> edges db' = edges db
     \<and> entity_external_ids db' = entity_external_ids db \<and> entity_labels db' = entity_labels db"
  by (auto simp: insert_emb_or_replace_def split: if_splits)

lemma insert_exts_frame:
  assumes "rfold (\<lambda>x. insert_ext_or_ignore (ext_to_row e x)) xs db = Inr db'"
  shows "entities db' = entities db \<and> entities_fts db' = entities_fts db
     \<and> facts db' = facts db \<and> proposals db' = proposals db \<and> edges db' = edges db
     \<and> embeddings db' = embeddings db \<and> entity_labels db' = entity_labels db"
  using rfold_frame [OF assms, of "\<lambda>d. (entities d, entities_fts d, facts d, proposals d, edges d, embeddings d, entity_labels d)"]
  by (simp add: insert_ext_frame)

lemma insert_embs_frame:
  assumes "rfold (\<lambda>m. insert_emb_or_replace (emb_to_row e m)) ms db = Inr db'"
  shows "entities db' = entities db \<and> entities_fts db' = entities_fts db
     \<and> facts db' = facts db \<and> proposals db' = proposals db \<and> edges db' = edges db
     \<and> entity_external_ids db' = entity_external_ids db \<and> entity_labels db' = entity_labels db"
  using rfold_frame [OF assms, of "\<lambda>d. (entities d, entities_fts d, facts d, proposals d, edges d, entity_external_ids d, entity_labels d)"]
  by (simp add: insert_emb_frame)

lemma upsert_row_cases:
  assumes "upsert_row e ts db = Inr db'"
  obtains (insert) j where "\<not> has_entity db (E_ID e)"
      and "insert_entity (entity_to_row e j (normalizeProvenance (E_Provenance e) ts) (fmtTS ts)) db = Inr db'"
      and "props_col (if raw_len0 (E_Props e) then RawDoc (JObj []) else E_Props e) = Inr j"
  | (attach) j where "has_entity db (E_ID e)" and "E_Props e = RawDoc j"
      and "db' = update_entity (E_ID e)
             (\<lambda>r. r\<lparr>er_props := json_patch j (er_props r), er_updated_at := fmtTS ts\<rparr>) db"
  | (bump) "has_entity db (E_ID e)" and "E_Props e = RawEmpty"
      and "db' = update_entity (E_ID e) (\<lambda>r. r\<lparr>er_updated_at := fmtTS ts\<rparr>) db"
  using assms
  by (auto simp: upsert_row_def Let_def props_col_def raw_len0_def elim!: rbindE
      split: if_splits rawmsg.splits)

lemma upsert_row_frame:
  assumes "upsert_row e ts db = Inr db'"
  shows "entities_fts db' = entities_fts db \<and> facts db' = facts db
     \<and> proposals db' = proposals db \<and> edges db' = edges db \<and> embeddings db' = embeddings db
     \<and> entity_external_ids db' = entity_external_ids db \<and> entity_labels db' = entity_labels db"
  using assms
  by (rule upsert_row_cases) (auto simp: insert_entity_def update_entity_def split: if_splits)

lemma upsert_row_ids:
  assumes "upsert_row e ts db = Inr db'"
  shows "ids db' = insert (E_ID e) (ids db)"
  using assms
proof (cases rule: upsert_row_cases)
  case (insert j)
  from ids_insert [OF insert(2)] show ?thesis by (simp add: entity_to_row_def)
next
  case (attach j)
  then show ?thesis by (simp add: has_entity_ids ids_update insert_absorb)
next
  case bump
  then show ?thesis by (simp add: has_entity_ids ids_update insert_absorb)
qed

lemma update_entity_others:
  "r \<in> set (entities (update_entity e f db)) \<Longrightarrow> er_id r \<noteq> e \<Longrightarrow> (\<And>r. er_id (f r) = er_id r) \<Longrightarrow>
     r \<in> set (entities db)"
  by (auto simp: update_entity_def split: if_splits)

lemma upsert_row_others:
  assumes "upsert_row e ts db = Inr db'" and "r \<in> set (entities db')" and "er_id r \<noteq> E_ID e"
  shows "r \<in> set (entities db)"
  using assms(1)
proof (cases rule: upsert_row_cases)
  case (insert j)
  with assms(2,3) show ?thesis by (auto simp: insert_entity_def entity_to_row_def split: if_splits)
next
  case (attach j)
  from assms(2)[unfolded attach(3)] assms(3) show ?thesis by (rule update_entity_others) simp
next
  case bump
  from assms(2)[unfolded bump(3)] assms(3) show ?thesis by (rule update_entity_others) simp
qed

lemma syncEntityFTS_frame [simp]:
  "entities (syncEntityFTS e db) = entities db" "facts (syncEntityFTS e db) = facts db"
  "proposals (syncEntityFTS e db) = proposals db" "edges (syncEntityFTS e db) = edges db"
  "embeddings (syncEntityFTS e db) = embeddings db" "entity_labels (syncEntityFTS e db) = entity_labels db"
  "entity_external_ids (syncEntityFTS e db) = entity_external_ids db"
  by (simp_all add: syncEntityFTS_def insert_fts_def delete_fts_def split: option.split)

lemma fts_sync:
  assumes d: "distinct (map er_id (entities db))" and f: "distinct (map fst (entities_fts db))"
    and o: "\<And>r. r \<in> set (entities db) \<Longrightarrow> er_id r \<noteq> e \<Longrightarrow> fts_row r \<in> set (entities_fts db)"
  shows "fts_ok (entities db) (entities_fts (syncEntityFTS e db))"
proof (cases "get_entity_row db e")
  case None
  then have "\<And>r. r \<in> set (entities db) \<Longrightarrow> er_id r \<noteq> e"
    by (auto simp: get_entity_row_def lookup_row_None_iff)
  with o f None show ?thesis
    by (fastforce simp: fts_ok_def syncEntityFTS_def delete_fts_def distinct_map_filter fts_row_def)
next
  case (Some r)
  then have r: "r \<in> set (entities db)" "er_id r = e"
    by (auto simp: get_entity_row_def dest: lookup_row_SomeD)
  have "fts_row s \<in> set (entities_fts (syncEntityFTS e db))" if "s \<in> set (entities db)" for s
  proof (cases "er_id s = e")
    case True
    with that r d have "s = r" using distinct_map_inj_on [of er_id "entities db" s r] by simp
    with Some r(2) show ?thesis by (simp add: syncEntityFTS_def insert_fts_def fts_row_def)
  next
    case False
    with o [OF that] Some show ?thesis
      by (simp add: syncEntityFTS_def insert_fts_def delete_fts_def) (simp add: fts_row_def)
  qed
  moreover have "distinct (map fst (entities_fts (syncEntityFTS e db)))"
    using f Some by (auto simp: syncEntityFTS_def insert_fts_def delete_fts_def distinct_map_filter)
  ultimately show ?thesis by (auto simp: fts_ok_def)
qed

lemma wf_db_upsert [wf_intros]:
  assumes "wf_db db" and "upsertEntitySnapshot e ts db = Inr db'"
  shows "wf_db db'"
  using assms(2)
proof (rule upsertEntitySnapshotE)
  fix db1 db2 db3
  assume s: "upsert_row e ts db = Inr db1"
    "rfold (\<lambda>x. insert_ext_or_ignore (ext_to_row e x)) (E_ExternalIDs e) db1 = Inr db2"
    "rfold (\<lambda>m. insert_emb_or_replace (emb_to_row e m)) (E_Embeddings e) db2 = Inr db3"
    and db': "db' = syncEntityFTS (E_ID e) db3"
  have wf': "wf_tables db'" using assms by (auto simp: wf_db_def intro: wf_upsertEntitySnapshot)
  have fr: "entities db3 = entities db1" "entities_fts db3 = entities_fts db"
    using insert_exts_frame [OF s(2)] insert_embs_frame [OF s(3)] upsert_row_frame [OF s(1)] by simp_all
  from assms(1) have f: "fts_ok (entities db) (entities_fts db)" by (simp add: wf_db_def)
  have "fts_ok (entities db3) (entities_fts (syncEntityFTS (E_ID e) db3))"
  proof (rule fts_sync)
    show "distinct (map er_id (entities db3))"
      using wf' by (simp add: db' wf_tables_def entities_ok_def)
    show "distinct (map fst (entities_fts db3))" using f by (simp add: fr fts_ok_def)
    fix r assume "r \<in> set (entities db3)" "er_id r \<noteq> E_ID e"
    with upsert_row_others [OF s(1)] fr have "r \<in> set (entities db)" by simp
    with f show "fts_row r \<in> set (entities_fts db3)" by (auto simp: fr fts_ok_def)
  qed
  with wf' show ?thesis by (simp add: wf_db_def db')
qed

lemma fts_ok_delete:
  "fts_ok rows fts \<Longrightarrow> fts_ok (filter (\<lambda>r. er_id r \<noteq> e) rows) (filter (\<lambda>t. fst t \<noteq> e) fts)"
  by (auto simp: fts_ok_def distinct_map_filter fts_row_def)

lemma wf_db_merged:
  assumes "wf_db db" and "has_entity db k" and "k \<noteq> g"
  shows "wf_db (merged k g ts db)"
proof -
  have "wf_tables (merged k g ts db)"
    using wf_mergeEntitiesTx [of db k g ts] merge_refines [of db k g ts] assms by (simp add: wf_db_def)
  moreover have "fts_row ` set (entities (merged k g ts db))
      = fts_row ` set (filter (\<lambda>r. er_id r \<noteq> g) (entities db))"
    unfolding merged_entities by (rule image_map_if) (simp add: fts_row_def)
  then have "fts_ok (entities (merged k g ts db)) (entities_fts (merged k g ts db))"
    using fts_ok_delete [of "entities db" "entities_fts db" g] assms(1)
    by (simp add: fts_ok_def wf_db_def) (simp add: merged_def)
  ultimately show ?thesis by (simp add: wf_db_def)
qed

section \<open>Properties\<close>

text \<open>C1: Merging loses nothing. On a well-formed database with the survivor present, the eleven
  statements of mergeEntitiesTx cannot fail, keep every constraint of the schema, remove exactly
  the merged entity, give the survivor the external keys and embedding keys of both, leave the
  keys of every other entity as they were, and re-point every edge of the merged entity.\<close>

theorem merge_loses_nothing:
  assumes "wf_db db" and "has_entity db keep" and "keep \<noteq> gone"
  shows "\<exists>db'. mergeEntitiesTx keep gone ts db = Inr db' \<and> wf_db db' \<and> ids db' = ids db - {gone} \<and>
    xr_key ` set (filter (\<lambda>x. xr_entity x = keep) (entity_external_ids db')) =
      xr_key ` set (filter (\<lambda>x. xr_entity x = keep \<or> xr_entity x = gone) (entity_external_ids db)) \<and>
    mr_key ` set (filter (\<lambda>m. mr_entity m = keep) (embeddings db')) =
      mr_key ` set (filter (\<lambda>m. mr_entity m = keep \<or> mr_entity m = gone) (embeddings db)) \<and>
    (\<forall>e. e \<noteq> keep \<and> e \<noteq> gone \<longrightarrow> filter (\<lambda>x. xr_entity x = e) (entity_external_ids db') =
       filter (\<lambda>x. xr_entity x = e) (entity_external_ids db)) \<and>
    edges db' = map (repoint keep gone) (edges db) \<and> facts db' = facts db"
proof (intro exI conjI)
  show "mergeEntitiesTx keep gone ts db = Inr (merged keep gone ts db)"
    using assms by (intro merge_refines) (simp_all add: wf_db_def)
  show "wf_db (merged keep gone ts db)" by (rule wf_db_merged [OF assms])
qed (simp_all add: merged_ids, simp_all add: merged_def xt.moved_keys [simplified] mt.moved_keys [simplified] xt.moved_others assms(3))

theorem merge_loses_nothing_witness:
  "\<exists>db'. mergeEntitiesTx ''a'' ''b'' 7 sample_db = Inr db' \<and> ids db' = {''a'', ''c''} \<and>
     xr_key ` set (filter (\<lambda>x. xr_entity x = ''a'') (entity_external_ids db')) = {''tmdb:1'', ''imdb:2''}"
proof -
  have k: "xr_key ` set (filter (\<lambda>x. xr_entity x = ''a'' \<or> xr_entity x = ''b'') (entity_external_ids sample_db))
      = {''tmdb:1'', ''imdb:2''}"
    by (simp add: sample_defs Key_def)
  have i: "ids sample_db - {''b''} = {''a'', ''c''}" by auto
  show ?thesis
    using merge_loses_nothing [of sample_db "''a''" "''b''" 7] unfolding k i by (auto simp: wf_sample)
qed

end
