(* ===== verification/Jdx_Read.thy ===== *)
theory Jdx_Read
  imports Jdx_Snapshot
begin

text \<open>
  The reads of \<open>entities.go\<close> and \<open>edges.go\<close>: rows back to domain values, reads by id, and the
  access-filtered reads. A query without ORDER BY returns its rows in an order SQLite does not
  promise: the argument \<open>ord\<close> stands for it.
\<close>

section \<open>Rows to domain values\<close>

definition scanEntity :: "entity_row \<Rightarrow> entity" where
  "scanEntity r = \<lparr>E_ID = er_id r, E_Type = er_type r, E_Props = RawDoc (er_props r),
     E_ExternalIDs = [], E_Provenance = prov_of_cols (er_prov r), E_Space = er_space r,
     E_Owner = er_owner r, E_Visibility = er_vis r, E_Embeddings = [],
     E_CreatedAt = parseTS (er_created_at r), E_UpdatedAt = parseTS (er_updated_at r),
     E_Deleted = False\<rparr>"

definition loadEntityChildren :: "db \<Rightarrow> entity \<Rightarrow> entity" where
  "loadEntityChildren db e =
     e\<lparr>E_ExternalIDs := E_ExternalIDs e @
         map (\<lambda>x. \<lparr>Scheme = xr_scheme x, Value = xr_value x\<rparr>)
           (sort_key xr_key (filter (\<lambda>x. xr_entity x = E_ID e) (entity_external_ids db))),
       E_Embeddings := E_Embeddings e @
         map (\<lambda>m. \<lparr>Model = mr_model m, Field = mr_field m, Vector = decodeVec (mr_vector m)\<rparr>)
           (sort_key mr_key (filter (\<lambda>m. mr_entity m = E_ID e) (embeddings db)))\<rparr>"

definition load_row :: "db \<Rightarrow> entity_row \<Rightarrow> entity" where
  "load_row db r = loadEntityChildren db (scanEntity r)"

definition getEntityByID :: "db \<Rightarrow> entity_id \<Rightarrow> entity res" where
  "getEntityByID db e = (case get_entity_row db e of
       None \<Rightarrow> Inl ErrNotFound
     | Some r \<Rightarrow> Inr (load_row db r))"

definition scanEdge :: "edge_row \<Rightarrow> edge" where
  "scanEdge r = \<lparr>D_ID = dr_id r, D_Predicate = dr_predicate r, D_From = dr_from r, D_To = dr_to r,
     D_Props = (case dr_props r of None \<Rightarrow> RawEmpty | Some j \<Rightarrow> RawDoc j),
     D_Provenance = prov_of_cols (dr_prov r), D_Space = dr_space r, D_Owner = dr_owner r,
     D_Visibility = dr_vis r, D_CreatedAt = parseTS (dr_created_at r), D_Deleted = False\<rparr>"

definition getEdgeByID :: "db \<Rightarrow> edge_id \<Rightarrow> edge res" where
  "getEdgeByID db e = (case lookup_row dr_id e (edges db) of
       None \<Rightarrow> Inl ErrNotFound
     | Some r \<Rightarrow> Inr (scanEdge r))"

section \<open>Access-filtered reads\<close>

definition guard_entity :: "entity_row \<Rightarrow> guarded" where
  "guard_entity r = \<lparr>G_Space = er_space r, G_Owner = er_owner r, G_Visibility = er_vis r,
     G_Type = er_type r, G_Predicate = []\<rparr>"

definition guard_edge :: "edge_row \<Rightarrow> guarded" where
  "guard_edge d = \<lparr>G_Space = dr_space d, G_Owner = dr_owner d, G_Visibility = dr_vis d,
     G_Type = [], G_Predicate = dr_predicate d\<rparr>"

definition node_visible :: "acl_filter \<Rightarrow> entity_row \<Rightarrow> bool" where
  "node_visible af r = accessWhere af (guard_entity r)"

definition edge_visible :: "acl_filter \<Rightarrow> edge_row \<Rightarrow> bool" where
  "edge_visible af d = accessWhereEdge af (guard_edge d)"

definition GetEntity :: "acl_filter \<Rightarrow> entity_id \<Rightarrow> db \<Rightarrow> entity res" where
  "GetEntity af e db = (case find (\<lambda>r. er_id r = e \<and> node_visible af r) (entities db) of
       None \<Rightarrow> Inl ErrNotFound
     | Some r \<Rightarrow> Inr (load_row db r))"

definition ResolveByExternalID ::
    "(entity_row list \<Rightarrow> entity_row list) \<Rightarrow> acl_filter \<Rightarrow> string list \<Rightarrow> db \<Rightarrow> entity list" where
  "ResolveByExternalID ord af keys db =
     (if keys = [] then []
      else map (load_row db) (ord (filter
        (\<lambda>r. list_ex (\<lambda>x. xr_entity x = er_id r \<and> List.member keys (xr_key x)) (entity_external_ids db) \<and>
             node_visible af r) (entities db))))"

section \<open>Lemmas\<close>

lemma load_row_sel [simp]:
  "E_ID (load_row db r) = er_id r" "E_Type (load_row db r) = er_type r"
  "E_Props (load_row db r) = RawDoc (er_props r)" "E_Space (load_row db r) = er_space r"
  "E_Owner (load_row db r) = er_owner r" "E_Visibility (load_row db r) = er_vis r"
  "E_Provenance (load_row db r) = prov_of_cols (er_prov r)"
  by (simp_all add: load_row_def loadEntityChildren_def scanEntity_def)

lemma load_row_children:
  assumes "wf_tables db"
  shows "set (ExternalKeys (load_row db r)) =
    xr_key ` set (filter (\<lambda>x. xr_entity x = er_id r) (entity_external_ids db))"
  using assms
  by (auto simp: load_row_def loadEntityChildren_def scanEntity_def ExternalKeys_def wf_tables_def
      ext_ok_def image_image)

lemma get_entity_row_iff:
  assumes "wf_tables db"
  shows "get_entity_row db e = Some r \<longleftrightarrow> r \<in> set (entities db) \<and> er_id r = e"
  using assms by (simp add: get_entity_row_def lookup_row_Some_iff wf_tables_def entities_ok_def)

lemma get_entity_row_None: "get_entity_row db e = None \<longleftrightarrow> e \<notin> ids db"
  by (simp add: get_entity_row_def lookup_row_None_iff ids_def)

lemma getEntityByID_total:
  assumes "e \<in> ids db"
  obtains r where "r \<in> set (entities db)" and "er_id r = e" and "getEntityByID db e = Inr (load_row db r)"
proof -
  from assms obtain r where "get_entity_row db e = Some r"
    using get_entity_row_None [of db e] by (cases "get_entity_row db e") auto
  then show thesis
    using that by (auto simp: getEntityByID_def get_entity_row_def dest: lookup_row_SomeD)
qed

lemma GetEntity_Inr_iff:
  assumes "wf_tables db"
  shows "GetEntity af e db = Inr v \<longleftrightarrow>
    (\<exists>r. r \<in> set (entities db) \<and> er_id r = e \<and> node_visible af r \<and> v = load_row db r)"
proof -
  have F: "find (\<lambda>r. er_id r = e \<and> node_visible af r) (entities db) = Some r \<longleftrightarrow>
      r \<in> set (entities db) \<and> er_id r = e \<and> node_visible af r" for r
  proof
    assume r: "r \<in> set (entities db) \<and> er_id r = e \<and> node_visible af r"
    then obtain s where s: "find (\<lambda>r. er_id r = e \<and> node_visible af r) (entities db) = Some s"
      by (cases "find (\<lambda>r. er_id r = e \<and> node_visible af r) (entities db)") (auto simp: find_None_iff)
    then have "s \<in> set (entities db)" "er_id s = e" by (auto simp: find_Some_iff)
    with r assms have "s = r"
      using distinct_map_inj_on [of er_id "entities db" s r] by (simp add: wf_tables_def entities_ok_def)
    with s show "find (\<lambda>r. er_id r = e \<and> node_visible af r) (entities db) = Some r" by simp
  qed (auto simp: find_Some_iff)
  have "GetEntity af e db = Inr v \<longleftrightarrow>
      (\<exists>r. find (\<lambda>r. er_id r = e \<and> node_visible af r) (entities db) = Some r \<and> v = load_row db r)"
    by (auto simp: GetEntity_def split: option.splits)
  then show ?thesis by (simp add: F conj_assoc)
qed

lemma GetEntity_error: "GetEntity af e db = Inl x \<Longrightarrow> x = ErrNotFound"
  by (auto simp: GetEntity_def split: option.splits)

end
