(* ===== verification/Jdx_Search.thy ===== *)
theory Jdx_Search
  imports Jdx_Read
begin

text \<open>
  Vector and full-text search (\<open>search.go\<close>, \<open>fts.go\<close>). Scores are real numbers. SQLite's FTS5
  is not part of the source: \<open>fts_match\<close> (which texts a MATCH expression selects, or its error)
  and \<open>bm25\<close> (the rank of a text for an expression over the indexed rows) are parameters.
\<close>

section \<open>Cosine similarity\<close>

definition cos_acc :: "(f32bits \<Rightarrow> f32bits \<Rightarrow> real) \<Rightarrow> f32bits list \<Rightarrow> f32bits list \<Rightarrow> real" where
  "cos_acc f a b = foldl (\<lambda>acc p. acc + f (fst p) (snd p)) 0 (zip a b)"

definition cosine :: "f32bits list \<Rightarrow> f32bits list \<Rightarrow> real" where
  "cosine a b =
     (if length a \<noteq> length b \<or> length a = 0 then 0
      else
        let dotp = cos_acc (\<lambda>x y. f32_val x * f32_val y) a b;
            na = cos_acc (\<lambda>x y. f32_val x * f32_val x) a b;
            nb = cos_acc (\<lambda>x y. f32_val y * f32_val y) a b
        in if na = 0 \<or> nb = 0 then 0 else dotp / (sqrt na * sqrt nb))"

section \<open>Best score per entity\<close>

text \<open>The Go map \<open>best\<close> as an association list; the order of its keys does not reach the result.\<close>

fun best_put :: "entity_id \<Rightarrow> real \<Rightarrow> (entity_id \<times> real) list \<Rightarrow> (entity_id \<times> real) list" where
  "best_put e c [] = [(e, c)]"
| "best_put e c ((i, s) # xs) =
     (if i = e then (i, if c > s then c else s) # xs else (i, s) # best_put e c xs)"

definition knn_rows ::
    "string \<Rightarrow> etype \<Rightarrow> acl_filter option \<Rightarrow> db \<Rightarrow> (emb_row \<times> entity_row) list" where
  "knn_rows model typ af db =
     concat (map (\<lambda>m. map (\<lambda>e. (m, e)) (filter (\<lambda>e. er_id e = mr_entity m \<and> mr_model m = model \<and>
         (typ = [] \<or> er_type e = typ) \<and> (case af of None \<Rightarrow> True | Some f \<Rightarrow> node_visible f e)) (entities db)))
       (embeddings db))"

definition score_key :: "scored_match \<Rightarrow> real \<times> entity_id" where
  "score_key m = (- SM_Score m, SM_ID m)"

definition cap :: "int \<Rightarrow> 'a list \<Rightarrow> 'a list" where
  "cap limit xs = (if limit > 0 \<and> int (length xs) > limit then take (nat limit) xs else xs)"

definition knnByModel ::
    "string \<Rightarrow> etype \<Rightarrow> acl_filter option \<Rightarrow> f32bits list \<Rightarrow> int \<Rightarrow> db \<Rightarrow> scored_match list" where
  "knnByModel model typ af query limit db =
     (let best = foldl (\<lambda>acc p. best_put (mr_entity (fst p)) (cosine query (decodeVec (mr_vector (fst p)))) acc)
                   [] (knn_rows model typ af db);
          out = map (\<lambda>p. \<lparr>SM_ID = fst p, SM_Score = snd p\<rparr>) best
      in cap limit (sort_key score_key out))"

record vector_query =
  VQ_Vector :: "f32bits list"
  VQ_Model :: string
  VQ_Type :: etype
  VQ_Limit :: int

record text_query =
  TQ_Text :: string
  TQ_Type :: etype
  TQ_Limit :: int

record scored_entity =
  SE_Entity :: entity
  SE_Score :: real

definition SemanticSearch :: "acl_filter \<Rightarrow> vector_query \<Rightarrow> db \<Rightarrow> scored_entity list res" where
  "SemanticSearch af q db =
     (if VQ_Model q = [] \<or> length (VQ_Vector q) = 0 then Inr []
      else rmap (\<lambda>m. rbind (getEntityByID db (SM_ID m)) (\<lambda>e. Inr \<lparr>SE_Entity = e, SE_Score = SM_Score m\<rparr>))
        (knnByModel (VQ_Model q) (VQ_Type q) (Some af) (VQ_Vector q) (VQ_Limit q) db))"

section \<open>Full-text search\<close>

definition fts_rows ::
    "(string \<Rightarrow> bool) \<Rightarrow> acl_filter \<Rightarrow> etype \<Rightarrow> db \<Rightarrow> (entity_row \<times> string) list" where
  "fts_rows m af typ db =
     concat (map (\<lambda>t. map (\<lambda>e. (e, snd t)) (filter (\<lambda>e. er_id e = fst t \<and> m (snd t) \<and>
         node_visible af e \<and> (typ = [] \<or> er_type e = typ)) (entities db)))
       (entities_fts db))"

definition FullTextSearch ::
    "(string \<Rightarrow> (string \<Rightarrow> bool) res) \<Rightarrow> ((entity_id \<times> string) list \<Rightarrow> string \<Rightarrow> string \<Rightarrow> real) \<Rightarrow>
     ((entity_row \<times> string) list \<Rightarrow> (entity_row \<times> string) list) \<Rightarrow>
     acl_filter \<Rightarrow> text_query \<Rightarrow> db \<Rightarrow> scored_entity list res" where
  "FullTextSearch fts_match bm25 ord af q db =
     (if TrimSpace (TQ_Text q) = [] then Inr []
      else
        let limit = (if TQ_Limit q \<le> 0 then 20 else TQ_Limit q);
            rank = (\<lambda>p. bm25 (entities_fts db) (TQ_Text q) (snd p)) in
        rbind (fts_match (TQ_Text q)) (\<lambda>m.
          rmap (\<lambda>p. rbind (getEntityByID db (er_id (fst p)))
                 (\<lambda>e. Inr \<lparr>SE_Entity = e, SE_Score = - rank p\<rparr>))
            (take (nat limit) (sort_key rank (ord (fts_rows m af (TQ_Type q) db))))))"

section \<open>Cosine is a cosine\<close>

lemma cos_acc_sum: "cos_acc f a b = sum_list (map (\<lambda>p. f (fst p) (snd p)) (zip a b))"
proof -
  have "foldl (\<lambda>acc p. acc + f (fst p) (snd p)) c zs = c + sum_list (map (\<lambda>p. f (fst p) (snd p)) zs)"
    for c zs
    by (induction zs arbitrary: c) simp_all
  then show ?thesis by (simp add: cos_acc_def)
qed

lemma abs_le_sqrt_mult: "d\<^sup>2 \<le> a * b \<Longrightarrow> \<bar>d\<bar> \<le> sqrt a * sqrt b" for a b d :: real
  using real_sqrt_le_mono [of "d\<^sup>2" "a * b"] by (simp add: real_sqrt_mult)

lemma cauchy_schwarz_step:
  fixes a b d x y :: real
  assumes "d\<^sup>2 \<le> a * b" and "0 \<le> a" and "0 \<le> b"
  shows "(x * y + d)\<^sup>2 \<le> (x * x + a) * (y * y + b)"
proof -
  have "x * y * d \<le> \<bar>x * y * d\<bar>" by simp
  also have "\<dots> = \<bar>x\<bar> * \<bar>y\<bar> * \<bar>d\<bar>" by (simp add: abs_mult)
  also have "\<dots> \<le> \<bar>x\<bar> * \<bar>y\<bar> * (sqrt a * sqrt b)"
    by (intro mult_left_mono abs_le_sqrt_mult assms(1)) simp
  finally have "2 * (x * y * d) \<le> 2 * (\<bar>x\<bar> * sqrt b) * (\<bar>y\<bar> * sqrt a)" by (simp add: ac_simps)
  also have "\<dots> \<le> (\<bar>x\<bar> * sqrt b)\<^sup>2 + (\<bar>y\<bar> * sqrt a)\<^sup>2" by (rule sum_squares_bound)
  also have "\<dots> = x * x * b + y * y * a"
    using assms(2,3) by (simp add: power_mult_distrib) (simp add: power2_eq_square)
  finally show ?thesis using assms(1) by (simp add: power2_eq_square algebra_simps)
qed

lemma sum_list_squares: "0 \<le> sum_list (map (\<lambda>p. u p * u p) zs)" for u :: "'p \<Rightarrow> real"
  by (induction zs) simp_all

lemma cauchy_schwarz_list:
  fixes u v :: "'p \<Rightarrow> real"
  shows "(sum_list (map (\<lambda>p. u p * v p) zs))\<^sup>2 \<le>
    sum_list (map (\<lambda>p. u p * u p) zs) * sum_list (map (\<lambda>p. v p * v p) zs)"
  by (induction zs) (simp_all add: cauchy_schwarz_step sum_list_squares)

lemma cosine_bounds: "\<bar>cosine a b\<bar> \<le> 1"
proof -
  let ?zs = "zip a b"
  let ?d = "sum_list (map (\<lambda>p. f32_val (fst p) * f32_val (snd p)) ?zs)"
    and ?na = "sum_list (map (\<lambda>p. f32_val (fst p) * f32_val (fst p)) ?zs)"
    and ?nb = "sum_list (map (\<lambda>p. f32_val (snd p) * f32_val (snd p)) ?zs)"
  have "?d\<^sup>2 \<le> ?na * ?nb"
    using cauchy_schwarz_list [of "\<lambda>p. f32_val (fst p)" "\<lambda>p. f32_val (snd p)" ?zs] by simp
  then have "\<bar>?d\<bar> \<le> sqrt ?na * sqrt ?nb" by (rule abs_le_sqrt_mult)
  moreover have "0 \<le> sqrt ?na * sqrt ?nb"
    using sum_list_squares [of "\<lambda>p. f32_val (fst p)" ?zs] sum_list_squares [of "\<lambda>p. f32_val (snd p)" ?zs]
    by simp
  ultimately have "\<bar>?d / (sqrt ?na * sqrt ?nb)\<bar> \<le> 1"
    by (cases "sqrt ?na * sqrt ?nb = 0") (auto simp: abs_divide abs_of_nonneg divide_le_eq_1 less_le)
  then show ?thesis by (simp add: cosine_def cos_acc_sum Let_def)
qed

lemma cos_acc_swap: "length a = length b \<Longrightarrow> cos_acc f a b = cos_acc (\<lambda>x y. f y x) b a"
  unfolding cos_acc_sum by (induction a b rule: list_induct2) simp_all

lemma cosine_sym: "cosine a b = cosine b a"
proof (cases "length a = length b")
  case True
  then show ?thesis
    using cos_acc_swap [OF True, of "\<lambda>x y. f32_val x * f32_val y"]
      cos_acc_swap [OF True, of "\<lambda>x y. f32_val x * f32_val x"]
      cos_acc_swap [OF True, of "\<lambda>x y. f32_val y * f32_val y"]
    by (simp add: cosine_def Let_def mult.commute)
qed (simp add: cosine_def)

section \<open>The k nearest neighbours\<close>

lemma best_put_fst: "fst ` set (best_put e c xs) = insert e (fst ` set xs)"
  by (induction e c xs rule: best_put.induct) auto

lemma best_put_distinct: "distinct (map fst xs) \<Longrightarrow> distinct (map fst (best_put e c xs))"
  by (induction e c xs rule: best_put.induct) (auto simp: best_put_fst)

lemma best_put_map_of:
  "map_of (best_put e c xs) k =
     (if k = e then Some (case map_of xs e of None \<Rightarrow> c | Some s \<Rightarrow> max s c) else map_of xs k)"
  by (induction e c xs rule: best_put.induct) (auto simp: max_def)

definition best_of :: "(entity_id \<times> real) list \<Rightarrow> (entity_id \<times> real) list" where
  "best_of xs = foldl (\<lambda>acc p. best_put (fst p) (snd p) acc) [] xs"

lemma best_of_snoc: "best_of (xs @ [p]) = best_put (fst p) (snd p) (best_of xs)"
  by (simp add: best_of_def)

lemma best_of_Nil: "best_of [] = []"
  by (simp add: best_of_def)

lemma best_of_distinct: "distinct (map fst (best_of xs))"
  by (induction xs rule: rev_induct) (simp_all add: best_of_snoc best_of_Nil best_put_distinct)

lemma best_of_fst: "fst ` set (best_of xs) = fst ` set xs"
  by (induction xs rule: rev_induct) (simp_all add: best_of_snoc best_of_Nil best_put_fst)

lemma best_of_map_of:
  "map_of (best_of xs) e = Some s \<longleftrightarrow> (e, s) \<in> set xs \<and> (\<forall>t. (e, t) \<in> set xs \<longrightarrow> t \<le> s)"
proof (induction xs arbitrary: s rule: rev_induct)
  case Nil
  then show ?case by (simp add: best_of_Nil)
next
  case (snoc p xs)
  have none: "map_of (best_of xs) e = None \<longleftrightarrow> (\<forall>t. (e, t) \<notin> set xs)"
    by (simp add: map_of_eq_None_iff best_of_fst) force
  obtain i c where p: "p = (i, c)" by (cases p)
  show ?case
  proof (cases "i = e")
    case False
    with snoc.IH p show ?thesis by (auto simp: best_of_snoc best_put_map_of)
  next
    case True
    show ?thesis
    proof (cases "map_of (best_of xs) e")
      case None
      with none True p show ?thesis by (auto simp: best_of_snoc best_put_map_of)
    next
      case (Some t)
      with snoc.IH [of t] have t: "(e, t) \<in> set xs" "\<forall>u. (e, u) \<in> set xs \<longrightarrow> u \<le> t" by simp_all
      have "(e, s) \<in> set (xs @ [p]) \<and> (\<forall>u. (e, u) \<in> set (xs @ [p]) \<longrightarrow> u \<le> s) \<longleftrightarrow> max t c = s"
      proof
        assume "max t c = s"
        with t True p show "(e, s) \<in> set (xs @ [p]) \<and> (\<forall>u. (e, u) \<in> set (xs @ [p]) \<longrightarrow> u \<le> s)"
          by (fastforce simp: max_def split: if_splits)
      next
        assume a: "(e, s) \<in> set (xs @ [p]) \<and> (\<forall>u. (e, u) \<in> set (xs @ [p]) \<longrightarrow> u \<le> s)"
        then have "t \<le> s" "c \<le> s" "s = c \<or> s \<le> t" using t True p by auto
        then show "max t c = s" by linarith
      qed
      with Some True p show ?thesis by (simp add: best_of_snoc best_put_map_of)
    qed
  qed
qed

lemma best_of_char:
  "(e, s) \<in> set (best_of xs) \<longleftrightarrow> (e, s) \<in> set xs \<and> (\<forall>t. (e, t) \<in> set xs \<longrightarrow> t \<le> s)"
  using best_of_map_of [of xs e s] best_of_distinct [of xs] by (simp add: map_of_eq_Some_iff)

definition knn_scores ::
    "string \<Rightarrow> etype \<Rightarrow> acl_filter option \<Rightarrow> f32bits list \<Rightarrow> db \<Rightarrow> (entity_id \<times> real) list" where
  "knn_scores model typ af query db =
     map (\<lambda>p. (mr_entity (fst p), cosine query (decodeVec (mr_vector (fst p))))) (knn_rows model typ af db)"

lemma knnByModel_best:
  "knnByModel model typ af query limit db =
     cap limit (sort_key score_key (map (\<lambda>p. \<lparr>SM_ID = fst p, SM_Score = snd p\<rparr>)
       (best_of (knn_scores model typ af query db))))"
  by (simp add: knnByModel_def best_of_def knn_scores_def Let_def foldl_map)

lemma knn_rows_iff:
  "(m, e) \<in> set (knn_rows model typ af db) \<longleftrightarrow> m \<in> set (embeddings db) \<and> e \<in> set (entities db) \<and>
     er_id e = mr_entity m \<and> mr_model m = model \<and> (typ = [] \<or> er_type e = typ) \<and>
     (\<forall>f. af = Some f \<longrightarrow> node_visible f e)"
  by (auto simp: knn_rows_def split: option.splits)

lemma set_cap: "set (cap limit xs) \<subseteq> set xs"
  by (auto simp: cap_def dest: in_set_takeD)

lemma cap_prefix: "\<exists>ys. xs = cap limit xs @ ys"
  by (auto simp: cap_def) (metis append_take_drop_id)

lemma length_cap: "limit > 0 \<Longrightarrow> int (length (cap limit xs)) \<le> limit"
  by (auto simp: cap_def)

text \<open>Every result is an entity of the queried model, type and visibility, with its best score.\<close>

lemma knn_sound:
  assumes "m \<in> set (knnByModel model typ af query limit db)"
  shows "\<exists>r e. r \<in> set (embeddings db) \<and> e \<in> set (entities db) \<and> er_id e = SM_ID m \<and>
    mr_entity r = SM_ID m \<and> mr_model r = model \<and> (typ = [] \<or> er_type e = typ) \<and>
    (\<forall>f. af = Some f \<longrightarrow> node_visible f e) \<and> SM_Score m = cosine query (decodeVec (mr_vector r))"
proof -
  from assms have "(SM_ID m, SM_Score m) \<in> set (best_of (knn_scores model typ af query db))"
    using set_cap by (fastforce simp: knnByModel_best)
  then have "(SM_ID m, SM_Score m) \<in> set (knn_scores model typ af query db)"
    by (simp add: best_of_char)
  then obtain r e where re: "(r, e) \<in> set (knn_rows model typ af db)" "mr_entity r = SM_ID m"
      "SM_Score m = cosine query (decodeVec (mr_vector r))"
    by (auto simp: knn_scores_def)
  from re(1) show ?thesis
    unfolding knn_rows_iff by (intro exI [of _ r] exI [of _ e]) (simp add: re(2,3))
qed

lemma knn_best:
  assumes "m \<in> set (knnByModel model typ af query limit db)"
    and "(r, e) \<in> set (knn_rows model typ af db)" and "mr_entity r = SM_ID m"
  shows "cosine query (decodeVec (mr_vector r)) \<le> SM_Score m"
proof -
  from assms(1) have "(SM_ID m, SM_Score m) \<in> set (best_of (knn_scores model typ af query db))"
    using set_cap by (fastforce simp: knnByModel_best)
  moreover from assms(2,3) have
    "(SM_ID m, cosine query (decodeVec (mr_vector r))) \<in> set (knn_scores model typ af query db)"
    by (force simp: knn_scores_def)
  ultimately show ?thesis by (simp add: best_of_char)
qed

lemma knn_prefix:
  obtains rest where "sort_key score_key (map (\<lambda>p. \<lparr>SM_ID = fst p, SM_Score = snd p\<rparr>)
       (best_of (knn_scores model typ af query db))) = knnByModel model typ af query limit db @ rest"
  using cap_prefix unfolding knnByModel_best by blast

lemma knn_distinct: "distinct (map SM_ID (knnByModel model typ af query limit db))"
proof (rule knn_prefix [of model "typ" af query db limit])
  fix ys
  let ?b = "best_of (knn_scores model typ af query db)"
  assume eq: "sort_key score_key (map (\<lambda>p. \<lparr>SM_ID = fst p, SM_Score = snd p\<rparr>) ?b) =
      knnByModel model typ af query limit db @ ys"
  have "mset (map SM_ID (sort_key score_key (map (\<lambda>p. \<lparr>SM_ID = fst p, SM_Score = snd p\<rparr>) ?b)))
      = mset (map fst ?b)"
    by (simp add: image_mset.compositionality comp_def)
  then have "distinct (map SM_ID (sort_key score_key (map (\<lambda>p. \<lparr>SM_ID = fst p, SM_Score = snd p\<rparr>) ?b)))"
    using best_of_distinct mset_eq_imp_distinct_iff by blast
  then show ?thesis unfolding eq by simp
qed

lemma knn_sorted: "sorted (map score_key (knnByModel model typ af query limit db))"
proof (rule knn_prefix [of model "typ" af query db limit])
  fix ys
  assume eq: "sort_key score_key (map (\<lambda>p. \<lparr>SM_ID = fst p, SM_Score = snd p\<rparr>)
        (best_of (knn_scores model typ af query db))) = knnByModel model typ af query limit db @ ys"
  have "sorted (map score_key (knnByModel model typ af query limit db @ ys))"
    unfolding eq [symmetric] by simp
  then show ?thesis by (simp add: sorted_append)
qed

section \<open>Properties\<close>

text \<open>A cosine similarity is symmetric and lies in [-1, 1] whatever the vectors are, also for
  vectors of different lengths and for zero vectors, where it is 0.\<close>

theorem cosine_range: "\<bar>cosine a b\<bar> \<le> 1 \<and> cosine a b = cosine b a \<and> cosine [] b = 0"
  by (simp add: cosine_bounds cosine_sym) (simp add: cosine_def)



end
