(* ===== verification/Jdx_Entities.thy ===== *)
theory Jdx_Entities
  imports Jdx_Search
begin

text \<open>
  The entity writes of \<open>entities.go\<close>: \<open>AppendEntityFact\<close> (resolve-before-create and the three
  ways of applying its verdict), \<open>MergeEntities\<close>, \<open>RetractEntity\<close>. Each is one transaction: on
  an error the database is the one it started from. A Go result pair is a pair here too, because
  a replay returns both a result and \<open>ErrDuplicateFact\<close>. The calls of \<open>s.now()\<close> and
  \<open>s.newID()\<close> are numbered in the order the code makes them.
\<close>

section \<open>Results\<close>

record resolve_result =
  RR_Entity :: entity
  RR_Action :: "resolve_action option"
  RR_MatchKind :: "match_kind option"
  RR_MergedFrom :: "entity_id list"

definition provenance0 :: provenance where
  "provenance0 = \<lparr>Asserter = [], Method = MethodOther [], Source = [], Confidence = 0, AssertedAt = 0\<rparr>"

definition entity0 :: entity where
  "entity0 = \<lparr>E_ID = [], E_Type = [], E_Props = RawEmpty, E_ExternalIDs = [],
     E_Provenance = provenance0, E_Space = [], E_Owner = [], E_Visibility = VisOther [],
     E_Embeddings = [], E_CreatedAt = 0, E_UpdatedAt = 0, E_Deleted = False\<rparr>"

definition result0 :: resolve_result where
  "result0 = \<lparr>RR_Entity = entity0, RR_Action = None, RR_MatchKind = None, RR_MergedFrom = []\<rparr>"

section \<open>Appending facts\<close>

definition appendEntityFact ::
    "string \<Rightarrow> entity \<Rightarrow> writer_id \<Rightarrow> string \<Rightarrow> principal_id \<Rightarrow> time \<Rightarrow> db \<Rightarrow> db res" where
  "appendEntityFact nid snapshot writer dedupeKey actor ts db =
     rbind (marshal_entity snapshot) (\<lambda>payload.
       insertFact nid FactEntityAsserted (E_ID snapshot) writer dedupeKey payload actor ts db)"

definition appendMergeFact ::
    "string \<Rightarrow> entity_id \<Rightarrow> entity_id \<Rightarrow> writer_id \<Rightarrow> string \<Rightarrow> principal_id \<Rightarrow> time \<Rightarrow> db \<Rightarrow> db res" where
  "appendMergeFact nid keep gone writer dedupeKey actor ts db =
     insertFact nid FactEntityMerged gone writer dedupeKey (PMerge keep gone) actor ts db"

section \<open>Resolve inputs\<close>

definition externalHitsTx :: "space_id \<Rightarrow> string list \<Rightarrow> db \<Rightarrow> entity_id list" where
  "externalHitsTx space keys db =
     (if keys = [] then []
      else map er_id (sort_key (\<lambda>e. (er_created_at e, er_id e))
        (filter (\<lambda>e. list_ex (\<lambda>x. xr_entity x = er_id e \<and> xr_space x = space \<and>
            List.member keys (xr_key x)) (entity_external_ids db)) (entities db))))"

definition resolveNeighbors :: "resolve_policy \<Rightarrow> entity_id list \<Rightarrow> entity \<Rightarrow> db \<Rightarrow> scored_match list" where
  "resolveNeighbors policy extHits cand db =
     (if policy = ResolveAuto \<and> extHits = [] then
        (case E_Embeddings cand of [] \<Rightarrow> []
         | emb # _ \<Rightarrow> knnByModel (Model emb) (E_Type cand) None (Vector emb) 5 db)
      else [])"

section \<open>Applying the verdict\<close>

definition flag_edge :: "env \<Rightarrow> string \<Rightarrow> entity \<Rightarrow> writer_id \<Rightarrow> entity_id \<Rightarrow> real \<Rightarrow> time \<Rightarrow> edge" where
  "flag_edge env eid cand writer flagTo score ts =
     \<lparr>D_ID = eid, D_Predicate = ''sameAs?'', D_From = E_ID cand, D_To = flagTo, D_Props = RawEmpty,
      D_Provenance = \<lparr>Asserter = writer, Method = Inferred, Source = ''resolve:vector-review'',
        Confidence = score, AssertedAt = ts\<rparr>,
      D_Space = E_Space cand, D_Owner = E_Owner cand, D_Visibility = E_Visibility cand,
      D_CreatedAt = 0, D_Deleted = False\<rparr>"

definition insert_new ::
    "env \<Rightarrow> nat \<Rightarrow> string \<Rightarrow> time \<Rightarrow> append_entity_input \<Rightarrow> entity \<Rightarrow> resolve_decision \<Rightarrow> db \<Rightarrow> (db \<times> entity_id) res" where
  "insert_new env k dk ts inp cand0 d db =
     (let cand = cand0\<lparr>E_ID := env_newID env k\<rparr> in
      rbind (upsertEntitySnapshot cand ts db) (\<lambda>db1.
      rbind (appendEntityFact (env_newID env (k + 1)) cand (AE_Writer inp) dk (AE_Actor inp) ts db1) (\<lambda>db2.
      if Action d = ActionInsertFlagged \<and> FlagTo d \<noteq> [] then
        let ed = flag_edge env (env_newID env (k + 2)) cand (AE_Writer inp) (FlagTo d) (FlagScore d) ts in
        rbind (upsertEdgeSnapshot ed ts db2) (\<lambda>db3.
        rbind (marshal_edge ed) (\<lambda>payload.
        rbind (insertFact (env_newID env (k + 3)) FactEdgeAsserted (D_ID ed) (AE_Writer inp)
                 (dk @ ''|sameas|'' @ FlagTo d) payload (AE_Actor inp) ts db3) (\<lambda>db4.
        Inr (db4, E_ID cand))))
      else Inr (db2, E_ID cand))))"

definition attach_to ::
    "env \<Rightarrow> nat \<Rightarrow> string \<Rightarrow> time \<Rightarrow> append_entity_input \<Rightarrow> entity \<Rightarrow> entity_id \<Rightarrow> db \<Rightarrow> (db \<times> entity_id) res" where
  "attach_to env k dk ts inp cand0 target db =
     (let cand = cand0\<lparr>E_ID := target\<rparr> in
      rbind (upsertEntitySnapshot cand ts db) (\<lambda>db1.
      rbind (appendEntityFact (env_newID env k) cand (AE_Writer inp) dk (AE_Actor inp) ts db1) (\<lambda>db2.
      Inr (db2, target))))"

definition merge_one ::
    "env \<Rightarrow> nat \<Rightarrow> string \<Rightarrow> time \<Rightarrow> append_entity_input \<Rightarrow> entity_id \<Rightarrow> nat \<times> entity_id \<Rightarrow> db \<Rightarrow> db res" where
  "merge_one env k dk ts inp keep p db =
     rbind (mergeEntitiesTx keep (snd p) ts db)
       (appendMergeFact (env_newID env (k + fst p)) keep (snd p) (AE_Writer inp)
          (dk @ ''|merge|'' @ snd p) (AE_Actor inp) ts)"

definition merge_all ::
    "env \<Rightarrow> nat \<Rightarrow> string \<Rightarrow> time \<Rightarrow> append_entity_input \<Rightarrow> entity \<Rightarrow> entity_id \<Rightarrow> entity_id list \<Rightarrow> db \<Rightarrow> (db \<times> entity_id) res" where
  "merge_all env k dk ts inp cand0 keep targets db =
     rbind (rfold (merge_one env k dk ts inp keep) (enumerate 0 (drop 1 targets)) db)
       (attach_to env (k + length (drop 1 targets)) dk ts inp cand0 keep)"

definition apply_decision ::
    "env \<Rightarrow> nat \<Rightarrow> string \<Rightarrow> time \<Rightarrow> append_entity_input \<Rightarrow> entity \<Rightarrow> resolve_decision \<Rightarrow> db \<Rightarrow> (db \<times> entity_id) res" where
  "apply_decision env k dk ts inp cand d db = (case Action d of
       ActionInsertNew \<Rightarrow> insert_new env k dk ts inp cand d db
     | ActionInsertFlagged \<Rightarrow> insert_new env k dk ts inp cand d db
     | ActionAttach \<Rightarrow> attach_to env k dk ts inp cand (Target d) db
     | ActionMerge \<Rightarrow> merge_all env k dk ts inp cand (Target d) (MergeTargets d) db)"

definition append_resolved ::
    "env \<Rightarrow> nat \<Rightarrow> string \<Rightarrow> time \<Rightarrow> append_entity_input \<Rightarrow> resolve_policy \<Rightarrow> entity \<Rightarrow> db \<Rightarrow> (db \<times> resolve_result) res" where
  "append_resolved env k dk ts inp policy cand db =
     (let extHits = externalHitsTx (E_Space cand) (ExternalKeys cand) db;
          neighbors = resolveNeighbors policy extHits cand db in
      rbind (Resolve cand \<lparr>ExternalIDHits = extHits, VectorNeighbors = neighbors\<rparr> policy (env_th env)) (\<lambda>d.
      rbind (apply_decision env k dk ts inp cand d db) (\<lambda>p.
      rbind (getEntityByID (fst p) (snd p)) (\<lambda>ent.
      Inr (fst p, \<lparr>RR_Entity = ent, RR_Action = Some (Action d), RR_MatchKind = Some (MatchKind d),
        RR_MergedFrom = drop 1 (MergeTargets d)\<rparr>)))))"

definition effective_policy :: "resolve_policy \<Rightarrow> resolve_policy" where
  "effective_policy p = (if p = PolicyOther [] then ResolveAuto else p)"

text \<open>The dedupe key of the write and how many ids were minted for it.\<close>

definition entity_dedupe_key :: "env \<Rightarrow> append_entity_input \<Rightarrow> string \<times> nat" where
  "entity_dedupe_key env inp =
     (if AE_DedupeKey inp \<noteq> [] then (AE_DedupeKey inp, 0)
      else
        let cand = AE_Candidate inp; name = extractName (E_Props cand) in
        if RandomKeyNeeded (E_ExternalIDs cand) name then (env_newID env 0, 1)
        else (DeriveDedupeKey (env_sha env) (E_Type cand) (E_ExternalIDs cand) name, 0))"

definition AppendEntityFact ::
    "env \<Rightarrow> append_entity_input \<Rightarrow> db \<Rightarrow> db \<times> resolve_result \<times> gerr option" where
  "AppendEntityFact env inp db =
     (let cand0 = AE_Candidate inp; policy = effective_policy (AE_Policy inp) in
      if \<not> KnownType (E_Type cand0) then (db, result0, Some ErrInvalidInput)
      else if \<not> Visibility_Valid (E_Visibility cand0) then (db, result0, Some ErrInvalidInput)
      else if \<not> Policy_Valid policy then (db, result0, Some ErrInvalidPolicy)
      else
        let cand = cand0\<lparr>E_Provenance := normalizeProvenance (E_Provenance cand0) (env_now env 0)\<rparr>;
            dk = fst (entity_dedupe_key env inp); k = snd (entity_dedupe_key env inp);
            ts = env_now env 1 in
        (case prior_subject FactEntityAsserted (AE_Writer inp) dk db of
           Some subject \<Rightarrow>
             (case getEntityByID db subject of
                Inl e \<Rightarrow> (db, result0, Some e)
              | Inr ent \<Rightarrow> (db, \<lparr>RR_Entity = ent, RR_Action = Some ActionAttach,
                  RR_MatchKind = Some MatchNone, RR_MergedFrom = []\<rparr>, Some ErrDuplicateFact))
         | None \<Rightarrow>
             (case append_resolved env k dk ts inp policy cand db of
                Inl e \<Rightarrow> (db, result0, Some e)
              | Inr (db', r) \<Rightarrow> (db', r, None))))"

section \<open>Merging and retracting by hand\<close>

definition merge_entities_tx ::
    "env \<Rightarrow> entity_id \<Rightarrow> entity_id \<Rightarrow> principal_id \<Rightarrow> string \<Rightarrow> db \<Rightarrow> db res" where
  "merge_entities_tx env keep gone actor dk db =
     (let dk' = (if dk = [] then keep @ ''|merge|'' @ gone else dk); ts = env_now env 0 in
      rbind (rfold (\<lambda>e d. if has_entity d e then Inr d else Inl ErrNotFound) [keep, gone] db) (\<lambda>db0.
      rbind (mergeEntitiesTx keep gone ts db0)
        (appendMergeFact (env_newID env 0) keep gone actor dk' actor ts)))"

definition retract_entity_tx ::
    "env \<Rightarrow> entity_id \<Rightarrow> principal_id \<Rightarrow> string \<Rightarrow> db \<Rightarrow> db res" where
  "retract_entity_tx env e actor dk db =
     (let dk' = (if dk = [] then e @ ''|retract'' else dk) in
      insertFact (env_newID env 0) FactEntityRetracted e actor dk' PEmpty actor (env_now env 0)
        (delete_fts e (delete_entity e db)))"

definition commit :: "db res \<Rightarrow> db \<Rightarrow> db \<times> gerr option" where
  "commit r db = (case r of Inl e \<Rightarrow> (db, Some e) | Inr db' \<Rightarrow> (db', None))"

definition MergeEntities ::
    "env \<Rightarrow> entity_id \<Rightarrow> entity_id \<Rightarrow> principal_id \<Rightarrow> string \<Rightarrow> db \<Rightarrow> db \<times> gerr option" where
  "MergeEntities env keep gone actor dk db = commit (merge_entities_tx env keep gone actor dk db) db"

definition RetractEntity ::
    "env \<Rightarrow> entity_id \<Rightarrow> principal_id \<Rightarrow> string \<Rightarrow> db \<Rightarrow> db \<times> gerr option" where
  "RetractEntity env e actor dk db = commit (retract_entity_tx env e actor dk db) db"

section \<open>What an appended fact is\<close>

lemma insertFactE:
  assumes "insertFact nid kind sub w dk pl ac ts db = Inr db'"
  obtains f where "db' = db\<lparr>facts := facts db @ [f]\<rparr>" and "f_kind f = kind" and "f_subject f = sub"
    and "f_writer f = w" and "f_dedupe f = dk" and "f_payload f = pl" and "f_actor f = ac"
    and "f_created_at f = fmtTS ts" and "FactKind_Valid kind"
    and "\<forall>g \<in> set (facts db). \<not> (f_writer g = w \<and> f_dedupe g = dk)"
proof -
  let ?f = "\<lparr>f_seq = next_seq (facts db), f_id = nid, f_kind = kind, f_subject = sub, f_writer = w,
        f_dedupe = dk, f_payload = pl, f_actor = ac, f_created_at = fmtTS ts\<rparr>"
  from assms have "db' = db\<lparr>facts := facts db @ [?f]\<rparr>" "FactKind_Valid kind"
    "\<forall>g \<in> set (facts db). \<not> (f_writer g = w \<and> f_dedupe g = dk)"
    by (simp_all add: insertFact_def list_ex_iff split: if_splits)
  then show thesis by (intro that [of ?f]) simp_all
qed

lemma insertFact_frame [row_simps]:
  "insertFact nid kind sub w dk pl ac ts db = Inr db' \<Longrightarrow>
     entities db' = entities db \<and> entity_external_ids db' = entity_external_ids db \<and>
     entity_labels db' = entity_labels db \<and> embeddings db' = embeddings db \<and> edges db' = edges db \<and>
     entities_fts db' = entities_fts db \<and> proposals db' = proposals db \<and> ids db' = ids db"
  by (auto simp: insertFact_def split: if_splits)

lemma wf_db_insertFact [wf_intros]:
  assumes "wf_db db" and "insertFact nid kind sub w dk pl ac ts db = Inr db'"
  shows "wf_db db'"
proof -
  have "wf_tables db'" using wf_insertFact [OF _ assms(2)] assms(1) by (simp add: wf_db_def)
  then show ?thesis using assms(1) insertFact_frame [OF assms(2)] by (simp add: wf_db_def)
qed

lemma appendEntityFactE:
  assumes "appendEntityFact nid e w dk ac ts db = Inr db'"
  obtains pl where "marshal_entity e = Inr pl"
    and "insertFact nid FactEntityAsserted (E_ID e) w dk pl ac ts db = Inr db'"
  using assms by (auto simp: appendEntityFact_def elim: rbindE)

lemma wf_db_appendEntityFact [wf_intros]:
  assumes "wf_db db" and "appendEntityFact nid e w dk ac ts db = Inr db'"
  shows "wf_db db'"
  using assms(2) by (rule appendEntityFactE) (rule wf_db_insertFact [OF assms(1)])

lemma wf_db_edge [wf_intros]:
  assumes "wf_db db" and "upsertEdgeSnapshot d ts db = Inr db'"
  shows "wf_db db'"
proof -
  from assms(2) have "entities db' = entities db" "entities_fts db' = entities_fts db"
    by (auto simp: upsertEdgeSnapshot_def insert_edge_or_replace_def elim!: rbindE split: if_splits)
  with assms show ?thesis by (auto simp: wf_db_def intro: wf_upsertEdgeSnapshot)
qed

lemma wf_db_delete:
  assumes "wf_db db"
  shows "wf_db (delete_fts e (delete_entity e db))"
proof -
  have "fts_ok (entities (delete_fts e (delete_entity e db))) (entities_fts (delete_fts e (delete_entity e db)))"
    using assms fts_ok_delete [of "entities db" "entities_fts db" e]
    by (simp add: wf_db_def delete_fts_def delete_entity_def)
  with assms show ?thesis by (simp add: wf_db_def wf_delete_fts wf_delete_entity)
qed

section \<open>Every entity write keeps the invariant\<close>

lemma insert_newE:
  assumes "insert_new env k dk ts inp cand0 d db = Inr (db', eid)"
  obtains (plain) db1 where "eid = env_newID env k"
      and "upsertEntitySnapshot (cand0\<lparr>E_ID := eid\<rparr>) ts db = Inr db1"
      and "appendEntityFact (env_newID env (k + 1)) (cand0\<lparr>E_ID := eid\<rparr>) (AE_Writer inp) dk (AE_Actor inp) ts db1 = Inr db'"
      and "\<not> (Action d = ActionInsertFlagged \<and> FlagTo d \<noteq> [])"
  | (flagged) db1 db2 db3 ed pl where "eid = env_newID env k"
      and "upsertEntitySnapshot (cand0\<lparr>E_ID := eid\<rparr>) ts db = Inr db1"
      and "appendEntityFact (env_newID env (k + 1)) (cand0\<lparr>E_ID := eid\<rparr>) (AE_Writer inp) dk (AE_Actor inp) ts db1 = Inr db2"
      and "Action d = ActionInsertFlagged" and "FlagTo d \<noteq> []"
      and "ed = flag_edge env (env_newID env (k + 2)) (cand0\<lparr>E_ID := eid\<rparr>) (AE_Writer inp) (FlagTo d) (FlagScore d) ts"
      and "upsertEdgeSnapshot ed ts db2 = Inr db3" and "marshal_edge ed = Inr pl"
      and "insertFact (env_newID env (k + 3)) FactEdgeAsserted (D_ID ed) (AE_Writer inp)
             (dk @ ''|sameas|'' @ FlagTo d) pl (AE_Actor inp) ts db3 = Inr db'"
  using assms by (auto simp: insert_new_def Let_def elim!: rbindE split: if_splits)

lemma attach_toE:
  assumes "attach_to env k dk ts inp cand0 target db = Inr (db', eid)"
  obtains db1 where "eid = target" and "upsertEntitySnapshot (cand0\<lparr>E_ID := target\<rparr>) ts db = Inr db1"
    and "appendEntityFact (env_newID env k) (cand0\<lparr>E_ID := target\<rparr>) (AE_Writer inp) dk (AE_Actor inp) ts db1 = Inr db'"
  using assms by (auto simp: attach_to_def Let_def elim!: rbindE)

lemma wf_insert_new:
  assumes "wf_db db" and "insert_new env k dk ts inp cand0 d db = Inr (db', eid)"
  shows "wf_db db'"
  using assms(2)
proof (cases rule: insert_newE)
  case (plain db1)
  show ?thesis by (rule wf_db_appendEntityFact [OF wf_db_upsert [OF assms(1) plain(2)] plain(3)])
next
  case (flagged db1 db2 db3 ed pl)
  have "wf_db db2" by (rule wf_db_appendEntityFact [OF wf_db_upsert [OF assms(1) flagged(2)] flagged(3)])
  from wf_db_edge [OF this flagged(7)] show ?thesis using flagged(9) by (rule wf_db_insertFact)
qed

lemma wf_attach_to:
  assumes "wf_db db" and "attach_to env k dk ts inp cand0 target db = Inr (db', eid)"
  shows "wf_db db'"
  using assms(2)
proof (rule attach_toE)
  fix db1
  assume s: "upsertEntitySnapshot (cand0\<lparr>E_ID := target\<rparr>) ts db = Inr db1"
    "appendEntityFact (env_newID env k) (cand0\<lparr>E_ID := target\<rparr>) (AE_Writer inp) dk (AE_Actor inp) ts db1 = Inr db'"
  show ?thesis by (rule wf_db_appendEntityFact [OF wf_db_upsert [OF assms(1) s(1)] s(2)])
qed

lemma merge_oneE:
  assumes "merge_one env k dk ts inp keep p db = Inr db'" and "wf_db db" and "has_entity db keep"
    and "keep \<noteq> snd p"
  shows "insertFact (env_newID env (k + fst p)) FactEntityMerged (snd p) (AE_Writer inp)
           (dk @ ''|merge|'' @ snd p) (PMerge keep (snd p)) (AE_Actor inp) ts (merged keep (snd p) ts db) = Inr db'"
  using assms merge_refines [of db keep "snd p" ts]
  by (simp add: merge_one_def appendMergeFact_def wf_db_def)

lemma wf_merge_one:
  assumes "wf_db db \<and> has_entity db keep" and "merge_one env k dk ts inp keep p db = Inr db'"
    and "keep \<noteq> snd p"
  shows "wf_db db' \<and> has_entity db' keep"
proof -
  note i = merge_oneE [OF assms(2) conjunct1 [OF assms(1)] conjunct2 [OF assms(1)] assms(3)]
  have "wf_db db'"
    by (rule wf_db_insertFact [OF wf_db_merged i]) (use assms in simp_all)
  moreover have "has_entity (merged keep (snd p) ts db) keep"
    using assms by (simp add: has_entity_ids merged_ids)
  then have "has_entity db' keep" using insertFact_frame [OF i] by (simp add: has_entity_ids)
  ultimately show ?thesis by simp
qed

lemma wf_merge_all:
  assumes "wf_db db" and "merge_all env k dk ts inp cand0 keep targets db = Inr (db', eid)"
    and "has_entity db keep" and "keep \<notin> set (drop 1 targets)"
  shows "wf_db db'"
proof -
  from assms(2) obtain db1 where
    m: "rfold (merge_one env k dk ts inp keep) (enumerate 0 (drop 1 targets)) db = Inr db1" and
    a: "attach_to env (k + length (drop 1 targets)) dk ts inp cand0 keep db1 = Inr (db', eid)"
    by (auto simp: merge_all_def elim!: rbindE)
  have "wf_db db1 \<and> has_entity db1 keep"
  proof (rule rfold_invariant [OF m])
    show "wf_db db \<and> has_entity db keep" using assms by simp
    fix p s t
    assume "p \<in> set (enumerate 0 (drop 1 targets))"
    then have "snd p \<in> set (drop 1 targets)" by (metis image_eqI list.set_map map_snd_enumerate)
    then have "keep \<noteq> snd p" using assms(4) by auto
    moreover assume "wf_db s \<and> has_entity s keep" "merge_one env k dk ts inp keep p s = Inr t"
    ultimately show "wf_db t \<and> has_entity t keep"
      using wf_merge_one [of s keep env k dk ts inp p t] by blast
  qed
  then show ?thesis using a by (intro wf_attach_to [OF _ a]) simp
qed

lemma externalHitsTx_iff:
  "e \<in> set (externalHitsTx space keys db) \<longleftrightarrow>
     (\<exists>r \<in> set (entities db). er_id r = e \<and> (\<exists>x \<in> set (entity_external_ids db).
        xr_entity x = e \<and> xr_space x = space \<and> xr_key x \<in> set keys))"
  by (auto simp: externalHitsTx_def list_ex_iff List.member_iff)

lemma externalHitsTx_distinct:
  assumes "wf_tables db"
  shows "distinct (externalHitsTx space keys db)"
proof -
  have "distinct (map er_id (sort_key f (filter P (entities db))))"
    for f :: "entity_row \<Rightarrow> tstext \<times> string" and P
  proof -
    have "distinct (map er_id (filter P (entities db)))"
      using assms by (simp add: wf_tables_def entities_ok_def distinct_map_filter)
    moreover have "mset (map er_id (sort_key f (filter P (entities db)))) = mset (map er_id (filter P (entities db)))"
      by simp
    ultimately show ?thesis using mset_eq_imp_distinct_iff by blast
  qed
  then show ?thesis by (simp add: externalHitsTx_def)
qed

lemma apply_decision_wf:
  assumes "wf_db db" and "apply_decision env k dk ts inp cand d db = Inr (db', eid)"
    and "Action d = ActionMerge \<Longrightarrow> has_entity db (Target d) \<and> Target d \<notin> set (drop 1 (MergeTargets d))"
  shows "wf_db db'"
  using assms
  by (cases "Action d") (auto simp: apply_decision_def intro: wf_insert_new wf_attach_to wf_merge_all)

lemma Resolve_merge_targets:
  assumes "Resolve c inp p th = Inr d" and "Action d = ActionMerge"
  shows "MergeTargets d = dedupeIDs (ExternalIDHits inp)" and "Target d = hd (MergeTargets d)"
    and "ExternalIDHits inp \<noteq> []"
  using assms
  by (auto simp: Resolve_def Let_def decision0_def dedupeIDs_hd hd_conv_nth
      split: if_splits option.splits)

lemma resolve_merge_ok:
  assumes "wf_db db"
    and "Resolve cand \<lparr>ExternalIDHits = externalHitsTx sp keys db, VectorNeighbors = ns\<rparr> p th = Inr d"
    and "Action d = ActionMerge"
  shows "has_entity db (Target d) \<and> Target d \<notin> set (drop 1 (MergeTargets d))"
proof -
  note m = Resolve_merge_targets [OF assms(2,3)]
  have ne: "MergeTargets d \<noteq> []" and sub: "set (MergeTargets d) = set (externalHitsTx sp keys db)"
    and dist: "distinct (MergeTargets d)"
    using m(1,3) by simp_all
  from ne obtain t rest where mt: "MergeTargets d = t # rest" by (cases "MergeTargets d") auto
  with m(2) have "Target d = t" by simp
  moreover have "t \<in> set (externalHitsTx sp keys db)" unfolding sub [symmetric] mt by simp
  then have "t \<in> ids db" by (auto simp: externalHitsTx_iff ids_def)
  ultimately show ?thesis using mt dist by (simp add: has_entity_ids)
qed

lemma append_resolvedE:
  assumes "append_resolved env k dk ts inp policy cand db = Inr (db', r)"
  obtains d eid ent where
    "Resolve cand \<lparr>ExternalIDHits = externalHitsTx (E_Space cand) (ExternalKeys cand) db,
       VectorNeighbors = resolveNeighbors policy (externalHitsTx (E_Space cand) (ExternalKeys cand) db) cand db\<rparr>
       policy (env_th env) = Inr d"
    and "apply_decision env k dk ts inp cand d db = Inr (db', eid)"
    and "getEntityByID db' eid = Inr ent"
    and "r = \<lparr>RR_Entity = ent, RR_Action = Some (Action d), RR_MatchKind = Some (MatchKind d),
       RR_MergedFrom = drop 1 (MergeTargets d)\<rparr>"
  using assms by (auto simp: append_resolved_def Let_def elim!: rbindE)

lemma wf_append_resolved:
  assumes "wf_db db" and "append_resolved env k dk ts inp policy cand db = Inr (db', r)"
  shows "wf_db db'"
  using assms(2)
  by (rule append_resolvedE) (metis apply_decision_wf [OF assms(1)] resolve_merge_ok [OF assms(1)])

text \<open>The outcomes of \<open>AppendEntityFact\<close>: unchanged, or one resolved append.\<close>

lemma AppendEntityFact_cases:
  obtains (unchanged) r e where "AppendEntityFact env inp db = (db, r, Some e)"
  | (appended) db' r cand where "AppendEntityFact env inp db = (db', r, None)"
      and "cand = (AE_Candidate inp)\<lparr>E_Provenance := normalizeProvenance (E_Provenance (AE_Candidate inp)) (env_now env 0)\<rparr>"
      and "append_resolved env (snd (entity_dedupe_key env inp)) (fst (entity_dedupe_key env inp)) (env_now env 1)
             inp (effective_policy (AE_Policy inp)) cand db = Inr (db', r)"
      and "KnownType (E_Type cand)" and "Visibility_Valid (E_Visibility cand)"
      and "prior_subject FactEntityAsserted (AE_Writer inp) (fst (entity_dedupe_key env inp)) db = None"
proof -
  let ?c = "AE_Candidate inp" and ?dk = "fst (entity_dedupe_key env inp)"
  let ?cand = "?c\<lparr>E_Provenance := normalizeProvenance (E_Provenance ?c) (env_now env 0)\<rparr>"
  let ?valid = "KnownType (E_Type ?c) \<and> Visibility_Valid (E_Visibility ?c) \<and> Policy_Valid (effective_policy (AE_Policy inp))"
  show thesis
  proof (cases ?valid)
    case False
    then show ?thesis
      by (intro unchanged [of result0 "if KnownType (E_Type ?c) \<and> Visibility_Valid (E_Visibility ?c) then ErrInvalidPolicy else ErrInvalidInput"])
         (auto simp: AppendEntityFact_def Let_def)
  next
    case valid: True
    show ?thesis
    proof (cases "prior_subject FactEntityAsserted (AE_Writer inp) ?dk db")
      case (Some s)
      then show ?thesis
        by (cases "getEntityByID db s") (use valid in \<open>auto simp: AppendEntityFact_def Let_def intro: unchanged\<close>)
    next
      case None
      show ?thesis
      proof (cases "append_resolved env (snd (entity_dedupe_key env inp)) ?dk (env_now env 1) inp
            (effective_policy (AE_Policy inp)) ?cand db")
        case (Inl e)
        with None valid show ?thesis by (intro unchanged [of result0 e]) (simp add: AppendEntityFact_def Let_def)
      next
        case (Inr p)
        with None valid show ?thesis
          by (intro appended [of "fst p" "snd p" ?cand]) (simp_all add: AppendEntityFact_def Let_def case_prod_beta)
      qed
    qed
  qed
qed

lemma wf_AppendEntityFact [wf_intros]:
  assumes "wf_db db"
  shows "wf_db (fst (AppendEntityFact env inp db))"
  by (cases rule: AppendEntityFact_cases [of env inp db])
     (use assms wf_append_resolved in auto)

lemma merge_entities_txE:
  assumes "merge_entities_tx env keep gone actor dk db = Inr db'"
  obtains dk' db1 where "has_entity db keep" and "has_entity db gone"
    and "mergeEntitiesTx keep gone (env_now env 0) db = Inr db1"
    and "insertFact (env_newID env 0) FactEntityMerged gone actor dk' (PMerge keep gone) actor (env_now env 0) db1 = Inr db'"
  using assms
  by (auto simp: merge_entities_tx_def appendMergeFact_def Let_def elim!: rbindE split: if_splits)

lemma wf_MergeEntities [wf_intros]:
  assumes "wf_db db"
  shows "wf_db (fst (MergeEntities env keep gone actor dk db))"
proof (cases "merge_entities_tx env keep gone actor dk db")
  case (Inl e)
  with assms show ?thesis by (simp add: MergeEntities_def commit_def)
next
  case (Inr db')
  then show ?thesis
  proof (rule merge_entities_txE)
    fix dk' db1
    assume k: "has_entity db keep" and m: "mergeEntitiesTx keep gone (env_now env 0) db = Inr db1"
      and i: "insertFact (env_newID env 0) FactEntityMerged gone actor dk' (PMerge keep gone) actor (env_now env 0) db1 = Inr db'"
    have "wf_db db1"
    proof (cases "keep = gone")
      case True
      with m assms show ?thesis by (simp add: mergeEntitiesTx_def)
    next
      case False
      with m k assms merge_refines [of db keep gone] wf_db_merged [of db keep gone] show ?thesis
        by (auto simp: wf_db_def)
    qed
    then have "wf_db db'" using i by (rule wf_db_insertFact)
    with Inr show ?thesis by (simp add: MergeEntities_def commit_def)
  qed
qed

lemma wf_RetractEntity [wf_intros]:
  assumes "wf_db db"
  shows "wf_db (fst (RetractEntity env e actor dk db))"
  using wf_db_insertFact [OF wf_db_delete [OF assms]] assms
  by (auto simp: RetractEntity_def commit_def retract_entity_tx_def Let_def split: sum.splits)

end
