(* ===== verification/Jdx_Edges.thy ===== *)
theory Jdx_Edges
  imports Jdx_Entities
begin

text \<open>
  The edge writes of \<open>edges.go\<close>: \<open>AppendEdgeFact\<close> and \<open>RetractEdge\<close>, and the dedupe key an edge
  gets when the caller supplies none (\<open>store.DefaultEdgeDedupeKey\<close>).
\<close>

definition DefaultEdgeDedupeKey :: "edge \<Rightarrow> string" where
  "DefaultEdgeDedupeKey e = ''edge|'' @ D_Space e @ ''|'' @ D_Predicate e @ ''|'' @ D_From e @ ''|'' @ D_To e"

definition edge0 :: edge where
  "edge0 = \<lparr>D_ID = [], D_Predicate = [], D_From = [], D_To = [], D_Props = RawEmpty,
     D_Provenance = provenance0, D_Space = [], D_Owner = [], D_Visibility = VisOther [],
     D_CreatedAt = 0, D_Deleted = False\<rparr>"

definition append_edge_tx :: "env \<Rightarrow> string \<Rightarrow> time \<Rightarrow> append_edge_input \<Rightarrow> edge \<Rightarrow> db \<Rightarrow> (db \<times> edge) res" where
  "append_edge_tx env dk ts inp ed0 db =
     (let ed = ed0\<lparr>D_ID := env_newID env 0\<rparr> in
      rbind (upsertEdgeSnapshot ed ts db) (\<lambda>db1.
      rbind (marshal_edge ed) (\<lambda>payload.
      rbind (insertFact (env_newID env 1) FactEdgeAsserted (D_ID ed) (AD_Writer inp) dk payload
               (AD_Actor inp) ts db1) (\<lambda>db2.
      rbind (getEdgeByID db2 (D_ID ed)) (\<lambda>out.
      Inr (db2, out))))))"

definition edge_dedupe_key :: "append_edge_input \<Rightarrow> string" where
  "edge_dedupe_key inp =
     (if AD_DedupeKey inp = [] then DefaultEdgeDedupeKey (AD_Edge inp) else AD_DedupeKey inp)"

definition AppendEdgeFact :: "env \<Rightarrow> append_edge_input \<Rightarrow> db \<Rightarrow> db \<times> edge \<times> gerr option" where
  "AppendEdgeFact env inp db =
     (let ed0 = AD_Edge inp in
      if \<not> KnownPredicate (D_Predicate ed0) then (db, edge0, Some ErrInvalidInput)
      else if \<not> Visibility_Valid (D_Visibility ed0) then (db, edge0, Some ErrInvalidInput)
      else
        let ed = ed0\<lparr>D_Provenance := normalizeProvenance (D_Provenance ed0) (env_now env 0)\<rparr>;
            dk = edge_dedupe_key inp;
            ts = env_now env 1 in
        (case prior_subject FactEdgeAsserted (AD_Writer inp) dk db of
           Some prior \<Rightarrow>
             (case getEdgeByID db prior of
                Inl e \<Rightarrow> (db, edge0, Some e)
              | Inr existing \<Rightarrow> (db, existing, Some ErrDuplicateFact))
         | None \<Rightarrow>
             (case append_edge_tx env dk ts inp ed db of
                Inl e \<Rightarrow> (db, edge0, Some e)
              | Inr (db', out) \<Rightarrow> (db', out, None))))"

definition retract_edge_tx :: "env \<Rightarrow> edge_id \<Rightarrow> principal_id \<Rightarrow> string \<Rightarrow> db \<Rightarrow> db res" where
  "retract_edge_tx env e actor dk db =
     (let dk' = (if dk = [] then e @ ''|retract'' else dk) in
      insertFact (env_newID env 0) FactEdgeRetracted e actor dk' PEmpty actor (env_now env 0)
        (delete_edge e db))"

definition RetractEdge :: "env \<Rightarrow> edge_id \<Rightarrow> principal_id \<Rightarrow> string \<Rightarrow> db \<Rightarrow> db \<times> gerr option" where
  "RetractEdge env e actor dk db = commit (retract_edge_tx env e actor dk db) db"

section \<open>Outcomes and the invariant\<close>

lemma append_edge_txE:
  assumes "append_edge_tx env dk ts inp ed0 db = Inr (db', out)"
  obtains db1 pl where "upsertEdgeSnapshot (ed0\<lparr>D_ID := env_newID env 0\<rparr>) ts db = Inr db1"
    and "marshal_edge (ed0\<lparr>D_ID := env_newID env 0\<rparr>) = Inr pl"
    and "insertFact (env_newID env 1) FactEdgeAsserted (env_newID env 0) (AD_Writer inp) dk pl (AD_Actor inp) ts db1 = Inr db'"
    and "getEdgeByID db' (env_newID env 0) = Inr out"
  using assms by (auto simp: append_edge_tx_def Let_def elim!: rbindE)

lemma AppendEdgeFact_cases:
  obtains (unchanged) r e where "AppendEdgeFact env inp db = (db, r, Some e)"
  | (appended) db' out ed where "AppendEdgeFact env inp db = (db', out, None)"
      and "ed = (AD_Edge inp)\<lparr>D_Provenance := normalizeProvenance (D_Provenance (AD_Edge inp)) (env_now env 0)\<rparr>"
      and "append_edge_tx env (edge_dedupe_key inp) (env_now env 1) inp ed db = Inr (db', out)"
      and "KnownPredicate (D_Predicate ed)" and "Visibility_Valid (D_Visibility ed)"
      and "prior_subject FactEdgeAsserted (AD_Writer inp) (edge_dedupe_key inp) db = None"
proof -
  let ?e = "AD_Edge inp"
  let ?ed = "?e\<lparr>D_Provenance := normalizeProvenance (D_Provenance ?e) (env_now env 0)\<rparr>"
  show thesis
  proof (cases "KnownPredicate (D_Predicate ?e) \<and> Visibility_Valid (D_Visibility ?e)")
    case False
    then show ?thesis
      by (intro unchanged [of edge0 ErrInvalidInput]) (auto simp: AppendEdgeFact_def Let_def)
  next
    case valid: True
    show ?thesis
    proof (cases "prior_subject FactEdgeAsserted (AD_Writer inp) (edge_dedupe_key inp) db")
      case (Some s)
      then show ?thesis
        by (cases "getEdgeByID db s") (use valid in \<open>auto simp: AppendEdgeFact_def Let_def intro: unchanged\<close>)
    next
      case None
      show ?thesis
      proof (cases "append_edge_tx env (edge_dedupe_key inp) (env_now env 1) inp ?ed db")
        case (Inl e)
        with None valid show ?thesis by (intro unchanged [of edge0 e]) (simp add: AppendEdgeFact_def Let_def)
      next
        case (Inr p)
        with None valid show ?thesis
          by (intro appended [of "fst p" "snd p" ?ed]) (simp_all add: AppendEdgeFact_def Let_def case_prod_beta)
      qed
    qed
  qed
qed

lemma wf_append_edge_tx:
  assumes "wf_db db" and "append_edge_tx env dk ts inp ed0 db = Inr (db', out)"
  shows "wf_db db'"
  using assms(2)
proof (rule append_edge_txE)
  fix db1 pl
  assume u: "upsertEdgeSnapshot (ed0\<lparr>D_ID := env_newID env 0\<rparr>) ts db = Inr db1"
    and i: "insertFact (env_newID env 1) FactEdgeAsserted (env_newID env 0) (AD_Writer inp) dk pl (AD_Actor inp) ts db1 = Inr db'"
  show ?thesis by (rule wf_db_insertFact [OF wf_db_edge [OF assms(1) u] i])
qed

lemma wf_AppendEdgeFact [wf_intros]:
  assumes "wf_db db"
  shows "wf_db (fst (AppendEdgeFact env inp db))"
  by (cases rule: AppendEdgeFact_cases [of env inp db]) (use assms wf_append_edge_tx in auto)

lemma wf_db_delete_edge:
  assumes "wf_db db"
  shows "wf_db (delete_edge e db)"
  using assms wf_delete_edge [of db e] by (simp add: wf_db_def) (simp add: delete_edge_def)

lemma wf_RetractEdge [wf_intros]:
  assumes "wf_db db"
  shows "wf_db (fst (RetractEdge env e actor dk db))"
  using wf_db_insertFact [OF wf_db_delete_edge [OF assms]] assms
  by (auto simp: RetractEdge_def commit_def retract_edge_tx_def Let_def split: sum.splits)

end
