(* ===== verification/Jdx_Proposals.thy ===== *)
theory Jdx_Proposals
  imports Jdx_Edges
begin

text \<open>
  The governed writes of \<open>proposals.go\<close>: a proposal holds a write intent, a decision promotes or
  discards it once. \<open>DecideProposal\<close> is not one transaction: the claim commits before the held
  intent is replayed through \<open>AppendEntityFact\<close> or \<open>AppendEdgeFact\<close>.
\<close>

section \<open>Operations\<close>

record proposal =
  PP_ID :: string
  PP_Kind :: fact_kind
  PP_Proposer :: principal_id
  PP_Space :: space_id
  PP_Payload :: proposal_payload

definition Propose :: "env \<Rightarrow> proposal \<Rightarrow> db \<Rightarrow> db \<times> string \<times> gerr option" where
  "Propose env p db =
     (if PP_Kind p \<noteq> FactEntityAsserted \<and> PP_Kind p \<noteq> FactEdgeAsserted then (db, [], Some ErrInvalidInput)
      else if PP_Payload p = PPInvalid then (db, [], Some ErrInvalidInput)
      else
        let i = (if PP_ID p = [] then env_newID env 0 else PP_ID p) in
        if i \<in> pr_id ` set (proposals db) then (db, [], Some ErrSQL)
        else (db\<lparr>proposals := proposals db @ [\<lparr>pr_id = i, pr_kind = PP_Kind p, pr_proposer = PP_Proposer p,
                pr_space = PP_Space p, pr_payload = PP_Payload p, pr_status = StPending,
                pr_created_at = fmtTS (env_now env 0), pr_decided_at = None, pr_decided_by = None,
                pr_result_subject = None\<rparr>]\<rparr>, i, None))"

definition get_proposal :: "db \<Rightarrow> string \<Rightarrow> proposal_row option" where
  "get_proposal db i = lookup_row pr_id i (proposals db)"

definition update_pending ::
    "string \<Rightarrow> proposal_status \<Rightarrow> tstext \<Rightarrow> principal_id \<Rightarrow> db \<Rightarrow> db" where
  "update_pending i st ts by_id db =
     db\<lparr>proposals := map (\<lambda>p. if pr_id p = i \<and> pr_status p = StPending
         then p\<lparr>pr_status := st, pr_decided_at := Some ts, pr_decided_by := Some by_id\<rparr> else p) (proposals db)\<rparr>"

definition set_result_subject :: "string \<Rightarrow> string \<Rightarrow> db \<Rightarrow> db" where
  "set_result_subject i subject db =
     db\<lparr>proposals := map (\<lambda>p. if pr_id p = i then p\<lparr>pr_result_subject := Some subject\<rparr> else p) (proposals db)\<rparr>"

text \<open>The environment after \<open>n\<close> calls of \<open>s.now()\<close>.\<close>

definition later :: "nat \<Rightarrow> env \<Rightarrow> env" where
  "later n env = env\<lparr>env_now := (\<lambda>k. env_now env (k + n))\<rparr>"

definition replay_intent ::
    "env \<Rightarrow> fact_kind \<Rightarrow> proposal_payload \<Rightarrow> db \<Rightarrow> db \<times> resolve_result \<times> string \<times> gerr option" where
  "replay_intent env kind payload db = (case kind of
       FactEntityAsserted \<Rightarrow>
         (case payload of
            PPEntity inp \<Rightarrow>
              (let (db', r, e) = AppendEntityFact env inp db in
               if e \<noteq> None \<and> e \<noteq> Some ErrDuplicateFact then (db', result0, [], e)
               else (db', r, E_ID (RR_Entity r), None))
          | _ \<Rightarrow> (db, result0, [], Some ErrUnmarshal))
     | FactEdgeAsserted \<Rightarrow>
         (case payload of
            PPEdge inp \<Rightarrow>
              (let (db', ed, e) = AppendEdgeFact env inp db in
               if e \<noteq> None \<and> e \<noteq> Some ErrDuplicateFact then (db', result0, [], e)
               else (db', result0, D_ID ed, None))
          | _ \<Rightarrow> (db, result0, [], Some ErrUnmarshal))
     | _ \<Rightarrow> (db, result0, [], Some ErrInvalidInput))"

definition DecideProposal ::
    "env \<Rightarrow> string \<Rightarrow> bool \<Rightarrow> principal_id \<Rightarrow> db \<Rightarrow> db \<times> resolve_result \<times> gerr option" where
  "DecideProposal env i approve approver db = (case get_proposal db i of
       None \<Rightarrow> (db, result0, Some ErrNotFound)
     | Some p \<Rightarrow>
         if pr_status p \<noteq> StPending then (db, result0, Some ErrConflict)
         else
           let ts = fmtTS (env_now env 0) in
           if \<not> approve then (update_pending i StDiscarded ts approver db, result0, None)
           else
             let (db', r, subject, e) =
               replay_intent (later 1 env) (pr_kind p) (pr_payload p) (update_pending i StPromoted ts approver db)
             in (case e of
                  Some err \<Rightarrow> (db', result0, Some err)
                | None \<Rightarrow> (set_result_subject i subject db', r, None)))"

definition proposal_of_row :: "proposal_row \<Rightarrow> proposal" where
  "proposal_of_row p = \<lparr>PP_ID = pr_id p, PP_Kind = pr_kind p, PP_Proposer = pr_proposer p,
     PP_Space = pr_space p, PP_Payload = pr_payload p\<rparr>"

definition ListProposals :: "space_id \<Rightarrow> db \<Rightarrow> proposal list" where
  "ListProposals space db =
     map proposal_of_row (sort_key (\<lambda>p. (pr_created_at p, pr_id p))
       (filter (\<lambda>p. pr_status p = StPending \<and> (space = [] \<or> pr_space p = space)) (proposals db)))"

section \<open>The graph part of the database\<close>

definition graph :: "db \<Rightarrow> db" where
  "graph db = db\<lparr>proposals := []\<rparr>"

lemma wf_db_graph: "wf_db db \<longleftrightarrow> wf_db (graph db) \<and> proposals_ok (proposals db)"
  by (auto simp: wf_db_def wf_tables_def graph_def proposals_ok_def)

lemma graph_update_pending [simp]: "graph (update_pending i st ts b db) = graph db"
  by (simp add: update_pending_def graph_def)

lemma graph_set_result_subject [simp]: "graph (set_result_subject i s db) = graph db"
  by (simp add: set_result_subject_def graph_def)

lemma proposals_ok_map:
  assumes "proposals_ok ps" and "\<And>p. pr_id (f p) = pr_id p"
    and "\<And>p. p \<in> set ps \<Longrightarrow> proposal_ok p \<Longrightarrow> proposal_ok (f p)"
  shows "proposals_ok (map f ps)"
  using assms by (simp add: proposals_ok_def comp_def)

definition decide_row :: "string \<Rightarrow> proposal_status \<Rightarrow> tstext \<Rightarrow> principal_id \<Rightarrow> proposal_row \<Rightarrow> proposal_row" where
  "decide_row i st ts b p = (if pr_id p = i \<and> pr_status p = StPending
         then p\<lparr>pr_status := st, pr_decided_at := Some ts, pr_decided_by := Some b\<rparr> else p)"

lemma proposals_update_pending:
  "proposals (update_pending i st ts b db) = map (decide_row i st ts b) (proposals db)"
  by (simp add: update_pending_def decide_row_def [abs_def])

lemma decide_row_id [simp]: "pr_id (decide_row i st ts b p) = pr_id p"
  by (simp add: decide_row_def)

lemma wf_update_pending:
  assumes "wf_db db" and "st \<noteq> StPending"
  shows "wf_db (update_pending i st ts b db)"
proof -
  have "proposals_ok (proposals (update_pending i st ts b db))"
    unfolding update_pending_def using assms
    by (auto simp: wf_db_def wf_tables_def proposal_ok_def intro!: proposals_ok_map)
  with assms(1) show ?thesis using wf_db_graph [of db] wf_db_graph [of "update_pending i st ts b db"] by simp
qed

lemma wf_set_result_subject:
  assumes "wf_db db" and "\<And>p. p \<in> set (proposals db) \<Longrightarrow> pr_id p = i \<Longrightarrow> pr_status p = StPromoted"
  shows "wf_db (set_result_subject i s db)"
proof -
  have "proposals_ok (map (\<lambda>p. if pr_id p = i then p\<lparr>pr_result_subject := Some s\<rparr> else p) (proposals db))"
    using assms by (intro proposals_ok_map) (auto simp: wf_db_def wf_tables_def proposal_ok_def)
  then have "proposals_ok (proposals (set_result_subject i s db))" by (simp add: set_result_subject_def)
  with assms(1) show ?thesis using wf_db_graph [of db] wf_db_graph [of "set_result_subject i s db"] by simp
qed

lemma wf_Propose [wf_intros]:
  assumes "wf_db db"
  shows "wf_db (fst (Propose env p db))"
proof -
  have "proposals_ok (proposals db)" using assms by (simp add: wf_db_def wf_tables_def)
  then have "proposals_ok (proposals (fst (Propose env p db)))"
    by (auto simp: Propose_def Let_def proposals_ok_def proposal_ok_def)
  moreover have "graph (fst (Propose env p db)) = graph db"
    by (simp add: Propose_def Let_def graph_def)
  ultimately show ?thesis using assms wf_db_graph [of db] wf_db_graph [of "fst (Propose env p db)"] by simp
qed

section \<open>Writes leave the proposals alone\<close>

lemma upsertEntitySnapshot_proposals:
  assumes "upsertEntitySnapshot e ts db = Inr db'"
  shows "proposals db' = proposals db \<and> facts db' = facts db"
  using assms
proof (rule upsertEntitySnapshotE)
  fix db1 db2 db3
  assume s: "upsert_row e ts db = Inr db1"
    "rfold (\<lambda>x. insert_ext_or_ignore (ext_to_row e x)) (E_ExternalIDs e) db1 = Inr db2"
    "rfold (\<lambda>m. insert_emb_or_replace (emb_to_row e m)) (E_Embeddings e) db2 = Inr db3"
    and db': "db' = syncEntityFTS (E_ID e) db3"
  show ?thesis
    using upsert_row_frame [OF s(1)] insert_exts_frame [OF s(2)] insert_embs_frame [OF s(3)]
    by (simp add: db')
qed

lemma upsertEdgeSnapshot_proposals:
  "upsertEdgeSnapshot d ts db = Inr db' \<Longrightarrow> proposals db' = proposals db \<and> facts db' = facts db"
  by (auto simp: upsertEdgeSnapshot_def insert_edge_or_replace_def elim!: rbindE split: if_splits)

lemma moves_proposals:
  "move_ext k g db = Inr db' \<Longrightarrow> proposals db' = proposals db \<and> facts db' = facts db"
  "move_labels k g db = Inr db' \<Longrightarrow> proposals db' = proposals db \<and> facts db' = facts db"
  "move_emb k g db = Inr db' \<Longrightarrow> proposals db' = proposals db \<and> facts db' = facts db"
  "repoint_from k g db = Inr db' \<Longrightarrow> proposals db' = proposals db \<and> facts db' = facts db"
  "repoint_to k g db = Inr db' \<Longrightarrow> proposals db' = proposals db \<and> facts db' = facts db"
  by (auto simp: move_ext_def move_labels_def move_emb_def repoint_from_def repoint_to_def Let_def
      split: if_splits)

lemma mergeEntitiesTx_proposals:
  assumes "mergeEntitiesTx k g ts db = Inr db'"
  shows "proposals db' = proposals db \<and> facts db' = facts db"
proof (cases "k = g")
  case True
  with assms show ?thesis by (simp add: mergeEntitiesTx_def)
next
  case False
  from assms False show ?thesis
    by (rule mergeEntitiesTxE)
       (simp add: moves_proposals update_entity_def delete_fts_def delete_entity_def)
qed

lemma appendEntityFact_proposals:
  assumes "appendEntityFact nid e w dk ac ts db = Inr db'"
  shows "proposals db' = proposals db"
  using assms by (rule appendEntityFactE) (simp add: insertFact_frame)

lemma insert_new_proposals:
  assumes "insert_new env k dk ts inp cand0 d db = Inr (db', eid)"
  shows "proposals db' = proposals db"
  using assms
proof (cases rule: insert_newE)
  case (plain db1)
  then show ?thesis using upsertEntitySnapshot_proposals appendEntityFact_proposals by metis
next
  case (flagged db1 db2 db3 ed pl)
  then show ?thesis
    using upsertEntitySnapshot_proposals [OF flagged(2)] appendEntityFact_proposals [OF flagged(3)]
      upsertEdgeSnapshot_proposals [OF flagged(7)] insertFact_frame [OF flagged(9)] by simp
qed

lemma attach_to_proposals:
  assumes "attach_to env k dk ts inp cand0 target db = Inr (db', eid)"
  shows "proposals db' = proposals db"
  using assms
  by (rule attach_toE) (metis upsertEntitySnapshot_proposals appendEntityFact_proposals)

lemma merge_all_proposals:
  assumes "merge_all env k dk ts inp cand0 keep targets db = Inr (db', eid)"
  shows "proposals db' = proposals db"
proof -
  from assms obtain db1 where
    m: "rfold (merge_one env k dk ts inp keep) (enumerate 0 (drop 1 targets)) db = Inr db1" and
    a: "attach_to env (k + length (drop 1 targets)) dk ts inp cand0 keep db1 = Inr (db', eid)"
    by (auto simp: merge_all_def elim!: rbindE)
  have "proposals db1 = proposals db"
    by (rule rfold_frame [OF m])
       (auto simp: merge_one_def appendMergeFact_def mergeEntitiesTx_proposals insertFact_frame elim!: rbindE)
  with attach_to_proposals [OF a] show ?thesis by simp
qed

lemma apply_decision_proposals:
  "apply_decision env k dk ts inp cand d db = Inr (db', eid) \<Longrightarrow> proposals db' = proposals db"
  by (cases "Action d")
     (auto simp: apply_decision_def dest: insert_new_proposals attach_to_proposals merge_all_proposals)

lemma AppendEntityFact_proposals: "proposals (fst (AppendEntityFact env inp db)) = proposals db"
proof (cases rule: AppendEntityFact_cases [of env inp db])
  case (unchanged r e)
  then show ?thesis by simp
next
  case (appended db' r cand)
  from appended(3) have "proposals db' = proposals db"
    by (rule append_resolvedE) (rule apply_decision_proposals)
  with appended(1) show ?thesis by simp
qed

lemma AppendEdgeFact_proposals: "proposals (fst (AppendEdgeFact env inp db)) = proposals db"
proof (cases rule: AppendEdgeFact_cases [of env inp db])
  case (unchanged r e)
  then show ?thesis by simp
next
  case (appended db' out ed)
  from appended(3) have "proposals db' = proposals db"
    by (rule append_edge_txE) (simp add: upsertEdgeSnapshot_proposals insertFact_frame)
  with appended(1) show ?thesis by simp
qed

lemma replay_intent_proposals: "proposals (fst (replay_intent env kind pl db)) = proposals db"
  using AppendEntityFact_proposals [of env _ db] AppendEdgeFact_proposals [of env _ db]
  by (auto simp: replay_intent_def Let_def case_prod_beta split: fact_kind.splits proposal_payload.splits)

lemma wf_replay_intent:
  assumes "wf_db db"
  shows "wf_db (fst (replay_intent env kind pl db))"
  using assms wf_AppendEntityFact [OF assms, of env] wf_AppendEdgeFact [OF assms, of env]
  by (auto simp: replay_intent_def Let_def case_prod_beta split: fact_kind.splits proposal_payload.splits)

text \<open>The outcomes of \<open>DecideProposal\<close>.\<close>

lemma DecideProposal_cases:
  obtains (missing) "get_proposal db i = None" and "DecideProposal env i approve a db = (db, result0, Some ErrNotFound)"
  | (decided) p where "get_proposal db i = Some p" and "pr_status p \<noteq> StPending"
      and "DecideProposal env i approve a db = (db, result0, Some ErrConflict)"
  | (rejected) p where "get_proposal db i = Some p" and "pr_status p = StPending" and "\<not> approve"
      and "DecideProposal env i approve a db = (update_pending i StDiscarded (fmtTS (env_now env 0)) a db, result0, None)"
  | (failed) p db' r s e where "get_proposal db i = Some p" and "pr_status p = StPending" and "approve"
      and "replay_intent (later 1 env) (pr_kind p) (pr_payload p)
             (update_pending i StPromoted (fmtTS (env_now env 0)) a db) = (db', r, s, Some e)"
      and "DecideProposal env i approve a db = (db', result0, Some e)"
  | (promoted) p db' r s where "get_proposal db i = Some p" and "pr_status p = StPending" and "approve"
      and "replay_intent (later 1 env) (pr_kind p) (pr_payload p)
             (update_pending i StPromoted (fmtTS (env_now env 0)) a db) = (db', r, s, None)"
      and "DecideProposal env i approve a db = (set_result_subject i s db', r, None)"
proof (cases "get_proposal db i")
  case None
  then show thesis by (intro missing) (simp_all add: DecideProposal_def)
next
  case (Some p)
  show thesis
  proof (cases "pr_status p = StPending")
    case False
    with Some show ?thesis by (intro decided [of p]) (simp_all add: DecideProposal_def)
  next
    case pend: True
    show ?thesis
    proof (cases approve)
      case False
      with Some pend show ?thesis by (intro rejected [of p]) (simp_all add: DecideProposal_def Let_def)
    next
      case True
      obtain db' r s e where eq: "replay_intent (later 1 env) (pr_kind p) (pr_payload p)
             (update_pending i StPromoted (fmtTS (env_now env 0)) a db) = (db', r, s, e)"
        by (rule prod_cases4)
      show ?thesis
      proof (cases e)
        case None
        from Some pend True eq None show ?thesis
          by (intro promoted [of p db' r s]) (simp_all add: DecideProposal_def Let_def)
      next
        case (Some err)
        from \<open>get_proposal db i = Some p\<close> pend True eq Some show ?thesis
          by (intro failed [of p db' r s err]) (simp_all add: DecideProposal_def Let_def)
      qed
    qed
  qed
qed

lemma wf_DecideProposal [wf_intros]:
  assumes "wf_db db"
  shows "wf_db (fst (DecideProposal env i approve a db))"
proof (cases rule: DecideProposal_cases [of db i env approve a])
  case missing
  with assms show ?thesis by simp
next
  case (decided p)
  with assms show ?thesis by simp
next
  case (rejected p)
  with assms show ?thesis by (simp add: wf_update_pending)
next
  case (failed p db' r s e)
  with wf_replay_intent [OF wf_update_pending [OF assms]] show ?thesis by (metis fst_conv proposal_status.distinct(1))
next
  case (promoted p db' r s)
  let ?db1 = "update_pending i StPromoted (fmtTS (env_now env 0)) a db"
  have "wf_db ?db1" by (rule wf_update_pending [OF assms]) simp
  then have "wf_db db'" using wf_replay_intent [of ?db1] promoted(4) by (metis fst_conv)
  moreover have "pr_status q = StPromoted" if q: "q \<in> set (proposals db')" "pr_id q = i" for q
  proof -
    have "proposals db' = proposals ?db1" using replay_intent_proposals promoted(4) by (metis fst_conv)
    then have "q \<in> decide_row i StPromoted (fmtTS (env_now env 0)) a ` set (proposals db)"
      using q(1) by (simp add: proposals_update_pending)
    then obtain q0 where q0: "q0 \<in> set (proposals db)"
        "q = decide_row i StPromoted (fmtTS (env_now env 0)) a q0" by blast
    then have i: "pr_id q0 = i" using q(2) by simp
    from promoted(1) have "p \<in> set (proposals db)" "pr_id p = i"
      by (auto simp: get_proposal_def dest: lookup_row_SomeD)
    with q0(1) i assms have "q0 = p"
      using distinct_map_inj_on [of pr_id "proposals db" q0 p]
      by (simp add: wf_db_def wf_tables_def proposals_ok_def)
    with q0 i promoted(2) show ?thesis by (simp add: decide_row_def)
  qed
  ultimately show ?thesis using promoted(5) by (simp add: wf_set_result_subject)
qed

end
