(* ===== verification/Jdx_Replay.thy ===== *)
theory Jdx_Replay
  imports Jdx_Proposals
begin

text \<open>
  \<open>RebuildProjection\<close> and \<open>ProjectionHead\<close> (\<open>sqlite.go\<close>), and the event-sourcing argument: the
  fold of the fact log gives back the projection the online writes maintain. The argument is
  a locale over any log whose fold respects an equivalence of projections; it is interpreted on
  \<open>foldFact\<close>.
\<close>

section \<open>Rebuild\<close>

definition clear_projection :: "db \<Rightarrow> db" where
  "clear_projection db = db\<lparr>edges := [], embeddings := [], entity_labels := [],
     entity_external_ids := [], entities_fts := [], entities := []\<rparr>"

definition fold_row :: "fact_row \<Rightarrow> db \<Rightarrow> db res" where
  "fold_row f = foldFact (f_kind f) (f_subject f) (f_payload f) (parseTS (f_created_at f))"

definition rebuild_tx :: "db \<Rightarrow> db res" where
  "rebuild_tx db = rfold fold_row (sort_key f_seq (facts db)) (clear_projection db)"

definition RebuildProjection :: "db \<Rightarrow> db \<times> gerr option" where
  "RebuildProjection db = commit (rebuild_tx db) db"

definition ProjectionHead :: "db \<Rightarrow> nat" where
  "ProjectionHead db = foldl max 0 (map f_seq (facts db))"

section \<open>Logs and folds\<close>

locale event_log =
  fixes apply1 :: "'f \<Rightarrow> 'p \<Rightarrow> 'p res" and eqv :: "'p \<Rightarrow> 'p \<Rightarrow> bool"
  assumes eqv_refl: "eqv p p"
    and eqv_trans: "eqv p q \<Longrightarrow> eqv q r \<Longrightarrow> eqv p r"
    and apply1_cong: "eqv p q \<Longrightarrow> apply1 f q = Inr q' \<Longrightarrow> \<exists>p'. apply1 f p = Inr p' \<and> eqv p' q'"
begin

lemma fold_cong: "eqv p q \<Longrightarrow> rfold apply1 fs q = Inr q' \<Longrightarrow> \<exists>p'. rfold apply1 fs p = Inr p' \<and> eqv p' q'"
proof (induction fs arbitrary: p q)
  case Nil
  then show ?case by simp
next
  case (Cons f fs)
  from Cons.prems(2) obtain q1 where q1: "apply1 f q = Inr q1" "rfold apply1 fs q1 = Inr q'"
    by (auto elim: rbindE)
  from apply1_cong [OF Cons.prems(1) q1(1)] obtain p1 where p1: "apply1 f p = Inr p1" "eqv p1 q1" by blast
  from Cons.IH [OF p1(2) q1(2)] p1(1) show ?case by auto
qed

text \<open>The log still folds to the projection after both have been extended alike.\<close>

lemma fold_extend:
  assumes "rfold apply1 fs init = Inr p" and "eqv p q"
    and "rfold apply1 new q = Inr q'" and "eqv q' r"
  shows "\<exists>p'. rfold apply1 (fs @ new) init = Inr p' \<and> eqv p' r"
proof -
  from fold_cong [OF assms(2,3)] obtain p' where "rfold apply1 new p = Inr p'" "eqv p' q'" by blast
  with assms(1,4) eqv_trans show ?thesis by (auto simp: rfold_append)
qed

end

section \<open>Equal projections\<close>

text \<open>
  Up to the full-text table (a rebuild leaves the rows of retracted entities behind) and the
  SQL NULL that a missing property bag of an edge is online and the JSON \<open>null\<close> it is after its
  payload has been written and read.
\<close>

definition edge_norm :: "edge_row \<Rightarrow> edge_row" where
  "edge_norm d = d\<lparr>dr_props := Some (case dr_props d of None \<Rightarrow> JNull | Some j \<Rightarrow> j)\<rparr>"

definition peq :: "db \<Rightarrow> db \<Rightarrow> bool" where
  "peq a b \<longleftrightarrow> entities a = entities b \<and> entity_external_ids a = entity_external_ids b \<and>
     entity_labels a = entity_labels b \<and> embeddings a = embeddings b \<and>
     map edge_norm (edges a) = map edge_norm (edges b)"

lemma peq_refl [simp]: "peq a a"
  by (simp add: peq_def)

lemma peq_sym: "peq a b \<Longrightarrow> peq b a"
  by (simp add: peq_def)

lemma peq_trans: "peq a b \<Longrightarrow> peq b c \<Longrightarrow> peq a c"
  by (simp add: peq_def)

lemma peq_has_entity: "peq a b \<Longrightarrow> has_entity a e = has_entity b e"
  by (simp add: peq_def has_entity_def)

lemma edge_norm_sel [simp]:
  "dr_id (edge_norm d) = dr_id d" "dr_from (edge_norm d) = dr_from d" "dr_to (edge_norm d) = dr_to d"
  by (simp_all add: edge_norm_def)

lemma norm_list_ex:
  assumes "map edge_norm xs = map edge_norm ys" and "\<And>d. P (edge_norm d) = P d"
  shows "list_ex P xs = list_ex P ys"
proof -
  have "list_ex P zs = list_ex P (map edge_norm zs)" for zs using assms(2) by (induction zs) simp_all
  with assms(1) show ?thesis by metis
qed

lemma norm_filter:
  assumes "map edge_norm xs = map edge_norm ys" and "\<And>d. P (edge_norm d) = P d"
  shows "map edge_norm (filter P xs) = map edge_norm (filter P ys)"
proof -
  have "map edge_norm (filter P zs) = filter P (map edge_norm zs)" for zs
    using assms(2) by (induction zs) simp_all
  with assms(1) show ?thesis by metis
qed

lemma norm_map:
  assumes "map edge_norm xs = map edge_norm ys" and "\<And>d. edge_norm (f d) = f (edge_norm d)"
  shows "map edge_norm (map f xs) = map edge_norm (map f ys)"
proof -
  have "map edge_norm (map f zs) = map f (map edge_norm zs)" for zs
    using assms(2) by (induction zs) simp_all
  with assms(1) show ?thesis by metis
qed

text \<open>A step respects the equivalence.\<close>

definition respectful :: "(db \<Rightarrow> db res) \<Rightarrow> bool" where
  "respectful f \<longleftrightarrow> (\<forall>a b b'. peq a b \<longrightarrow> f b = Inr b' \<longrightarrow> (\<exists>a'. f a = Inr a' \<and> peq a' b'))"

lemma respectsD: "respectful f \<Longrightarrow> peq a b \<Longrightarrow> f b = Inr b' \<Longrightarrow> \<exists>a'. f a = Inr a' \<and> peq a' b'"
  by (simp add: respectful_def)

lemma respects_bind: "respectful f \<Longrightarrow> respectful g \<Longrightarrow> respectful (\<lambda>d. rbind (f d) g)"
  unfolding respectful_def by (fastforce elim!: rbindE)

lemma respects_rfold: "(\<And>x. respectful (f x)) \<Longrightarrow> respectful (rfold f xs)"
proof (induction xs)
  case Nil
  then show ?case by (simp add: respectful_def)
next
  case (Cons x xs)
  then show ?case using respects_bind [of "f x" "rfold f xs"] by simp
qed

lemma respects_pure: "(\<And>a b. peq a b \<Longrightarrow> peq (f a) (f b)) \<Longrightarrow> respectful (\<lambda>d. Inr (f d))"
  by (auto simp: respectful_def)

lemma respects_const: "respectful (\<lambda>d. Inl e)"
  by (simp add: respectful_def)

lemma peq_update_entity: "peq a b \<Longrightarrow> peq (update_entity e f a) (update_entity e f b)"
  by (simp add: peq_def update_entity_def)

lemma peq_delete_entity: "peq a b \<Longrightarrow> peq (delete_entity e a) (delete_entity e b)"
  by (auto simp: peq_def delete_entity_def intro: norm_filter)

lemma peq_delete_edge: "peq a b \<Longrightarrow> peq (delete_edge e a) (delete_edge e b)"
  by (auto simp: peq_def delete_edge_def intro: norm_filter)

lemma peq_fts [simp]: "peq (delete_fts e a) b = peq a b" "peq a (delete_fts e b) = peq a b"
  "peq (insert_fts e t a) b = peq a b" "peq a (insert_fts e t b) = peq a b"
  "peq (syncEntityFTS e a) b = peq a b" "peq a (syncEntityFTS e b) = peq a b"
  by (simp_all add: peq_def delete_fts_def insert_fts_def)

lemma respects_insert_entity: "respectful (insert_entity r)"
  by (auto simp: respectful_def insert_entity_def peq_has_entity split: if_splits) (simp add: peq_def)

lemma respects_insert_ext: "respectful (insert_ext_or_ignore x)"
  unfolding respectful_def
proof (intro allI impI)
  fix a b b' assume p: "peq a b" and i: "insert_ext_or_ignore x b = Inr b'"
  then show "\<exists>a'. insert_ext_or_ignore x a = Inr a' \<and> peq a' b'"
    using peq_has_entity [OF p, of "xr_entity x"]
    by (auto simp: insert_ext_or_ignore_def peq_def split: if_splits)
qed

lemma respects_insert_emb: "respectful (insert_emb_or_replace m)"
  unfolding respectful_def
proof (intro allI impI)
  fix a b b' assume p: "peq a b" and i: "insert_emb_or_replace m b = Inr b'"
  then show "\<exists>a'. insert_emb_or_replace m a = Inr a' \<and> peq a' b'"
    using peq_has_entity [OF p, of "mr_entity m"]
    by (auto simp: insert_emb_or_replace_def peq_def split: if_splits)
qed

lemma respects_upsert_row: "respectful (upsert_row e ts)"
  unfolding respectful_def
proof (intro allI impI)
  fix a b b' assume p: "peq a b" and u: "upsert_row e ts b = Inr b'"
  from u show "\<exists>a'. upsert_row e ts a = Inr a' \<and> peq a' b'"
  proof (cases rule: upsert_row_cases)
    case (insert j)
    from respectsD [OF respects_insert_entity p insert(2)] insert(1,3) peq_has_entity [OF p]
    show ?thesis by (simp add: upsert_row_def Let_def)
  next
    case (attach j)
    with p peq_has_entity [OF p, of "E_ID e"] show ?thesis
      by (auto simp: upsert_row_def Let_def props_col_def raw_len0_def intro: peq_update_entity)
  next
    case bump
    with p peq_has_entity [OF p, of "E_ID e"] show ?thesis
      by (auto simp: upsert_row_def Let_def raw_len0_def intro: peq_update_entity)
  qed
qed

lemma respects_upsertEntitySnapshot: "respectful (upsertEntitySnapshot e ts)"
proof -
  have "respectful (\<lambda>d. Inr (syncEntityFTS (E_ID e) d))" by (rule respects_pure) simp
  note respects_bind [OF respects_rfold [OF respects_insert_emb] this]
  note respects_bind [OF respects_rfold [OF respects_insert_ext] this]
  note respects_bind [OF respects_upsert_row this]
  then show ?thesis by (simp add: upsertEntitySnapshot_def [abs_def])
qed

lemma respects_insert_edge: "respectful (insert_edge_or_replace d)"
  unfolding respectful_def
proof (intro allI impI)
  fix a b b' assume p: "peq a b" and i: "insert_edge_or_replace d b = Inr b'"
  have "map edge_norm (filter (\<lambda>r. dr_id r \<noteq> dr_id d) (edges a)) = map edge_norm (filter (\<lambda>r. dr_id r \<noteq> dr_id d) (edges b))"
    using p by (intro norm_filter) (simp_all add: peq_def)
  then show "\<exists>a'. insert_edge_or_replace d a = Inr a' \<and> peq a' b'"
    using p i peq_has_entity [OF p]
    by (auto simp: insert_edge_or_replace_def peq_def split: if_splits)
qed

lemma respects_upsertEdgeSnapshot: "respectful (upsertEdgeSnapshot d ts)"
proof (cases "opt_props_col (D_Props d)")
  case (Inl e)
  then show ?thesis by (simp add: upsertEdgeSnapshot_def [abs_def] respects_const)
next
  case (Inr j)
  then show ?thesis by (simp add: upsertEdgeSnapshot_def [abs_def] respects_insert_edge)
qed

lemma respects_mergeEntitiesTx: "respectful (mergeEntitiesTx k g ts)"
proof (cases "k = g")
  case True
  then show ?thesis by (simp add: mergeEntitiesTx_def [abs_def] respectful_def)
next
  case False
  have x: "respectful (\<lambda>d. move_ext k g (d\<lparr>entity_external_ids := del_dups xr_entity xr_key k g (entity_external_ids d)\<rparr>))"
    by (auto simp: respectful_def move_ext_def Let_def peq_def has_entity_def split: if_splits)
  have l: "respectful (\<lambda>d. move_labels k g (d\<lparr>entity_labels := del_dups fst snd k g (entity_labels d)\<rparr>))"
    by (auto simp: respectful_def move_labels_def Let_def peq_def has_entity_def split: if_splits)
  have m: "respectful (\<lambda>d. move_emb k g (d\<lparr>embeddings := del_dups mr_entity mr_key k g (embeddings d)\<rparr>))"
    by (auto simp: respectful_def move_emb_def Let_def peq_def has_entity_def split: if_splits)
  have rf: "respectful (repoint_from k g)"
    unfolding respectful_def
  proof (intro allI impI)
    fix a b b' assume p: "peq a b" and i: "repoint_from k g b = Inr b'"
    have e: "map edge_norm (edges a) = map edge_norm (edges b)" using p by (simp add: peq_def)
    have "list_ex (\<lambda>d. dr_from d = g) (edges a) = list_ex (\<lambda>d. dr_from d = g) (edges b)"
      by (rule norm_list_ex [OF e]) simp
    moreover have "map edge_norm (map (\<lambda>d. if dr_from d = g then d\<lparr>dr_from := k\<rparr> else d) (edges a))
        = map edge_norm (map (\<lambda>d. if dr_from d = g then d\<lparr>dr_from := k\<rparr> else d) (edges b))"
      by (rule norm_map [OF e]) (simp add: edge_norm_def)
    ultimately show "\<exists>a'. repoint_from k g a = Inr a' \<and> peq a' b'"
      using i p peq_has_entity [OF p, of k] by (auto simp: repoint_from_def peq_def split: if_splits)
  qed
  have rt: "respectful (repoint_to k g)"
    unfolding respectful_def
  proof (intro allI impI)
    fix a b b' assume p: "peq a b" and i: "repoint_to k g b = Inr b'"
    have e: "map edge_norm (edges a) = map edge_norm (edges b)" using p by (simp add: peq_def)
    have "list_ex (\<lambda>d. dr_to d = g) (edges a) = list_ex (\<lambda>d. dr_to d = g) (edges b)"
      by (rule norm_list_ex [OF e]) simp
    moreover have "map edge_norm (map (\<lambda>d. if dr_to d = g then d\<lparr>dr_to := k\<rparr> else d) (edges a))
        = map edge_norm (map (\<lambda>d. if dr_to d = g then d\<lparr>dr_to := k\<rparr> else d) (edges b))"
      by (rule norm_map [OF e]) (simp add: edge_norm_def)
    ultimately show "\<exists>a'. repoint_to k g a = Inr a' \<and> peq a' b'"
      using i p peq_has_entity [OF p, of k] by (auto simp: repoint_to_def peq_def split: if_splits)
  qed
  have "respectful (\<lambda>d. Inr (update_entity k (\<lambda>r. r\<lparr>er_updated_at := fmtTS ts\<rparr>) (delete_fts g (delete_entity g d))))"
    by (rule respects_pure) (simp add: peq_update_entity peq_delete_entity)
  note respects_bind [OF x respects_bind [OF l respects_bind [OF m respects_bind [OF rf respects_bind [OF rt this]]]]]
  with False show ?thesis by (simp add: mergeEntitiesTx_def [abs_def] Let_def)
qed

lemma respects_fold_row: "respectful (fold_row f)"
proof (cases "f_kind f")
  case FactEntityAsserted
  then show ?thesis
    by (cases "f_payload f") (simp_all add: fold_row_def [abs_def] foldFact_def [abs_def] unmarshal_entity_def
        respects_const respects_upsertEntitySnapshot)
next
  case FactEdgeAsserted
  then show ?thesis
    by (cases "f_payload f") (simp_all add: fold_row_def [abs_def] foldFact_def [abs_def] unmarshal_edge_def
        respects_const respects_upsertEdgeSnapshot)
next
  case FactEntityMerged
  then show ?thesis
    by (cases "f_payload f") (simp_all add: fold_row_def [abs_def] foldFact_def [abs_def] unmarshal_merge_def
        respects_const respects_mergeEntitiesTx)
next
  case FactEntityRetracted
  then show ?thesis
    using respects_pure [of "delete_entity (f_subject f)", OF peq_delete_entity]
    by (simp add: fold_row_def [abs_def] foldFact_def [abs_def])
next
  case FactEdgeRetracted
  then show ?thesis
    using respects_pure [of "delete_edge (f_subject f)", OF peq_delete_edge]
    by (simp add: fold_row_def [abs_def] foldFact_def [abs_def])
next
  case (FactOther k)
  then show ?thesis by (simp add: fold_row_def [abs_def] foldFact_def [abs_def] respects_const)
qed

interpretation log: event_log fold_row peq
proof unfold_locales
  show "peq p p" for p by simp
  show "peq p r" if "peq p q" "peq q r" for p q r using that by (rule peq_trans)
  show "\<exists>p'. fold_row f p = Inr p' \<and> peq p' q'" if "peq p q" "fold_row f q = Inr q'" for p q f q'
    using respectsD [OF respects_fold_row that] .
qed

section \<open>Every write appends what it did\<close>

text \<open>
  \<open>extends db db'\<close>: the facts appended between the two databases fold the first projection into
  the second.
\<close>

definition extends :: "db \<Rightarrow> db \<Rightarrow> bool" where
  "extends db db' \<longleftrightarrow> (\<exists>new q. facts db' = facts db @ new \<and> rfold fold_row new db = Inr q \<and> peq q db')"

lemma extendsI: "facts db' = facts db @ new \<Longrightarrow> rfold fold_row new db = Inr q \<Longrightarrow> peq q db' \<Longrightarrow> extends db db'"
  by (auto simp: extends_def)

lemma extends_same: "facts db' = facts db \<Longrightarrow> peq db db' \<Longrightarrow> extends db db'"
  by (rule extendsI [where new = "[]"]) simp_all

lemma extends_trans:
  assumes "extends a b" and "extends b c"
  shows "extends a c"
proof -
  from assms obtain n1 q1 n2 q2 where
    s: "facts b = facts a @ n1" "rfold fold_row n1 a = Inr q1" "peq q1 b"
      "facts c = facts b @ n2" "rfold fold_row n2 b = Inr q2" "peq q2 c"
    unfolding extends_def by blast
  from log.fold_extend [OF s(2,3,5,6)] obtain p where "rfold fold_row (n1 @ n2) a = Inr p" "peq p c" by blast
  then show ?thesis by (intro extendsI [where new = "n1 @ n2"]) (simp_all add: s(1,4))
qed

lemma extends_fact:
  assumes f: "foldFact kind sub pl ts db = Inr db0" and p: "peq db0 db1" and fs: "facts db1 = facts db"
    and i: "insertFact nid kind sub w dk pl ac ts db1 = Inr db'"
  shows "extends db db'"
  using i
proof (rule insertFactE)
  fix f
  assume db': "db' = db1\<lparr>facts := facts db1 @ [f]\<rparr>" and "f_kind f = kind" "f_subject f = sub"
    "f_payload f = pl" "f_created_at f = fmtTS ts"
  then have "rfold fold_row [f] db = Inr db0" using f by (simp add: fold_row_def)
  moreover have "peq db0 db'" using p by (simp add: db' peq_def)
  ultimately show ?thesis by (intro extendsI [where new = "[f]"]) (simp_all add: db' fs)
qed

definition doc_props :: "entity \<Rightarrow> bool" where
  "doc_props e = (case E_Props e of RawDoc j \<Rightarrow> True | _ \<Rightarrow> False)"

lemma marshal_doc: "doc_props e \<Longrightarrow> marshal_entity e = Inr pl \<Longrightarrow> pl = PEntity e"
  by (auto simp: doc_props_def marshal_entity_def wire_props_def split: rawmsg.splits if_splits)

lemma extends_entity:
  assumes "upsertEntitySnapshot e ts db = Inr db1" and "appendEntityFact nid e w dk ac ts db1 = Inr db'"
    and "doc_props e"
  shows "extends db db'"
  using assms(2)
proof (rule appendEntityFactE)
  fix pl
  assume m: "marshal_entity e = Inr pl" and i: "insertFact nid FactEntityAsserted (E_ID e) w dk pl ac ts db1 = Inr db'"
  from marshal_doc [OF assms(3) m] assms(1) have "foldFact FactEntityAsserted (E_ID e) pl ts db = Inr db1"
    by (simp add: foldFact_def unmarshal_entity_def)
  from extends_fact [OF this peq_refl _ i] upsertEntitySnapshot_proposals [OF assms(1)] show ?thesis by simp
qed

lemma extends_edge:
  assumes u: "upsertEdgeSnapshot ed ts db = Inr db1" and m: "marshal_edge ed = Inr pl"
    and i: "insertFact nid FactEdgeAsserted sub w dk pl ac ts db1 = Inr db'"
  shows "extends db db'"
proof -
  have "\<exists>db0. foldFact FactEdgeAsserted sub pl ts db = Inr db0 \<and> peq db0 db1"
  proof (cases "D_Props ed")
    case RawEmpty
    let ?row = "\<lambda>j. edge_to_row ed j (normalizeProvenance (D_Provenance ed) ts) (fmtTS ts)"
    have "edge_to_row (ed\<lparr>D_Props := RawDoc JNull\<rparr>) j p t = edge_to_row ed j p t" for j p t
      by (simp add: edge_to_row_def)
    moreover from RawEmpty m have "pl = PEdge (ed\<lparr>D_Props := RawDoc JNull\<rparr>)"
      by (simp add: marshal_edge_def wire_props_def)
    ultimately have "foldFact FactEdgeAsserted sub pl ts db = insert_edge_or_replace (?row (Some JNull)) db"
      by (simp add: foldFact_def unmarshal_edge_def upsertEdgeSnapshot_def opt_props_col_def raw_len0_def props_col_def)
    moreover from RawEmpty u have "insert_edge_or_replace (?row None) db = Inr db1"
      by (simp add: upsertEdgeSnapshot_def opt_props_col_def raw_len0_def)
    moreover have "edge_norm (?row (Some JNull)) = edge_norm (?row None)"
      by (simp add: edge_norm_def edge_to_row_def)
    ultimately show ?thesis
      by (auto simp: insert_edge_or_replace_def peq_def edge_to_row_def split: if_splits)
  next
    case (RawBad b)
    with m show ?thesis by (simp add: marshal_edge_def wire_props_def)
  next
    case (RawDoc j)
    with m have "pl = PEdge ed" by (cases ed) (auto simp: marshal_edge_def wire_props_def)
    with u show ?thesis by (simp add: foldFact_def unmarshal_edge_def)
  qed
  then obtain db0 where "foldFact FactEdgeAsserted sub pl ts db = Inr db0" "peq db0 db1" by blast
  from extends_fact [OF this _ i] upsertEdgeSnapshot_proposals [OF u] show ?thesis by simp
qed

lemma extends_merge:
  assumes "mergeEntitiesTx k g ts db = Inr db1"
    and "insertFact nid FactEntityMerged g w dk (PMerge k g) ac ts db1 = Inr db'"
  shows "extends db db'"
proof -
  have "foldFact FactEntityMerged g (PMerge k g) ts db = Inr db1"
    using assms(1) by (simp add: foldFact_def unmarshal_merge_def)
  from extends_fact [OF this peq_refl _ assms(2)] mergeEntitiesTx_proposals [OF assms(1)] show ?thesis by simp
qed

lemma extends_insert_new:
  assumes "insert_new env k dk ts inp cand0 d db = Inr (db', eid)" and "doc_props cand0"
  shows "extends db db'"
  using assms(1)
proof (cases rule: insert_newE)
  case (plain db1)
  from plain(2,3) show ?thesis by (rule extends_entity) (use assms(2) in \<open>simp add: doc_props_def\<close>)
next
  case (flagged db1 db2 db3 ed pl)
  from flagged(2,3) have "extends db db2" by (rule extends_entity) (use assms(2) in \<open>simp add: doc_props_def\<close>)
  moreover from flagged(7,8,9) have "extends db2 db'" by (rule extends_edge)
  ultimately show ?thesis by (rule extends_trans)
qed

lemma extends_attach_to:
  assumes "attach_to env k dk ts inp cand0 target db = Inr (db', eid)" and "doc_props cand0"
  shows "extends db db'"
  using assms(1)
proof (rule attach_toE)
  fix db1
  assume "upsertEntitySnapshot (cand0\<lparr>E_ID := target\<rparr>) ts db = Inr db1"
    "appendEntityFact (env_newID env k) (cand0\<lparr>E_ID := target\<rparr>) (AE_Writer inp) dk (AE_Actor inp) ts db1 = Inr db'"
  then show ?thesis by (rule extends_entity) (use assms(2) in \<open>simp add: doc_props_def\<close>)
qed

lemma extends_merge_all:
  assumes "merge_all env k dk ts inp cand0 keep targets db = Inr (db', eid)" and "doc_props cand0"
  shows "extends db db'"
proof -
  from assms(1) obtain db1 where
    m: "rfold (merge_one env k dk ts inp keep) (enumerate 0 (drop 1 targets)) db = Inr db1" and
    a: "attach_to env (k + length (drop 1 targets)) dk ts inp cand0 keep db1 = Inr (db', eid)"
    by (auto simp: merge_all_def elim!: rbindE)
  have "extends db db1"
  proof (rule rfold_invariant [OF m])
    show "extends db db" by (simp add: extends_same)
    fix p s t assume e: "extends db s" and "merge_one env k dk ts inp keep p s = Inr t"
    then have "extends s t"
      by (auto simp: merge_one_def appendMergeFact_def elim!: rbindE intro: extends_merge)
    with e show "extends db t" by (rule extends_trans)
  qed
  then show ?thesis using extends_attach_to [OF a assms(2)] by (rule extends_trans)
qed

lemma extends_apply_decision:
  "apply_decision env k dk ts inp cand d db = Inr (db', eid) \<Longrightarrow> doc_props cand \<Longrightarrow> extends db db'"
  by (cases "Action d")
     (auto simp: apply_decision_def intro: extends_insert_new extends_attach_to extends_merge_all)

lemma extends_AppendEntityFact:
  assumes "doc_props (AE_Candidate inp)"
  shows "extends db (fst (AppendEntityFact env inp db))"
proof (cases rule: AppendEntityFact_cases [of env inp db])
  case (unchanged r e)
  then show ?thesis by (simp add: extends_same)
next
  case (appended db' r cand)
  from appended(2) assms have "doc_props cand" by (simp add: doc_props_def)
  with appended(3) have "extends db db'" by (auto elim: append_resolvedE intro: extends_apply_decision)
  with appended(1) show ?thesis by simp
qed

lemma extends_AppendEdgeFact: "extends db (fst (AppendEdgeFact env inp db))"
proof (cases rule: AppendEdgeFact_cases [of env inp db])
  case (unchanged r e)
  then show ?thesis by (simp add: extends_same)
next
  case (appended db' out ed)
  from appended(3) have "extends db db'" by (rule append_edge_txE) (rule extends_edge)
  with appended(1) show ?thesis by simp
qed

lemma extends_MergeEntities: "extends db (fst (MergeEntities env keep gone actor dk db))"
proof (cases "merge_entities_tx env keep gone actor dk db")
  case (Inl e)
  then show ?thesis by (simp add: MergeEntities_def commit_def extends_same)
next
  case (Inr db')
  then have "extends db db'" by (rule merge_entities_txE) (rule extends_merge)
  with Inr show ?thesis by (simp add: MergeEntities_def commit_def)
qed

lemma extends_RetractEntity: "extends db (fst (RetractEntity env e actor dk db))"
proof (cases "retract_entity_tx env e actor dk db")
  case (Inl x)
  then show ?thesis by (simp add: RetractEntity_def commit_def extends_same)
next
  case (Inr db')
  have "foldFact FactEntityRetracted e PEmpty (env_now env 0) db = Inr (delete_entity e db)"
    by (simp add: foldFact_def)
  moreover have "peq (delete_entity e db) (delete_fts e (delete_entity e db))"
    "facts (delete_fts e (delete_entity e db)) = facts db"
    by simp (simp add: delete_fts_def delete_entity_def)
  moreover from Inr obtain dk' where "insertFact (env_newID env 0) FactEntityRetracted e actor dk' PEmpty actor
      (env_now env 0) (delete_fts e (delete_entity e db)) = Inr db'"
    by (auto simp: retract_entity_tx_def Let_def)
  ultimately have "extends db db'" by (rule extends_fact)
  with Inr show ?thesis by (simp add: RetractEntity_def commit_def)
qed

lemma extends_RetractEdge: "extends db (fst (RetractEdge env e actor dk db))"
proof (cases "retract_edge_tx env e actor dk db")
  case (Inl x)
  then show ?thesis by (simp add: RetractEdge_def commit_def extends_same)
next
  case (Inr db')
  have "foldFact FactEdgeRetracted e PEmpty (env_now env 0) db = Inr (delete_edge e db)"
    by (simp add: foldFact_def)
  moreover have "facts (delete_edge e db) = facts db" by (simp add: delete_edge_def)
  moreover from Inr obtain dk' where "insertFact (env_newID env 0) FactEdgeRetracted e actor dk' PEmpty actor
      (env_now env 0) (delete_edge e db) = Inr db'"
    by (auto simp: retract_edge_tx_def Let_def)
  ultimately have "extends db db'" by (intro extends_fact [OF _ peq_refl])
  with Inr show ?thesis by (simp add: RetractEdge_def commit_def)
qed

lemma peq_proposals [simp]: "peq a (update_pending i st ts b db) = peq a db"
  "peq a (set_result_subject i s db) = peq a db" "peq a (db\<lparr>proposals := ps\<rparr>) = peq a db"
  by (simp_all add: peq_def update_pending_def set_result_subject_def)

lemma facts_proposals [simp]: "facts (update_pending i st ts b db) = facts db"
  "facts (set_result_subject i s db) = facts db"
  by (simp_all add: update_pending_def set_result_subject_def)

lemma extends_Propose: "extends db (fst (Propose env p db))"
  by (rule extends_same) (simp_all add: Propose_def Let_def)

definition intent_ok :: "(append_entity_input \<Rightarrow> bool) \<Rightarrow> proposal_payload \<Rightarrow> bool" where
  "intent_ok ok pl = (case pl of PPEntity inp \<Rightarrow> ok inp | _ \<Rightarrow> True)"

lemma extends_replay_intent:
  assumes "intent_ok (\<lambda>inp. doc_props (AE_Candidate inp)) pl"
  shows "extends db (fst (replay_intent env kind pl db))"
  using assms extends_AppendEntityFact [of _ db env] extends_AppendEdgeFact [of db env]
    extends_same [of db db]
  by (auto simp: replay_intent_def intent_ok_def Let_def case_prod_beta
      split: fact_kind.split proposal_payload.split)

lemma extends_DecideProposal:
  assumes "\<And>p. p \<in> set (proposals db) \<Longrightarrow> intent_ok (\<lambda>inp. doc_props (AE_Candidate inp)) (pr_payload p)"
  shows "extends db (fst (DecideProposal env i approve a db))"
proof (cases rule: DecideProposal_cases [of db i env approve a])
  case missing
  then show ?thesis by (simp add: extends_same)
next
  case (decided p)
  then show ?thesis by (simp add: extends_same)
next
  case (rejected p)
  then show ?thesis by (simp add: extends_same)
next
  case (failed p db' r s e)
  let ?db1 = "update_pending i StPromoted (fmtTS (env_now env 0)) a db"
  have "p \<in> set (proposals db)" using failed(1) by (auto simp: get_proposal_def dest: lookup_row_SomeD)
  then have "extends ?db1 db'"
    using extends_replay_intent [OF assms, of p ?db1 "later 1 env" "pr_kind p"] failed(4) by simp
  then have "extends db db'" by (intro extends_trans [OF extends_same [of ?db1 db]]) simp_all
  with failed(5) show ?thesis by simp
next
  case (promoted p db' r s)
  let ?db1 = "update_pending i StPromoted (fmtTS (env_now env 0)) a db"
  have "p \<in> set (proposals db)" using promoted(1) by (auto simp: get_proposal_def dest: lookup_row_SomeD)
  then have "extends ?db1 db'"
    using extends_replay_intent [OF assms, of p ?db1 "later 1 env" "pr_kind p"] promoted(4) by simp
  then have "extends db db'" by (intro extends_trans [OF extends_same [of ?db1 db]]) simp_all
  then have "extends db (set_result_subject i s db')"
    by (rule extends_trans) (rule extends_same, simp_all)
  with promoted(5) show ?thesis by simp
qed

end
