(* ===== verification/Jdx_Pg.thy ===== *)
theory Jdx_Pg
  imports Jdx_Replay
begin

text \<open>
  The Postgres adapter (\<open>internal/store/postgres\<close>): its writes. The tables are those of the SQLite
  schema, so a database is a \<open>db\<close> again; \<open>entities_fts\<close> holds the \<open>search_text\<close> column, keyed by the
  entity. The pgvector column \<open>embedding\<close> mirrors the vector blob and is absent for an empty
  one. What the dialect decides is written out: \<open>jsonb\<close> normalises a document and rejects a NUL,
  \<open>||\<close> is not recursive, a conflict clause keeps the row, a vector literal must be finite, the log
  numbers come from a sequence. Collation is taken to be by byte, and no text has a NUL byte.

  An append is split where its transaction is: what it reads to decide (\<open>pg_plan\<close>) and what it
  then writes (\<open>pg_execute\<close>), because another transaction may commit between the two.
\<close>

section \<open>Postgres itself\<close>

text \<open>The number \<open>nextval\<close> gives, on a log, to the fact whose id is the n-th drawn; how \<open>numeric\<close> prints a number;
  pgvector's cosine distance, an error for vectors of different dimensions.\<close>

record pgparam =
  PG_nextval :: "fact_row list \<Rightarrow> nat \<Rightarrow> nat"
  PG_numeric :: "string \<Rightarrow> string"
  PG_dist :: "f32bits list \<Rightarrow> f32bits list \<Rightarrow> real option"

definition jsonb_obj :: "(string \<times> json) list \<Rightarrow> json" where
  "jsonb_obj kvs = JObj (sort_key (\<lambda>p. (length (fst p), fst p)) (obj_norm kvs))"

fun jsonb :: "(string \<Rightarrow> string) \<Rightarrow> json \<Rightarrow> json" where
  "jsonb num (JNum n) = JNum (num n)"
| "jsonb num (JArr js) = JArr (map (jsonb num) js)"
| "jsonb num (JObj kvs) = jsonb_obj (map (\<lambda>p. (fst p, jsonb num (snd p))) kvs)"
| "jsonb num j = j"

fun json_nul_free :: "json \<Rightarrow> bool" where
  "json_nul_free (JStr s) = nul_free s"
| "json_nul_free (JArr js) = list_all json_nul_free js"
| "json_nul_free (JObj kvs) = list_all (\<lambda>p. nul_free (fst p) \<and> json_nul_free (snd p)) kvs"
| "json_nul_free j = True"

text \<open>The cast \<open>text::jsonb\<close>.\<close>

definition to_jsonb :: "pgparam \<Rightarrow> rawmsg \<Rightarrow> json res" where
  "to_jsonb pg p = (case p of RawDoc j \<Rightarrow> if json_nul_free j then Inr (jsonb (PG_numeric pg) j) else Inl ErrSQL
     | _ \<Rightarrow> Inl ErrSQL)"

text \<open>\<open>a || b\<close>: the union of two objects, the second wins; otherwise a concatenation of arrays.\<close>

definition jsonb_elems :: "json \<Rightarrow> json list" where
  "jsonb_elems j = (case j of JArr js \<Rightarrow> js | _ \<Rightarrow> [j])"

definition jsonb_concat :: "json \<Rightarrow> json \<Rightarrow> json" where
  "jsonb_concat a b = (case a of
       JObj x \<Rightarrow> (case b of JObj y \<Rightarrow> jsonb_obj (x @ y) | _ \<Rightarrow> JArr (jsonb_elems a @ jsonb_elems b))
     | _ \<Rightarrow> JArr (jsonb_elems a @ jsonb_elems b))"

text \<open>The literal \<open>[x,...]::vector\<close> is accepted for one to 16000 finite components.\<close>

definition vecLiteral_ok :: "f32bits list \<Rightarrow> bool" where
  "vecLiteral_ok v \<longleftrightarrow> v \<noteq> [] \<and> length v \<le> 16000 \<and> (\<forall>w \<in> set v. f32_finite w)"

section \<open>The fact log\<close>

definition jsonb_props :: "pgparam \<Rightarrow> rawmsg \<Rightarrow> rawmsg res" where
  "jsonb_props pg p = (case p of RawDoc j \<Rightarrow> rbind (to_jsonb pg p) (\<lambda>j'. Inr (RawDoc j')) | _ \<Rightarrow> Inr p)"

definition pg_payload :: "pgparam \<Rightarrow> payload \<Rightarrow> payload res" where
  "pg_payload pg pl = (case pl of
       PEntity e \<Rightarrow> rbind (jsonb_props pg (E_Props e)) (\<lambda>p. Inr (PEntity (e\<lparr>E_Props := p\<rparr>)))
     | PEdge d \<Rightarrow> rbind (jsonb_props pg (D_Props d)) (\<lambda>p. Inr (PEdge (d\<lparr>D_Props := p\<rparr>)))
     | _ \<Rightarrow> Inr pl)"

definition pg_insertFact ::
    "pgparam \<Rightarrow> env \<Rightarrow> nat \<Rightarrow> fact_kind \<Rightarrow> string \<Rightarrow> writer_id \<Rightarrow> string \<Rightarrow> payload \<Rightarrow> principal_id \<Rightarrow> time \<Rightarrow> db \<Rightarrow> db res" where
  "pg_insertFact pg env k kind subject writer dedupeKey pl actor ts db =
     rbind (pg_payload pg pl) (\<lambda>pl'.
       if \<not> FactKind_Valid kind then Inl ErrSQL
       else if list_ex (\<lambda>f. f_writer f = writer \<and> f_dedupe f = dedupeKey) (facts db) then Inl ErrDuplicateFact
       else Inr (db\<lparr>facts := facts db @ [\<lparr>f_seq = PG_nextval pg (facts db) k, f_id = env_newID env k, f_kind = kind,
         f_subject = subject, f_writer = writer, f_dedupe = dedupeKey, f_payload = pl', f_actor = actor,
         f_created_at = fmtTS ts\<rparr>]\<rparr>))"

definition pg_appendEntityFact ::
    "pgparam \<Rightarrow> env \<Rightarrow> nat \<Rightarrow> entity \<Rightarrow> writer_id \<Rightarrow> string \<Rightarrow> principal_id \<Rightarrow> time \<Rightarrow> db \<Rightarrow> db res" where
  "pg_appendEntityFact pg env k snapshot writer dedupeKey actor ts db =
     rbind (marshal_entity snapshot) (\<lambda>pl.
       pg_insertFact pg env k FactEntityAsserted (E_ID snapshot) writer dedupeKey pl actor ts db)"

definition pg_appendMergeFact ::
    "pgparam \<Rightarrow> env \<Rightarrow> nat \<Rightarrow> entity_id \<Rightarrow> entity_id \<Rightarrow> writer_id \<Rightarrow> string \<Rightarrow> principal_id \<Rightarrow> time \<Rightarrow> db \<Rightarrow> db res" where
  "pg_appendMergeFact pg env k keep gone writer dedupeKey actor ts db =
     pg_insertFact pg env k FactEntityMerged gone writer dedupeKey (PMerge keep gone) actor ts db"

section \<open>Snapshots\<close>

definition pg_normalizeProvenance :: "provenance \<Rightarrow> time \<Rightarrow> provenance" where
  "pg_normalizeProvenance p ts =
     (let p1 = (if Method p = MethodOther [] then p\<lparr>Method := Asserted\<rparr> else p);
          p2 = (if Confidence p1 = 0 \<and> Method p1 = Asserted then p1\<lparr>Confidence := 1\<rparr> else p1)
      in if AssertedAt p2 = 0 then p2\<lparr>AssertedAt := ts\<rparr> else p2)"

definition pg_upsert_row :: "pgparam \<Rightarrow> entity \<Rightarrow> time \<Rightarrow> db \<Rightarrow> db res" where
  "pg_upsert_row pg e ts db =
     (let tsS = fmtTS ts; p = pg_normalizeProvenance (E_Provenance e) ts;
          props = (if raw_len0 (E_Props e) then RawDoc (JObj []) else E_Props e) in
      rbind (to_jsonb pg props) (\<lambda>j.
        if \<not> has_entity db (E_ID e) then insert_entity (entity_to_row e j p tsS) db
        else Inr (update_entity (E_ID e) (\<lambda>r. r\<lparr>er_props := jsonb_concat j (er_props r), er_updated_at := tsS\<rparr>) db)))"

definition pg_insert_emb :: "emb_row \<Rightarrow> f32bits list \<Rightarrow> db \<Rightarrow> db res" where
  "pg_insert_emb m v db =
     (if v \<noteq> [] \<and> \<not> vecLiteral_ok v then Inl ErrSQL
      else if list_ex (\<lambda>n. mr_entity n = mr_entity m \<and> mr_key n = mr_key m) (embeddings db) then
        Inr (db\<lparr>embeddings := map (\<lambda>n. if mr_entity n = mr_entity m \<and> mr_key n = mr_key m then m else n) (embeddings db)\<rparr>)
      else if \<not> has_entity db (mr_entity m) then Inl ErrSQL
      else Inr (db\<lparr>embeddings := embeddings db @ [m]\<rparr>))"

definition pg_extractSearchText :: "json \<Rightarrow> etype \<Rightarrow> string" where
  "pg_extractSearchText props typ =
     Join (typ # concat (map (\<lambda>(k, v). case v of JStr s \<Rightarrow> if s \<noteq> [] then [s] else [] | _ \<Rightarrow> [])
       (obj_norm (members props)))) '' ''"

text \<open>The column of a row that is gone is gone; \<open>UPDATE\<close> replaces it.\<close>

definition syncEntitySearchText :: "entity_id \<Rightarrow> db \<Rightarrow> db" where
  "syncEntitySearchText e db = (case get_entity_row db e of
       None \<Rightarrow> db
     | Some r \<Rightarrow> insert_fts e (pg_extractSearchText (er_props r) (er_type r)) (delete_fts e db))"

definition pg_upsertEntitySnapshot :: "pgparam \<Rightarrow> entity \<Rightarrow> time \<Rightarrow> db \<Rightarrow> db res" where
  "pg_upsertEntitySnapshot pg e ts db =
     rbind (pg_upsert_row pg e ts db) (\<lambda>db1.
     rbind (rfold (\<lambda>x. insert_ext_or_ignore (ext_to_row e x)) (E_ExternalIDs e) db1) (\<lambda>db2.
     rbind (rfold (\<lambda>m. pg_insert_emb (emb_to_row e m) (Vector m)) (E_Embeddings e) db2) (\<lambda>db3.
     Inr (syncEntitySearchText (E_ID e) db3))))"

text \<open>A conflict on the id leaves the stored edge as it is. The constraints are checked on the new row.\<close>

definition pg_insert_edge :: "edge_row \<Rightarrow> db \<Rightarrow> db res" where
  "pg_insert_edge d db =
     (if \<not> Visibility_Valid (dr_vis d) \<or> \<not> AssertMethod_Valid (pv_method (dr_prov d)) then Inl ErrSQL
      else if dr_id d \<in> dr_id ` set (edges db) then Inr db
      else if \<not> has_entity db (dr_from d) \<or> \<not> has_entity db (dr_to d) then Inl ErrSQL
      else Inr (db\<lparr>edges := edges db @ [d]\<rparr>))"

definition pg_upsertEdgeSnapshot :: "pgparam \<Rightarrow> edge \<Rightarrow> time \<Rightarrow> db \<Rightarrow> db res" where
  "pg_upsertEdgeSnapshot pg d ts db =
     rbind (if raw_len0 (D_Props d) then Inr None else rbind (to_jsonb pg (D_Props d)) (\<lambda>j. Inr (Some j))) (\<lambda>j.
       pg_insert_edge (edge_to_row d j (pg_normalizeProvenance (D_Provenance d) ts) (fmtTS ts)) db)"

definition pg_delete_entity :: "entity_id \<Rightarrow> db \<Rightarrow> db" where
  "pg_delete_entity e db = delete_fts e (delete_entity e db)"

text \<open>The ten statements of a merge.\<close>

definition pg_mergeEntitiesTx :: "entity_id \<Rightarrow> entity_id \<Rightarrow> time \<Rightarrow> db \<Rightarrow> db res" where
  "pg_mergeEntitiesTx keep gone ts db =
     (if keep = gone then Inr db
      else
        rbind (move_ext keep gone
          (db\<lparr>entity_external_ids := del_dups xr_entity xr_key keep gone (entity_external_ids db)\<rparr>)) (\<lambda>db1.
        rbind (move_labels keep gone
          (db1\<lparr>entity_labels := del_dups fst snd keep gone (entity_labels db1)\<rparr>)) (\<lambda>db2.
        rbind (move_emb keep gone
          (db2\<lparr>embeddings := del_dups mr_entity mr_key keep gone (embeddings db2)\<rparr>)) (\<lambda>db3.
        rbind (repoint_from keep gone db3) (\<lambda>db4.
        rbind (repoint_to keep gone db4) (\<lambda>db5.
        Inr (update_entity keep (\<lambda>r. r\<lparr>er_updated_at := fmtTS ts\<rparr>) (pg_delete_entity gone db5))))))))"

definition pg_foldFact :: "pgparam \<Rightarrow> fact_kind \<Rightarrow> string \<Rightarrow> payload \<Rightarrow> time \<Rightarrow> db \<Rightarrow> db res" where
  "pg_foldFact pg kind subject payload ts db = (case kind of
       FactEntityAsserted \<Rightarrow> rbind (unmarshal_entity payload) (\<lambda>e. pg_upsertEntitySnapshot pg e ts db)
     | FactEntityRetracted \<Rightarrow> Inr (pg_delete_entity subject db)
     | FactEdgeAsserted \<Rightarrow> rbind (unmarshal_edge payload) (\<lambda>d. pg_upsertEdgeSnapshot pg d ts db)
     | FactEdgeRetracted \<Rightarrow> Inr (delete_edge subject db)
     | FactEntityMerged \<Rightarrow> rbind (unmarshal_merge payload) (\<lambda>(keep, gone). pg_mergeEntitiesTx keep gone ts db)
     | FactOther _ \<Rightarrow> Inl ErrUnknownKind)"

section \<open>Rebuild\<close>

definition pg_clear :: "db \<Rightarrow> db" where
  "pg_clear db = db\<lparr>edges := [], embeddings := [], entity_labels := [], entity_external_ids := [],
     entities := [], entities_fts := []\<rparr>"

definition pg_rebuild_tx :: "pgparam \<Rightarrow> db \<Rightarrow> db res" where
  "pg_rebuild_tx pg db =
     rfold (\<lambda>f. pg_foldFact pg (f_kind f) (f_subject f) (f_payload f) (parseTS (f_created_at f)))
       (sort_key f_seq (facts db)) (pg_clear db)"

definition pg_RebuildProjection :: "pgparam \<Rightarrow> db \<Rightarrow> db \<times> gerr option" where
  "pg_RebuildProjection pg db = commit (pg_rebuild_tx pg db) db"

definition pg_ProjectionHead :: "db \<Rightarrow> nat" where
  "pg_ProjectionHead db = foldl max 0 (map f_seq (facts db))"

end
