(* ===== verification/Jdx_Neighbors.thy ===== *)
theory Jdx_Neighbors
  imports Jdx_Read
begin

text \<open>
  The bounded traversal of \<open>neighbors.go\<close>. The Go maps \<open>visited\<close> and \<open>seenEdges\<close> are the lists
  of their keys; \<open>b_done\<close> is the early return at the limit. \<open>ord\<close> is the order in which SQLite
  returns the incident edges of a node.
\<close>

section \<open>The traversal\<close>

record neighbor_query =
  NQ_Start :: entity_id
  NQ_Predicates :: "predicate list"
  NQ_MaxHops :: int
  NQ_Limit :: int

record subgraph =
  SG_Entities :: "entity list"
  SG_Edges :: "edge list"

definition far_end :: "entity_id \<Rightarrow> edge_row \<Rightarrow> entity_id" where
  "far_end n d = (if dr_from d = n then dr_to d else dr_from d)"

text \<open>The WHERE clause of \<open>incidentVisible\<close>; \<open>id\<close> is the key of the joined table.\<close>

definition incident_row :: "acl_filter \<Rightarrow> predicate list \<Rightarrow> db \<Rightarrow> entity_id \<Rightarrow> edge_row \<Rightarrow> bool" where
  "incident_row af preds db n d =
     ((dr_from d = n \<or> dr_to d = n) \<and>
      list_ex (\<lambda>r. er_id r = far_end n d \<and> node_visible af r) (entities db) \<and>
      edge_visible af d \<and> (preds = [] \<or> List.member preds (dr_predicate d)))"

definition incidentVisible ::
    "(entity_id \<Rightarrow> edge_row list \<Rightarrow> edge_row list) \<Rightarrow> acl_filter \<Rightarrow> predicate list \<Rightarrow> db \<Rightarrow> entity_id \<Rightarrow>
     (edge \<times> entity_id) list" where
  "incidentVisible ord af preds db n =
     filter (\<lambda>p. snd p \<noteq> n)
       (map (\<lambda>d. let e = scanEdge d in (e, if D_To e = n then D_From e else D_To e))
         (ord n (filter (incident_row af preds db n) (edges db))))"

record bfs =
  b_ents :: "entity list"
  b_edges :: "edge list"
  b_visited :: "entity_id list"
  b_seen :: "edge_id list"
  b_next :: "entity_id list"
  b_done :: bool

definition visit_edge :: "int \<Rightarrow> db \<Rightarrow> edge \<times> entity_id \<Rightarrow> bfs \<Rightarrow> bfs res" where
  "visit_edge limit db p s =
     (if b_done s then Inr s
      else if List.member (b_seen s) (D_ID (fst p)) then Inr s
      else
        let s1 = s\<lparr>b_seen := D_ID (fst p) # b_seen s, b_edges := b_edges s @ [fst p]\<rparr> in
        if List.member (b_visited s1) (snd p) then Inr s1
        else
          let s2 = s1\<lparr>b_visited := snd p # b_visited s1\<rparr> in
          rbind (getEntityByID db (snd p)) (\<lambda>other.
            let s3 = s2\<lparr>b_ents := b_ents s2 @ [other], b_next := b_next s2 @ [snd p]\<rparr> in
            Inr (if limit > 0 \<and> int (length (b_ents s3)) \<ge> limit then s3\<lparr>b_done := True\<rparr> else s3)))"

definition visit_node ::
    "(entity_id \<Rightarrow> edge_row list \<Rightarrow> edge_row list) \<Rightarrow> acl_filter \<Rightarrow> neighbor_query \<Rightarrow> db \<Rightarrow>
     entity_id \<Rightarrow> bfs \<Rightarrow> bfs res" where
  "visit_node ord af q db n s =
     (if b_done s then Inr s
      else rfold (visit_edge (NQ_Limit q) db) (incidentVisible ord af (NQ_Predicates q) db n) s)"

fun hops ::
    "(entity_id \<Rightarrow> edge_row list \<Rightarrow> edge_row list) \<Rightarrow> acl_filter \<Rightarrow> neighbor_query \<Rightarrow> db \<Rightarrow>
     nat \<Rightarrow> entity_id list \<Rightarrow> bfs \<Rightarrow> bfs res" where
  "hops ord af q db 0 frontier s = Inr s"
| "hops ord af q db (Suc h) frontier s =
     (if frontier = [] then Inr s
      else rbind (rfold (visit_node ord af q db) frontier (s\<lparr>b_next := []\<rparr>)) (\<lambda>s'.
        if b_done s' then Inr s' else hops ord af q db h (b_next s') s'))"

definition clamp_hops :: "int \<Rightarrow> nat" where
  "clamp_hops n = (let n1 = (if n \<le> 0 then 1 else n); n2 = (if n1 > 3 then 3 else n1) in nat n2)"

definition Neighbors ::
    "(entity_id \<Rightarrow> edge_row list \<Rightarrow> edge_row list) \<Rightarrow> acl_filter \<Rightarrow> neighbor_query \<Rightarrow> db \<Rightarrow> subgraph res" where
  "Neighbors ord af q db =
     rbind (GetEntity af (NQ_Start q) db) (\<lambda>start.
     rbind (hops ord af q db (clamp_hops (NQ_MaxHops q)) [E_ID start]
        \<lparr>b_ents = [start], b_edges = [], b_visited = [E_ID start], b_seen = [], b_next = [], b_done = False\<rparr>)
       (\<lambda>s. Inr \<lparr>SG_Entities = b_ents s, SG_Edges = b_edges s\<rparr>))"

section \<open>What a traversal may cross\<close>

definition visible_id :: "acl_filter \<Rightarrow> db \<Rightarrow> entity_id \<Rightarrow> bool" where
  "visible_id af db e = (\<exists>r \<in> set (entities db). er_id r = e \<and> node_visible af r)"

definition joins :: "edge_row \<Rightarrow> entity_id \<Rightarrow> entity_id \<Rightarrow> bool" where
  "joins d a b = (dr_from d = a \<and> dr_to d = b \<or> dr_from d = b \<and> dr_to d = a)"

definition usable :: "acl_filter \<Rightarrow> predicate list \<Rightarrow> edge_row \<Rightarrow> bool" where
  "usable af preds d = (edge_visible af d \<and> (preds = [] \<or> dr_predicate d \<in> set preds))"

inductive vpath :: "acl_filter \<Rightarrow> predicate list \<Rightarrow> db \<Rightarrow> nat \<Rightarrow> entity_id \<Rightarrow> entity_id \<Rightarrow> bool"
  for af preds db where
  here: "visible_id af db a \<Longrightarrow> vpath af preds db 0 a a"
| cross: "vpath af preds db n a b \<Longrightarrow> d \<in> set (edges db) \<Longrightarrow> joins d b c \<Longrightarrow> usable af preds d \<Longrightarrow>
     visible_id af db c \<Longrightarrow> b \<noteq> c \<Longrightarrow> vpath af preds db (Suc n) a c"

inductive_cases vpath_SucE: "vpath af preds db (Suc n) a c"
inductive_cases vpath_0E: "vpath af preds db 0 a c"

lemma vpath_visible: "vpath af preds db n a b \<Longrightarrow> visible_id af db b"
  by (induction rule: vpath.induct)

section \<open>The incident edges\<close>

lemma scanEdge_sel [simp]:
  "D_ID (scanEdge d) = dr_id d" "D_From (scanEdge d) = dr_from d" "D_To (scanEdge d) = dr_to d"
  "D_Predicate (scanEdge d) = dr_predicate d" "D_Visibility (scanEdge d) = dr_vis d"
  "D_Space (scanEdge d) = dr_space d" "D_Owner (scanEdge d) = dr_owner d"
  by (simp_all add: scanEdge_def)

lemma incident_row_iff:
  "incident_row af preds db n d \<and> (if dr_to d = n then dr_from d else dr_to d) = c \<and> c \<noteq> n \<longleftrightarrow>
     joins d n c \<and> usable af preds d \<and> visible_id af db c \<and> n \<noteq> c"
proof -
  have "list_ex (\<lambda>r. er_id r = x \<and> node_visible af r) (entities db) = visible_id af db x" for x
    by (simp add: list_ex_iff visible_id_def)
  then show ?thesis
    by (auto simp: incident_row_def far_end_def joins_def usable_def List.member_iff)
qed

text \<open>All that is assumed of the row order: a query returns each of its rows once.\<close>

definition order_only :: "('k \<Rightarrow> 'r list \<Rightarrow> 'r list) \<Rightarrow> bool" where
  "order_only ord = (\<forall>n rows. mset (ord n rows) = mset rows)"

lemma incident_iff:
  assumes "order_only ord"
  shows "(e, c) \<in> set (incidentVisible ord af preds db n) \<longleftrightarrow>
    (\<exists>d \<in> set (edges db). e = scanEdge d \<and> joins d n c \<and> usable af preds d \<and> visible_id af db c \<and> n \<noteq> c)"
proof -
  have set_ord: "set (ord n rows) = set rows" for rows using assms unfolding order_only_def by (metis set_mset_mset)
  have "(e, c) \<in> set (incidentVisible ord af preds db n) \<longleftrightarrow> (\<exists>d \<in> set (edges db). e = scanEdge d \<and>
      (incident_row af preds db n d \<and> (if dr_to d = n then dr_from d else dr_to d) = c \<and> c \<noteq> n))"
    by (simp add: incidentVisible_def set_ord Let_def image_iff) blast
  then show ?thesis by (simp only: incident_row_iff)
qed

section \<open>The invariant of the traversal\<close>

definition binv :: "acl_filter \<Rightarrow> predicate list \<Rightarrow> db \<Rightarrow> bfs \<Rightarrow> bool" where
  "binv af preds db s \<longleftrightarrow>
     distinct (map E_ID (b_ents s)) \<and> E_ID ` set (b_ents s) = set (b_visited s) \<and>
     distinct (map D_ID (b_edges s)) \<and> D_ID ` set (b_edges s) = set (b_seen s) \<and>
     (\<forall>v \<in> set (b_ents s). \<exists>r \<in> set (entities db). node_visible af r \<and> v = load_row db r) \<and>
     (\<forall>e \<in> set (b_edges s). \<exists>d \<in> set (edges db). e = scanEdge d \<and> usable af preds d \<and>
        dr_from d \<noteq> dr_to d \<and> dr_from d \<in> set (b_visited s) \<and> dr_to d \<in> set (b_visited s))"

lemma visible_getEntityByID:
  assumes "wf_tables db" and "visible_id af db c"
  obtains r where "r \<in> set (entities db)" and "node_visible af r" and "er_id r = c"
    and "getEntityByID db c = Inr (load_row db r)"
proof -
  from assms(2) obtain r where r: "r \<in> set (entities db)" "er_id r = c" "node_visible af r"
    by (auto simp: visible_id_def)
  with assms(1) have "get_entity_row db c = Some r" by (simp add: get_entity_row_iff)
  with r that show thesis by (simp add: getEntityByID_def)
qed

text \<open>
  \<open>advances C s s'\<close>: what any part of the traversal that may visit the nodes of \<open>C\<close> does to the
  state. The last conjunct is the limit: the start node is never counted against it before a
  second node has been added.
\<close>

definition within_limit :: "int \<Rightarrow> bfs \<Rightarrow> bool" where
  "within_limit limit s \<longleftrightarrow> (limit > 0 \<longrightarrow>
     (length (b_ents s) < max 2 (nat limit) \<or> b_done s) \<and> length (b_ents s) \<le> max 2 (nat limit))"

definition advances ::
    "acl_filter \<Rightarrow> predicate list \<Rightarrow> db \<Rightarrow> int \<Rightarrow> entity_id set \<Rightarrow> bfs \<Rightarrow> bfs \<Rightarrow> bool" where
  "advances af preds db limit C s s' \<longleftrightarrow> binv af preds db s' \<and>
     set (b_visited s) \<subseteq> set (b_visited s') \<and> set (b_visited s') \<subseteq> set (b_visited s) \<union> C \<and>
     set (b_next s') = set (b_next s) \<union> (set (b_visited s') - set (b_visited s)) \<and>
     set (b_seen s) \<subseteq> set (b_seen s') \<and> (b_done s \<longrightarrow> b_done s') \<and>
     (limit \<le> 0 \<and> \<not> b_done s \<longrightarrow> \<not> b_done s') \<and> (within_limit limit s \<longrightarrow> within_limit limit s')"

lemma advances_refl: "binv af preds db s \<Longrightarrow> advances af preds db limit C s s"
  by (auto simp: advances_def)

lemma advances_trans:
  assumes "advances af preds db limit C s s1" and "advances af preds db limit C s1 s2"
  shows "advances af preds db limit C s s2"
  using assms unfolding advances_def by (elim conjE) (intro conjI, auto)

lemma advances_mono:
  "advances af preds db limit C s s' \<Longrightarrow> C \<subseteq> D \<Longrightarrow> advances af preds db limit D s s'"
  unfolding advances_def by blast

text \<open>An edge the traversal may follow from \<open>n\<close> to \<open>c\<close>.\<close>

definition follows :: "acl_filter \<Rightarrow> predicate list \<Rightarrow> db \<Rightarrow> entity_id \<Rightarrow> edge_row \<Rightarrow> entity_id \<Rightarrow> bool" where
  "follows af preds db n d c \<longleftrightarrow>
     d \<in> set (edges db) \<and> joins d n c \<and> usable af preds d \<and> visible_id af db c \<and> n \<noteq> c"

lemma visit_edge_step:
  assumes wf: "wf_tables db" and inv: "binv af preds db s" and n: "n \<in> set (b_visited s)"
    and f: "follows af preds db n d c"
  obtains s' where "visit_edge limit db (scanEdge d, c) s = Inr s'"
    and "advances af preds db limit {c} s s'"
    and "\<not> b_done s \<Longrightarrow> c \<in> set (b_visited s') \<and> dr_id d \<in> set (b_seen s')"
proof (cases "b_done s")
  case True
  then show ?thesis by (intro that [of s]) (use inv in \<open>simp_all add: visit_edge_def advances_refl\<close>)
next
  case nd: False
  from f have d: "d \<in> set (edges db)" "joins d n c" "usable af preds d" "visible_id af db c" "n \<noteq> c"
    by (simp_all add: follows_def)
  show ?thesis
  proof (cases "dr_id d \<in> set (b_seen s)")
    case True
    from True inv have "dr_id d \<in> D_ID ` set (b_edges s)" by (simp add: binv_def)
    then obtain e where e: "e \<in> set (b_edges s)" "D_ID e = dr_id d" by force
    with inv obtain d' where d': "d' \<in> set (edges db)" "e = scanEdge d'"
        "dr_from d' \<in> set (b_visited s)" "dr_to d' \<in> set (b_visited s)"
      by (auto simp: binv_def)
    with e d(1) wf have "d' = d"
      using distinct_map_inj_on [of dr_id "edges db" d' d] by (simp add: wf_tables_def edges_ok_def)
    with d' d(2) have "c \<in> set (b_visited s)" by (auto simp: joins_def)
    with True nd inv show ?thesis
      by (intro that [of s]) (simp_all add: visit_edge_def List.member_iff advances_refl)
  next
    case new: False
    let ?s1 = "s\<lparr>b_seen := dr_id d # b_seen s, b_edges := b_edges s @ [scanEdge d]\<rparr>"
    have ends: "dr_from d \<noteq> dr_to d" "{dr_from d, dr_to d} = {n, c}" using d(2,5) by (auto simp: joins_def)
    show ?thesis
    proof (cases "c \<in> set (b_visited s)")
      case True
      have "binv af preds db ?s1"
        using inv new True n d(1,3) ends by (auto simp: binv_def doubleton_eq_iff)
      with True nd new show ?thesis
        by (intro that [of ?s1])
           (auto simp: visit_edge_def List.member_iff Let_def advances_def within_limit_def)
    next
      case unv: False
      from visible_getEntityByID [OF wf d(4)] obtain r where
        r: "r \<in> set (entities db)" "node_visible af r" "er_id r = c" "getEntityByID db c = Inr (load_row db r)" .
      let ?s3 = "?s1\<lparr>b_visited := c # b_visited s, b_ents := b_ents s @ [load_row db r],
          b_next := b_next s @ [c]\<rparr>"
      let ?s' = "if limit > 0 \<and> int (length (b_ents s) + 1) \<ge> limit then ?s3\<lparr>b_done := True\<rparr> else ?s3"
      have eq: "visit_edge limit db (scanEdge d, c) s = Inr ?s'"
        using nd new unv r(4) by (simp add: visit_edge_def List.member_iff Let_def)
      have "c \<notin> E_ID ` set (b_ents s)" using inv unv by (simp add: binv_def)
      then have "binv af preds db ?s3"
        using inv new n d(1,3) ends r(1,2,3) by (auto simp: binv_def doubleton_eq_iff)
      then have "binv af preds db ?s'" by (simp add: binv_def)
      then have "advances af preds db limit {c} s ?s'"
        using unv nd by (auto simp: advances_def within_limit_def)
      then show ?thesis by (rule that [OF eq]) (auto split: if_splits)
    qed
  qed
qed

text \<open>A list of edges of one node, all the incident edges, a whole frontier.\<close>

lemma visit_edges_step:
  assumes wf: "wf_tables db" and inv: "binv af preds db s" and n: "n \<in> set (b_visited s)"
    and ps: "\<And>e c. (e, c) \<in> set ps \<Longrightarrow> c \<in> C \<and> (\<exists>d. e = scanEdge d \<and> follows af preds db n d c)"
  shows "\<exists>s'. rfold (visit_edge limit db) ps s = Inr s' \<and> advances af preds db limit C s s' \<and>
    (\<not> b_done s' \<longrightarrow> (\<forall>(e, c) \<in> set ps. c \<in> set (b_visited s') \<and> D_ID e \<in> set (b_seen s')))"
  using inv n ps
proof (induction ps arbitrary: s)
  case Nil
  then show ?case by (auto simp: advances_refl)
next
  case (Cons p ps)
  obtain e c where p: "p = (e, c)" by (cases p)
  from Cons.prems(3) [of e c] p obtain d where d: "e = scanEdge d" "follows af preds db n d c" and c: "c \<in> C"
    by auto
  from visit_edge_step [OF wf Cons.prems(1,2) d(2), of limit] obtain s1 where
    s1: "visit_edge limit db (scanEdge d, c) s = Inr s1" "advances af preds db limit {c} s s1"
      "\<not> b_done s \<Longrightarrow> c \<in> set (b_visited s1) \<and> dr_id d \<in> set (b_seen s1)"
    by blast
  from s1(2) Cons.prems(2) have "binv af preds db s1" "n \<in> set (b_visited s1)" by (auto simp: advances_def)
  from Cons.IH [OF this] Cons.prems(3) obtain s' where
    s': "rfold (visit_edge limit db) ps s1 = Inr s'" "advances af preds db limit C s1 s'"
      "\<not> b_done s' \<longrightarrow> (\<forall>(e, c) \<in> set ps. c \<in> set (b_visited s') \<and> D_ID e \<in> set (b_seen s'))"
    by fastforce
  have "advances af preds db limit C s s'"
    using advances_trans [OF advances_mono [OF s1(2)] s'(2)] c by simp
  moreover have "\<not> b_done s' \<longrightarrow> c \<in> set (b_visited s') \<and> D_ID e \<in> set (b_seen s')"
    using s1(2,3) s'(2) d(1) by (auto simp: advances_def)
  ultimately show ?case using s1(1) s'(1,3) p d(1) by auto
qed

definition reach1 :: "acl_filter \<Rightarrow> predicate list \<Rightarrow> db \<Rightarrow> entity_id set \<Rightarrow> entity_id set" where
  "reach1 af preds db F = {c. \<exists>n \<in> F. \<exists>d. follows af preds db n d c}"

definition explored :: "acl_filter \<Rightarrow> predicate list \<Rightarrow> db \<Rightarrow> bfs \<Rightarrow> entity_id \<Rightarrow> bool" where
  "explored af preds db s n \<longleftrightarrow>
     (\<forall>d c. follows af preds db n d c \<longrightarrow> c \<in> set (b_visited s) \<and> dr_id d \<in> set (b_seen s))"

lemma explored_mono:
  "explored af preds db s n \<Longrightarrow> advances af preds db limit C s s' \<Longrightarrow> explored af preds db s' n"
  unfolding explored_def advances_def by blast

lemma visit_node_step:
  assumes wf: "wf_tables db" and ord: "order_only ord"
    and inv: "binv af (NQ_Predicates q) db s" and n: "n \<in> set (b_visited s)"
  shows "\<exists>s'. visit_node ord af q db n s = Inr s' \<and>
    advances af (NQ_Predicates q) db (NQ_Limit q) (reach1 af (NQ_Predicates q) db {n}) s s' \<and>
    (\<not> b_done s' \<longrightarrow> explored af (NQ_Predicates q) db s' n)"
proof (cases "b_done s")
  case True
  with inv show ?thesis by (auto simp: visit_node_def advances_refl)
next
  case False
  let ?ps = "incidentVisible ord af (NQ_Predicates q) db n"
  have ps: "(e, c) \<in> set ?ps \<longleftrightarrow> (\<exists>d. e = scanEdge d \<and> follows af (NQ_Predicates q) db n d c)" for e c
    unfolding incident_iff [OF ord] follows_def by blast
  have "c \<in> reach1 af (NQ_Predicates q) db {n} \<and> (\<exists>d. e = scanEdge d \<and> follows af (NQ_Predicates q) db n d c)"
    if "(e, c) \<in> set ?ps" for e c
    using that unfolding ps reach1_def by blast
  from visit_edges_step [OF wf inv n this] obtain s' where
    s': "rfold (visit_edge (NQ_Limit q) db) ?ps s = Inr s'"
      "advances af (NQ_Predicates q) db (NQ_Limit q) (reach1 af (NQ_Predicates q) db {n}) s s'"
      "\<not> b_done s' \<longrightarrow> (\<forall>(e, c) \<in> set ?ps. c \<in> set (b_visited s') \<and> D_ID e \<in> set (b_seen s'))"
    by blast
  have "explored af (NQ_Predicates q) db s' n" if "\<not> b_done s'"
    unfolding explored_def
  proof (intro allI impI)
    fix d c assume "follows af (NQ_Predicates q) db n d c"
    then have "(scanEdge d, c) \<in> set ?ps" using ps by blast
    with s'(3) that have "c \<in> set (b_visited s') \<and> D_ID (scanEdge d) \<in> set (b_seen s')" by blast
    then show "c \<in> set (b_visited s') \<and> dr_id d \<in> set (b_seen s')" by simp
  qed
  with s' False show ?thesis by (auto simp: visit_node_def)
qed

lemma frontier_step:
  assumes wf: "wf_tables db" and ord: "order_only ord"
    and inv: "binv af (NQ_Predicates q) db s" and F: "set F \<subseteq> set (b_visited s)"
  shows "\<exists>s'. rfold (visit_node ord af q db) F s = Inr s' \<and>
    advances af (NQ_Predicates q) db (NQ_Limit q) (reach1 af (NQ_Predicates q) db (set F)) s s' \<and>
    (\<not> b_done s' \<longrightarrow> (\<forall>n \<in> set F. explored af (NQ_Predicates q) db s' n))"
  using inv F
proof (induction F arbitrary: s)
  case Nil
  then show ?case by (auto simp: advances_refl)
next
  case (Cons n F)
  from Cons.prems(2) have n: "n \<in> set (b_visited s)" by simp
  from visit_node_step [OF wf ord Cons.prems(1) n] obtain s1 where
    s1: "visit_node ord af q db n s = Inr s1"
      "advances af (NQ_Predicates q) db (NQ_Limit q) (reach1 af (NQ_Predicates q) db {n}) s s1"
      "\<not> b_done s1 \<longrightarrow> explored af (NQ_Predicates q) db s1 n"
    by blast
  from s1(2) Cons.prems(2) have "binv af (NQ_Predicates q) db s1" "set F \<subseteq> set (b_visited s1)"
    by (auto simp: advances_def)
  from Cons.IH [OF this] obtain s' where
    s': "rfold (visit_node ord af q db) F s1 = Inr s'"
      "advances af (NQ_Predicates q) db (NQ_Limit q) (reach1 af (NQ_Predicates q) db (set F)) s1 s'"
      "\<not> b_done s' \<longrightarrow> (\<forall>n \<in> set F. explored af (NQ_Predicates q) db s' n)"
    by blast
  let ?C = "reach1 af (NQ_Predicates q) db (set (n # F))"
  have "reach1 af (NQ_Predicates q) db {n} \<subseteq> ?C" "reach1 af (NQ_Predicates q) db (set F) \<subseteq> ?C"
    by (auto simp: reach1_def)
  then have "advances af (NQ_Predicates q) db (NQ_Limit q) ?C s s'"
    using advances_trans advances_mono s1(2) s'(2) by metis
  moreover have "\<not> b_done s' \<longrightarrow> explored af (NQ_Predicates q) db s' n"
    using s1(3) s'(2) explored_mono by (metis advances_def)
  ultimately show ?case using s1(1) s'(1,3) by auto
qed

section \<open>The hops\<close>

lemma ex_le_mono: "\<exists>k \<le> m. P k \<Longrightarrow> m \<le> n \<Longrightarrow> \<exists>k \<le> n. P k" for m n :: nat
  by (meson order_trans)

lemma reach1_vpath:
  "\<forall>n \<in> F. \<exists>k \<le> m. vpath af preds db k a n \<Longrightarrow> c \<in> reach1 af preds db F \<Longrightarrow>
     \<exists>k \<le> Suc m. vpath af preds db k a c"
  unfolding reach1_def follows_def by (blast intro: cross)

lemma hops_sound:
  assumes wf: "wf_tables db" and ord: "order_only ord"
    and "binv af (NQ_Predicates q) db s" and "set F \<subseteq> set (b_visited s)"
    and "\<forall>n \<in> set (b_visited s). \<exists>k \<le> m. vpath af (NQ_Predicates q) db k a n"
    and "within_limit (NQ_Limit q) s"
  shows "\<exists>s'. hops ord af q db h F s = Inr s' \<and> binv af (NQ_Predicates q) db s' \<and>
    set (b_visited s) \<subseteq> set (b_visited s') \<and>
    (\<forall>n \<in> set (b_visited s'). \<exists>k \<le> m + h. vpath af (NQ_Predicates q) db k a n) \<and>
    within_limit (NQ_Limit q) s'"
  using assms(3-6)
proof (induction h arbitrary: F s m)
  case 0
  then show ?case by simp
next
  case (Suc h)
  show ?case
  proof (cases "F = []")
    case True
    have "\<forall>n \<in> set (b_visited s). \<exists>k \<le> m + Suc h. vpath af (NQ_Predicates q) db k a n"
      using Suc.prems(3) ex_le_mono [of m _ "m + Suc h"] by simp
    with True Suc.prems show ?thesis by simp
  next
    case False
    let ?s0 = "s\<lparr>b_next := []\<rparr>" and ?P = "NQ_Predicates q"
    have "binv af ?P db ?s0" "set F \<subseteq> set (b_visited ?s0)" "within_limit (NQ_Limit q) ?s0"
      using Suc.prems by (simp_all add: binv_def within_limit_def)
    with frontier_step [OF wf ord, of af q ?s0 F] obtain s1 where
      s1: "rfold (visit_node ord af q db) F ?s0 = Inr s1"
        "advances af ?P db (NQ_Limit q) (reach1 af ?P db (set F)) ?s0 s1"
      by blast
    have wl: "within_limit (NQ_Limit q) s1"
      using s1(2) \<open>within_limit (NQ_Limit q) ?s0\<close> by (simp add: advances_def)
    have b1: "binv af ?P db s1" and v1: "set (b_visited s) \<subseteq> set (b_visited s1)"
      "set (b_visited s1) \<subseteq> set (b_visited s) \<union> reach1 af ?P db (set F)"
      and n1: "set (b_next s1) \<subseteq> set (b_visited s1)"
      using s1(2) by (auto simp: advances_def)
    have path1: "\<forall>n \<in> set (b_visited s1). \<exists>k \<le> Suc m. vpath af ?P db k a n"
    proof
      fix n assume "n \<in> set (b_visited s1)"
      with v1(2) consider "n \<in> set (b_visited s)" | "n \<in> reach1 af ?P db (set F)" by blast
      then show "\<exists>k \<le> Suc m. vpath af ?P db k a n"
      proof cases
        case 1
        with Suc.prems(3) show ?thesis by (blast intro: le_SucI)
      next
        case 2
        have "\<forall>x \<in> set F. \<exists>k \<le> m. vpath af ?P db k a x" using Suc.prems(2,3) by blast
        from reach1_vpath [OF this 2] show ?thesis .
      qed
    qed
    show ?thesis
    proof (cases "b_done s1")
      case True
      have "\<forall>n \<in> set (b_visited s1). \<exists>k \<le> m + Suc h. vpath af ?P db k a n"
        using path1 ex_le_mono [of "Suc m" _ "m + Suc h"] by simp
      with True False s1(1) b1 v1(1) wl show ?thesis by simp
    next
      case nd: False
      from Suc.IH [OF b1 n1 path1 wl] obtain s' where
        "hops ord af q db h (b_next s1) s1 = Inr s'" "binv af ?P db s'"
        "set (b_visited s1) \<subseteq> set (b_visited s')"
        "\<forall>n \<in> set (b_visited s'). \<exists>k \<le> Suc m + h. vpath af ?P db k a n" "within_limit (NQ_Limit q) s'"
        by blast
      with False nd s1(1) v1(1) show ?thesis by auto
    qed
  qed
qed

text \<open>Without a limit every node within reach is visited and every edge between them is seen.\<close>

lemma hops_complete:
  assumes wf: "wf_tables db" and ord: "order_only ord" and lim: "NQ_Limit q \<le> 0"
    and "binv af (NQ_Predicates q) db s" and "set F \<subseteq> set (b_visited s)" and "\<not> b_done s"
    and "set (b_visited s) = {n. \<exists>k \<le> m. vpath af (NQ_Predicates q) db k a n}"
    and "\<forall>n \<in> set (b_visited s) - set F. explored af (NQ_Predicates q) db s n"
    and "\<forall>n \<in> set F. \<forall>k < m. \<not> vpath af (NQ_Predicates q) db k a n"
    and "hops ord af q db h F s = Inr s'"
  shows "set (b_visited s') = {n. \<exists>k \<le> m + h. vpath af (NQ_Predicates q) db k a n} \<and>
    (\<forall>n. (\<exists>k < m + h. vpath af (NQ_Predicates q) db k a n) \<longrightarrow> explored af (NQ_Predicates q) db s' n)"
  using assms(4-10)
proof (induction h arbitrary: F s m)
  case 0
  have "explored af (NQ_Predicates q) db s n" if "k < m" "vpath af (NQ_Predicates q) db k a n" for n k
  proof -
    from that "0.prems"(4) have "n \<in> set (b_visited s)" by (auto intro: less_imp_le)
    moreover from that "0.prems"(6) have "n \<notin> set F" by blast
    ultimately show ?thesis using "0.prems"(5) by blast
  qed
  with "0.prems"(4,7) show ?case by auto
next
  case (Suc h)
  let ?P = "NQ_Predicates q"
  let ?B = "\<lambda>m. {n. \<exists>k \<le> m. vpath af ?P db k a n}"
  let ?s0 = "s\<lparr>b_next := []\<rparr>"
  show ?case
  proof (cases "F = []")
    case True
    have closed: "n \<in> ?B m" if "vpath af ?P db k a n" for k n
      using that
    proof (induction k arbitrary: n)
      case 0
      then show ?case by blast
    next
      case (Suc k)
      from Suc.prems obtain b d where b: "vpath af ?P db k a b" "follows af ?P db b d n"
        by (rule vpath_SucE) (auto simp: follows_def)
      from Suc.IH [OF b(1)] have "b \<in> set (b_visited s)" using \<open>set (b_visited s) = ?B m\<close> by blast
      with \<open>\<forall>n \<in> set (b_visited s) - set F. explored af ?P db s n\<close> True
      have "explored af ?P db s b" by simp
      with b(2) have "n \<in> set (b_visited s)" unfolding explored_def by blast
      then show ?case using \<open>set (b_visited s) = ?B m\<close> by blast
    qed
    have "s' = s" using True Suc.prems(7) by simp
    moreover have "?B (m + Suc h) = ?B m"
    proof
      show "?B (m + Suc h) \<subseteq> ?B m" using closed by blast
      show "?B m \<subseteq> ?B (m + Suc h)"
        by (rule Collect_mono, rule impI, erule ex_le_mono) simp
    qed
    moreover have "explored af ?P db s n" if "vpath af ?P db k a n" for n k
      using closed [OF that] Suc.prems(4,5) True by simp
    ultimately show ?thesis using Suc.prems(4) by blast
  next
    case False
    have "binv af ?P db ?s0" "set F \<subseteq> set (b_visited ?s0)" using Suc.prems by (simp_all add: binv_def)
    with frontier_step [OF wf ord, of af q ?s0 F] obtain s1 where
      s1: "rfold (visit_node ord af q db) F ?s0 = Inr s1"
        "advances af ?P db (NQ_Limit q) (reach1 af ?P db (set F)) ?s0 s1"
        "\<not> b_done s1 \<longrightarrow> (\<forall>n \<in> set F. explored af ?P db s1 n)"
      by blast
    have nd: "\<not> b_done s1" using s1(2) lim Suc.prems(3) by (simp add: advances_def)
    have b1: "binv af ?P db s1" and v1: "set (b_visited s) \<subseteq> set (b_visited s1)"
      "set (b_visited s1) \<subseteq> set (b_visited s) \<union> reach1 af ?P db (set F)"
      and n1: "set (b_next s1) = set (b_visited s1) - set (b_visited s)"
      using s1(2) by (auto simp: advances_def)
    have old: "explored af ?P db s1 n" if "n \<in> set (b_visited s)" for n
    proof (cases "n \<in> set F")
      case True
      with s1(3) nd show ?thesis by blast
    next
      case False
      with that Suc.prems(5) have "explored af ?P db ?s0 n" by (simp add: explored_def)
      then show ?thesis by (rule explored_mono [OF _ s1(2)])
    qed
    have V1: "set (b_visited s1) = ?B (Suc m)"
    proof
      have "\<forall>x \<in> set F. \<exists>k \<le> m. vpath af ?P db k a x" using Suc.prems(2,4) by blast
      with v1(2) Suc.prems(4) reach1_vpath show "set (b_visited s1) \<subseteq> ?B (Suc m)"
        by (blast intro: le_SucI)
      show "?B (Suc m) \<subseteq> set (b_visited s1)"
      proof
        fix n assume "n \<in> ?B (Suc m)"
        then obtain k where k: "k \<le> Suc m" "vpath af ?P db k a n" by blast
        show "n \<in> set (b_visited s1)"
        proof (cases k)
          case 0
          with k Suc.prems(4) v1(1) show ?thesis by blast
        next
          case (Suc j)
          from k(2)[unfolded Suc] obtain b d where b: "vpath af ?P db j a b" "follows af ?P db b d n"
            by (rule vpath_SucE) (auto simp: follows_def)
          from b(1) k(1) Suc have "b \<in> set (b_visited s)" using \<open>set (b_visited s) = ?B m\<close> by auto
          from old [OF this] b(2) show ?thesis unfolding explored_def by blast
        qed
      qed
    qed
    have "set (b_next s1) \<subseteq> set (b_visited s1)" using n1 by blast
    moreover have "\<forall>n \<in> set (b_visited s1) - set (b_next s1). explored af ?P db s1 n"
      using n1 old by blast
    moreover have "\<forall>n \<in> set (b_next s1). \<forall>k < Suc m. \<not> vpath af ?P db k a n"
      using n1 Suc.prems(4) by (auto simp: less_Suc_eq_le)
    moreover have "hops ord af q db h (b_next s1) s1 = Inr s'"
      using Suc.prems(7) False s1(1) nd by simp
    ultimately have "set (b_visited s') = ?B (Suc m + h) \<and>
        (\<forall>n. (\<exists>k < Suc m + h. vpath af ?P db k a n) \<longrightarrow> explored af ?P db s' n)"
      using Suc.IH [OF b1 _ nd V1] by blast
    then show ?thesis by simp
  qed
qed

lemma start_state:
  assumes "wf_tables db" and "GetEntity af (NQ_Start q) db = Inr start"
  defines "s0 \<equiv> \<lparr>b_ents = [start], b_edges = [], b_visited = [E_ID start], b_seen = [], b_next = [], b_done = False\<rparr>"
  shows "E_ID start = NQ_Start q" and "visible_id af db (NQ_Start q)"
    and "binv af (NQ_Predicates q) db s0" and "within_limit (NQ_Limit q) s0"
    and "set (b_visited s0) = {n. \<exists>k \<le> 0. vpath af (NQ_Predicates q) db k (NQ_Start q) n}"
proof -
  from assms(1,2) obtain r where r: "r \<in> set (entities db)" "er_id r = NQ_Start q" "node_visible af r"
      "start = load_row db r"
    by (auto simp: GetEntity_Inr_iff)
  then show id: "E_ID start = NQ_Start q" and vis: "visible_id af db (NQ_Start q)"
    by (auto simp: visible_id_def)
  show "binv af (NQ_Predicates q) db s0" using r by (auto simp: s0_def binv_def)
  show "within_limit (NQ_Limit q) s0" by (auto simp: s0_def within_limit_def)
  show "set (b_visited s0) = {n. \<exists>k \<le> 0. vpath af (NQ_Predicates q) db k (NQ_Start q) n}"
    using id vis by (auto simp: s0_def intro: here elim: vpath_0E)
qed

lemma clamp_hops_range: "1 \<le> clamp_hops n \<and> clamp_hops n \<le> 3"
  by (auto simp: clamp_hops_def Let_def)

section \<open>What the result and the hidden rows have to do with each other\<close>

lemma binv_entities:
  assumes "wf_tables db" and "binv af preds db s"
  shows "set (b_ents s) = load_row db ` {r \<in> set (entities db). er_id r \<in> set (b_visited s)}"
proof
  show "set (b_ents s) \<subseteq> load_row db ` {r \<in> set (entities db). er_id r \<in> set (b_visited s)}"
  proof
    fix v assume v: "v \<in> set (b_ents s)"
    with assms(2) obtain r where r: "r \<in> set (entities db)" "v = load_row db r" by (auto simp: binv_def)
    moreover from v assms(2) have "E_ID v \<in> set (b_visited s)" unfolding binv_def by blast
    ultimately show "v \<in> load_row db ` {r \<in> set (entities db). er_id r \<in> set (b_visited s)}" by auto
  qed
  show "load_row db ` {r \<in> set (entities db). er_id r \<in> set (b_visited s)} \<subseteq> set (b_ents s)"
  proof
    fix v assume "v \<in> load_row db ` {r \<in> set (entities db). er_id r \<in> set (b_visited s)}"
    then obtain r where r: "r \<in> set (entities db)" "er_id r \<in> set (b_visited s)" "v = load_row db r" by blast
    then have "er_id r \<in> E_ID ` set (b_ents s)" using assms(2) by (simp add: binv_def)
    then obtain w where w: "w \<in> set (b_ents s)" "E_ID w = er_id r" by (metis imageE)
    with assms(2) obtain r' where r': "r' \<in> set (entities db)" "w = load_row db r'" by (auto simp: binv_def)
    with w r(1) assms(1) have "r' = r"
      using distinct_map_inj_on [of er_id "entities db" r' r] by (simp add: wf_tables_def entities_ok_def)
    with w(1) r' r(3) show "v \<in> set (b_ents s)" by simp
  qed
qed

lemma binv_seen_edge:
  assumes "wf_tables db" and "binv af preds db s" and "d \<in> set (edges db)" and "dr_id d \<in> set (b_seen s)"
  shows "scanEdge d \<in> set (b_edges s)"
proof -
  from assms(2,4) have "dr_id d \<in> D_ID ` set (b_edges s)" by (simp add: binv_def)
  then obtain e where e: "e \<in> set (b_edges s)" "D_ID e = dr_id d" by (metis imageE)
  with assms(2) obtain d' where d': "d' \<in> set (edges db)" "e = scanEdge d'" by (auto simp: binv_def)
  with e(2) assms(1,3) have "d' = d"
    using distinct_map_inj_on [of dr_id "edges db" d' d] by (simp add: wf_tables_def edges_ok_def)
  with e(1) d'(2) show ?thesis by simp
qed

lemma visible_id_filter: "visible_id af db c \<longleftrightarrow> c \<in> er_id ` set (filter (node_visible af) (entities db))"
  by (auto simp: visible_id_def)

lemma visible_load_eq:
  assumes "wf_db db1" and "wf_db db2"
    and "filter (node_visible af) (entities db1) = filter (node_visible af) (entities db2)"
    and load: "\<And>r. r \<in> set (entities db1) \<Longrightarrow> node_visible af r \<Longrightarrow> load_row db1 r = load_row db2 r"
    and "visible_id af db1 c"
  shows "getEntityByID db1 c = getEntityByID db2 c"
proof -
  from assms(5) obtain r where r: "r \<in> set (filter (node_visible af) (entities db1))" "er_id r = c"
    by (auto simp: visible_id_filter)
  moreover from r assms(3) have "r \<in> set (filter (node_visible af) (entities db2))" by simp
  ultimately have "get_entity_row db1 c = Some r" "get_entity_row db2 c = Some r"
    using assms(1,2) by (simp_all add: get_entity_row_iff wf_db_def)
  with r load [of r] show ?thesis by (simp add: getEntityByID_def)
qed

lemma incidentVisible_eq:
  assumes "filter (node_visible af) (entities db1) = filter (node_visible af) (entities db2)"
    and "filter (edge_visible af) (edges db1) = filter (edge_visible af) (edges db2)"
  shows "incidentVisible ord af preds db1 = incidentVisible ord af preds db2"
proof
  fix n
  have "list_ex (\<lambda>r. er_id r = c \<and> node_visible af r) (entities db1) =
      list_ex (\<lambda>r. er_id r = c \<and> node_visible af r) (entities db2)" for c
    using visible_id_filter [of af db1 c] visible_id_filter [of af db2 c] assms(1)
    by (simp add: visible_id_def list_ex_iff)
  then have "incident_row af preds db1 n = incident_row af preds db2 n"
    by (simp add: incident_row_def fun_eq_iff)
  moreover have "filter (incident_row af preds db2 n) ds =
      filter (incident_row af preds db2 n) (filter (edge_visible af) ds)" for ds
    by (induction ds) (auto simp: incident_row_def)
  ultimately have "filter (incident_row af preds db1 n) (edges db1) = filter (incident_row af preds db2 n) (edges db2)"
    using assms(2) by metis
  then show "incidentVisible ord af preds db1 n = incidentVisible ord af preds db2 n"
    by (simp add: incidentVisible_def)
qed

lemma find_filter: "find (\<lambda>r. P r \<and> Q r) xs = find P (filter Q xs)"
  by (induction xs) auto

lemma GetEntity_visible_eq:
  assumes "filter (node_visible af) (entities db1) = filter (node_visible af) (entities db2)"
    and "\<And>r. r \<in> set (entities db1) \<Longrightarrow> node_visible af r \<Longrightarrow> load_row db1 r = load_row db2 r"
  shows "GetEntity af e db1 = GetEntity af e db2"
proof -
  have "find (\<lambda>r. er_id r = e \<and> node_visible af r) (entities db1) =
      find (\<lambda>r. er_id r = e \<and> node_visible af r) (entities db2)"
    unfolding find_filter using assms(1) by simp
  moreover have "load_row db1 r = load_row db2 r"
    if "find (\<lambda>r. er_id r = e \<and> node_visible af r) (entities db1) = Some r" for r
    using that assms(2) [of r] by (auto simp: find_Some_iff)
  ultimately show ?thesis by (auto simp: GetEntity_def split: option.split)
qed

section \<open>Properties\<close>

text \<open>C9: Without a limit, a traversal from a visible start returns exactly the visible entities that
  a path of at most the clamped number of hops reaches, each once, where every edge and every
  node of the path is visible and every predicate allowed: a hidden node never bridges two
  visible ones. Its edges are visible and join two returned entities, and no edge incident to
  an entity nearer than the last hop is missing.\<close>

theorem Neighbors_exact:
  assumes "wf_db db" and "order_only ord" and "visible_id af db (NQ_Start q)" and "NQ_Limit q \<le> 0"
  shows "\<exists>sg. Neighbors ord af q db = Inr sg \<and> distinct (map E_ID (SG_Entities sg)) \<and>
    distinct (map D_ID (SG_Edges sg)) \<and>
    set (SG_Entities sg) = load_row db ` {r \<in> set (entities db). \<exists>k \<le> clamp_hops (NQ_MaxHops q).
        vpath af (NQ_Predicates q) db k (NQ_Start q) (er_id r)} \<and>
    set (SG_Edges sg) \<subseteq> scanEdge ` {d \<in> set (edges db). usable af (NQ_Predicates q) d \<and>
        {dr_from d, dr_to d} \<subseteq> E_ID ` set (SG_Entities sg)} \<and>
    (\<forall>n k d c. k < clamp_hops (NQ_MaxHops q) \<and> vpath af (NQ_Predicates q) db k (NQ_Start q) n \<and>
        follows af (NQ_Predicates q) db n d c \<longrightarrow> scanEdge d \<in> set (SG_Edges sg))"
proof -
  let ?P = "NQ_Predicates q" and ?h = "clamp_hops (NQ_MaxHops q)" and ?a = "NQ_Start q"
  have wt: "wf_tables db" using assms(1) by (simp add: wf_db_def)
  from assms(3) obtain start where start: "GetEntity af ?a db = Inr start"
    using GetEntity_Inr_iff [OF wt, of af ?a] by (auto simp: visible_id_def)
  let ?s0 = "\<lparr>b_ents = [start], b_edges = [], b_visited = [E_ID start], b_seen = [], b_next = [], b_done = False\<rparr>"
  note s0 = start_state [OF wt start]
  have F: "set [E_ID start] \<subseteq> set (b_visited ?s0)" by simp
  have reach0: "\<forall>n \<in> set (b_visited ?s0). \<exists>k \<le> 0. vpath af ?P db k ?a n" unfolding s0(5) by blast
  from hops_sound [OF wt assms(2) s0(3) F reach0 s0(4), of ?h] obtain s' where
    s': "hops ord af q db ?h [E_ID start] ?s0 = Inr s'" "binv af ?P db s'" by blast
  have nd: "\<not> b_done ?s0" by simp
  have done0: "\<forall>n \<in> set (b_visited ?s0) - set [E_ID start]. explored af ?P db ?s0 n" by simp
  have none0: "\<forall>n \<in> set [E_ID start]. \<forall>k < 0. \<not> vpath af ?P db k ?a n" by simp
  from hops_complete [OF wt assms(2,4) s0(3) F nd s0(5) done0 none0 s'(1)]
  have V: "set (b_visited s') = {n. \<exists>k \<le> ?h. vpath af ?P db k ?a n}"
    and X: "\<And>n k. k < ?h \<Longrightarrow> vpath af ?P db k ?a n \<Longrightarrow> explored af ?P db s' n" by auto
  let ?sg = "\<lparr>SG_Entities = b_ents s', SG_Edges = b_edges s'\<rparr>"
  show ?thesis
  proof (intro exI conjI allI impI)
    show "Neighbors ord af q db = Inr ?sg" using start s'(1) by (simp add: Neighbors_def)
    show "distinct (map E_ID (SG_Entities ?sg))" "distinct (map D_ID (SG_Edges ?sg))"
      using s'(2) by (simp_all add: binv_def)
    show "set (SG_Entities ?sg) = load_row db ` {r \<in> set (entities db). \<exists>k \<le> ?h. vpath af ?P db k ?a (er_id r)}"
      using binv_entities [OF wt s'(2)] V by simp
    show "set (SG_Edges ?sg) \<subseteq> scanEdge ` {d \<in> set (edges db). usable af ?P d \<and>
        {dr_from d, dr_to d} \<subseteq> E_ID ` set (SG_Entities ?sg)}"
      using s'(2) by (auto simp: binv_def)
    fix n k d c assume a: "k < ?h \<and> vpath af ?P db k ?a n \<and> follows af ?P db n d c"
    then have "explored af ?P db s' n" using X by blast
    with a binv_seen_edge [OF wt s'(2), of d] show "scanEdge d \<in> set (SG_Edges ?sg)"
      by (auto simp: explored_def follows_def)
  qed
qed

theorem Neighbors_exact_witness:
  "\<exists>sg. Neighbors (\<lambda>_ rows. rows) member_filter
      \<lparr>NQ_Start = ''a'', NQ_Predicates = [], NQ_MaxHops = 3, NQ_Limit = 0\<rparr> sample_db = Inr sg \<and>
    scanEdge (sample_edge ''d1'' ''a'' ''b'') \<in> set (SG_Edges sg)"
proof -
  let ?q = "\<lparr>NQ_Start = ''a'', NQ_Predicates = [], NQ_MaxHops = 3, NQ_Limit = 0\<rparr>"
  have va: "visible_id member_filter sample_db ''a''" and vb: "visible_id member_filter sample_db ''b''"
    by (simp_all add: visible_id_def sample_defs node_visible_def accessWhere_iff visible_spec_def
        member_filter_def guard_entity_def)
  have f: "follows member_filter [] sample_db ''a'' (sample_edge ''d1'' ''a'' ''b'') ''b''"
    using vb by (simp add: follows_def joins_def usable_def edge_visible_def accessWhereEdge_iff
        visible_spec_def guard_edge_def member_filter_def) (simp add: sample_defs)
  from Neighbors_exact [OF wf_sample, of "\<lambda>_ rows. rows" member_filter ?q] va obtain sg where
    sg: "Neighbors (\<lambda>_ rows. rows) member_filter ?q sample_db = Inr sg"
    and e: "\<forall>n k d c. k < clamp_hops 3 \<and> vpath member_filter [] sample_db k ''a'' n \<and>
        follows member_filter [] sample_db n d c \<longrightarrow> scanEdge d \<in> set (SG_Edges sg)"
    by (auto simp: order_only_def)
  have "scanEdge (sample_edge ''d1'' ''a'' ''b'') \<in> set (SG_Edges sg)"
    using e [rule_format, of 0 "''a''"] f here [OF va] by (simp add: clamp_hops_def)
  with sg show ?thesis by blast
qed

text \<open>C10: Rows the caller cannot see do not influence a traversal. Two databases with the same
  visible entity rows, the same visible edge rows and the same external ids and embeddings of
  the visible entities give the same answer, error and limit behaviour included.\<close>

theorem Neighbors_ignores_hidden:
  assumes "wf_db db1" and "wf_db db2" and "order_only ord"
    and "filter (node_visible af) (entities db1) = filter (node_visible af) (entities db2)"
    and "filter (edge_visible af) (edges db1) = filter (edge_visible af) (edges db2)"
    and "\<And>r. r \<in> set (entities db1) \<Longrightarrow> node_visible af r \<Longrightarrow> load_row db1 r = load_row db2 r"
  shows "Neighbors ord af q db1 = Neighbors ord af q db2"
proof -
  have E: "getEntityByID db1 c = getEntityByID db2 c" if "visible_id af db1 c" for c
    using visible_load_eq [OF assms(1,2,4,6) that] .
  have I: "incidentVisible ord af (NQ_Predicates q) db1 = incidentVisible ord af (NQ_Predicates q) db2"
    by (rule incidentVisible_eq [OF assms(4,5)])
  have V: "visit_node ord af q db1 n = visit_node ord af q db2 n" for n
  proof
    fix s
    have "rfold (visit_edge (NQ_Limit q) db1) (incidentVisible ord af (NQ_Predicates q) db1 n) s =
        rfold (visit_edge (NQ_Limit q) db2) (incidentVisible ord af (NQ_Predicates q) db1 n) s"
    proof (rule rfold_cong)
      fix p s assume "p \<in> set (incidentVisible ord af (NQ_Predicates q) db1 n)"
      then have "visible_id af db1 (snd p)"
        using incident_iff [OF assms(3), of "fst p" "snd p" af "NQ_Predicates q" db1 n] by auto
      from E [OF this] show "visit_edge (NQ_Limit q) db1 p s = visit_edge (NQ_Limit q) db2 p s"
        by (simp add: visit_edge_def Let_def)
    qed
    then show "visit_node ord af q db1 n s = visit_node ord af q db2 n s"
      by (simp add: visit_node_def I)
  qed
  have "hops ord af q db1 h F s = hops ord af q db2 h F s" for h F s
  proof (induction h arbitrary: F s)
    case 0
    show ?case by simp
  next
    case (Suc h)
    have "rfold (visit_node ord af q db1) F = rfold (visit_node ord af q db2) F"
      by (rule arg_cong [where f = "\<lambda>f. rfold f F"]) (simp add: V fun_eq_iff)
    with Suc show ?case by (simp cong: if_cong)
  qed
  moreover have "GetEntity af (NQ_Start q) db1 = GetEntity af (NQ_Start q) db2"
    by (rule GetEntity_visible_eq [OF assms(4,6)])
  ultimately show ?thesis by (simp add: Neighbors_def)
qed

theorem Neighbors_ignores_hidden_witness:
  "Neighbors (\<lambda>_ rows. rows) member_filter \<lparr>NQ_Start = ''a'', NQ_Predicates = [], NQ_MaxHops = 3, NQ_Limit = 0\<rparr> sample_db
   = Neighbors (\<lambda>_ rows. rows) member_filter \<lparr>NQ_Start = ''a'', NQ_Predicates = [], NQ_MaxHops = 3, NQ_Limit = 0\<rparr>
       (delete_fts ''z'' (sample_db\<lparr>entities := [sample_row ''a'' ''kate'' VisPublic, sample_row ''b'' ''kate'' VisSpace,
          sample_row ''c'' ''mia'' VisPrivate]\<rparr>))"
proof (rule Neighbors_ignores_hidden [OF wf_sample])
  let ?db = "delete_fts ''z'' (sample_db\<lparr>entities := [sample_row ''a'' ''kate'' VisPublic, sample_row ''b'' ''kate'' VisSpace,
          sample_row ''c'' ''mia'' VisPrivate]\<rparr>)"
  have i: "ids ?db = {''a'', ''b'', ''c''}" by (simp add: ids_def delete_fts_def sample_defs)
  have "wf_tables ?db"
    unfolding wf_tables_def i
    by (simp add: delete_fts_def sample_defs entities_ok_def ext_ok_def labels_ok_def emb_ok_def edges_ok_def
        log_ok_def proposals_ok_def Visibility_Valid_def AssertMethod_Valid_def Key_def)
  then show "wf_db ?db"
    by (simp add: wf_db_def) (simp add: fts_ok_def sample_defs fts_row_def delete_fts_def)
qed (simp_all add: order_only_def delete_fts_def sample_defs node_visible_def accessWhere_iff visible_spec_def
    member_filter_def guard_entity_def load_row_def loadEntityChildren_def)

text \<open>A positive limit bounds the number of returned entities by the larger of the limit and 2.\<close>

theorem Neighbors_limit:
  assumes "wf_db db" and "order_only ord" and "Neighbors ord af q db = Inr sg" and "0 < NQ_Limit q"
  shows "length (SG_Entities sg) \<le> max 2 (nat (NQ_Limit q))"
proof -
  have wt: "wf_tables db" using assms(1) by (simp add: wf_db_def)
  from assms(3) obtain start s where start: "GetEntity af (NQ_Start q) db = Inr start"
    and s: "hops ord af q db (clamp_hops (NQ_MaxHops q)) [E_ID start]
        \<lparr>b_ents = [start], b_edges = [], b_visited = [E_ID start], b_seen = [], b_next = [], b_done = False\<rparr> = Inr s"
    and sg: "sg = \<lparr>SG_Entities = b_ents s, SG_Edges = b_edges s\<rparr>"
    by (auto simp: Neighbors_def elim!: rbindE)
  note s0 = start_state [OF wt start]
  have "within_limit (NQ_Limit q) s"
    using hops_sound [OF wt assms(2) s0(3) _ _ s0(4), of "[E_ID start]" 0 "NQ_Start q" "clamp_hops (NQ_MaxHops q)"]
      s0(5) s by auto
  with assms(4) show ?thesis by (simp add: within_limit_def sg)
qed

text \<open>The bound is met with a limit of 1: the start entity is not counted before a second entity
  has been added, so a limit of 1 returns two entities, against the comment that the limit caps
  the returned entities.\<close>

theorem Neighbors_limit_one_returns_two:
  "\<exists>sg. Neighbors (\<lambda>_ rows. rows) member_filter
      \<lparr>NQ_Start = ''a'', NQ_Predicates = [], NQ_MaxHops = 1, NQ_Limit = 1\<rparr> sample_db = Inr sg \<and>
    map E_ID (SG_Entities sg) = [''a'', ''b'']"
  by (simp add: Neighbors_def GetEntity_def sample_defs node_visible_def accessWhere_iff visible_spec_def
      member_filter_def guard_entity_def clamp_hops_def Let_def numeral_eq_Suc visit_node_def incidentVisible_def
      incident_row_def far_end_def edge_visible_def accessWhereEdge_iff guard_edge_def visit_edge_def
      List.member_iff getEntityByID_def get_entity_row_def lookup_row_def)

end
