(* ===== verification/Jdx_PgStore.thy ===== *)
theory Jdx_PgStore
  imports Jdx_Pg Jdx_Neighbors
begin

text \<open>
  The Postgres adapter: access fragments with numbered placeholders, reads, vector and full-text
  search, the traversal, the appends, merges, retractions and proposals. Full-text matching and
  ranking are parameters, as is the order of rows a query does not sort.
\<close>

section \<open>Access fragments\<close>

text \<open>\<open>argList\<close>: \<open>add\<close> appends the value and returns its number; a fragment refers to values by number.\<close>

type_synonym argList = "string list"

definition arg_add :: "string \<Rightarrow> argList \<Rightarrow> nat \<times> argList" where
  "arg_add v ab = (let vals = ab @ [v] in (length vals, vals))"

fun arg_adds :: "string list \<Rightarrow> argList \<Rightarrow> nat list \<times> argList" where
  "arg_adds [] ab = ([], ab)"
| "arg_adds (v # vs) ab = (let (n, ab1) = arg_add v ab; (ns, ab2) = arg_adds vs ab1 in (n # ns, ab2))"

datatype pgcond = P_Public | P_SpaceIn "nat list" | P_PrivateOf nat | P_Or "pgcond list"
  | P_And pgcond pgcond | P_TypeNotIn "nat list"

fun pg_eval :: "argList \<Rightarrow> guarded \<Rightarrow> pgcond \<Rightarrow> bool" where
  "pg_eval ab g P_Public = (G_Visibility g = VisPublic)"
| "pg_eval ab g (P_SpaceIn ns) = (G_Visibility g = VisSpace \<and> list_ex (\<lambda>n. ab ! (n - 1) = G_Space g) ns)"
| "pg_eval ab g (P_PrivateOf n) = (G_Visibility g = VisPrivate \<and> G_Owner g = ab ! (n - 1))"
| "pg_eval ab g (P_Or cs) = list_ex (pg_eval ab g) cs"
| "pg_eval ab g (P_And a b) = (pg_eval ab g a \<and> pg_eval ab g b)"
| "pg_eval ab g (P_TypeNotIn ns) = (\<not> list_ex (\<lambda>n. ab ! (n - 1) = G_Type g) ns)"

definition pg_accessClause :: "acl_filter \<Rightarrow> bool \<Rightarrow> argList \<Rightarrow> pgcond \<times> argList" where
  "pg_accessClause af gateTypes ab =
     (let ors1 = (if F_AllowPublic af then [P_Public] else []);
          (ors2, ab2) = (if length (F_Spaces af) > 0
             then (let (ph, ab1) = arg_adds (F_Spaces af) ab in (ors1 @ [P_SpaceIn ph], ab1)) else (ors1, ab));
          (n, ab3) = arg_add (F_Principal af) ab2;
          ors3 = ors2 @ [P_PrivateOf n]
      in if gateTypes \<and> F_Restricted af \<and> length (F_DenyTypes af) > 0
         then (let (ph, ab4) = arg_adds (F_DenyTypes af) ab3 in (P_And (P_Or ors3) (P_TypeNotIn ph), ab4))
         else (P_Or ors3, ab3))"

definition pg_accessWhere :: "acl_filter \<Rightarrow> argList \<Rightarrow> pgcond \<times> argList" where
  "pg_accessWhere af ab = pg_accessClause af True ab"

definition pg_accessWhereEdge :: "acl_filter \<Rightarrow> argList \<Rightarrow> pgcond \<times> argList" where
  "pg_accessWhereEdge af ab = pg_accessClause af False ab"

section \<open>Reads\<close>

definition pg_scanEntityRow :: "entity_row \<Rightarrow> entity" where
  "pg_scanEntityRow r = \<lparr>E_ID = er_id r, E_Type = er_type r, E_Props = RawDoc (er_props r),
     E_ExternalIDs = [],
     E_Provenance = \<lparr>Asserter = pv_asserter (er_prov r), Method = pv_method (er_prov r), Source = pv_source (er_prov r),
       Confidence = pv_confidence (er_prov r), AssertedAt = parseTS (pv_asserted_at (er_prov r))\<rparr>,
     E_Space = er_space r, E_Owner = er_owner r, E_Visibility = er_vis r, E_Embeddings = [],
     E_CreatedAt = parseTS (er_created_at r), E_UpdatedAt = parseTS (er_updated_at r), E_Deleted = False\<rparr>"

definition pg_loadEntityChildren :: "db \<Rightarrow> entity \<Rightarrow> entity" where
  "pg_loadEntityChildren db e =
     e\<lparr>E_ExternalIDs := E_ExternalIDs e @
         map (\<lambda>x. \<lparr>Scheme = xr_scheme x, Value = xr_value x\<rparr>)
           (sort_key xr_key (filter (\<lambda>x. xr_entity x = E_ID e) (entity_external_ids db))),
       E_Embeddings := E_Embeddings e @
         map (\<lambda>m. \<lparr>Model = mr_model m, Field = mr_field m, Vector = decodeVec (mr_vector m)\<rparr>)
           (sort_key mr_key (filter (\<lambda>m. mr_entity m = E_ID e) (embeddings db)))\<rparr>"

definition pg_getEntityByID :: "db \<Rightarrow> entity_id \<Rightarrow> entity res" where
  "pg_getEntityByID db e = (case find (\<lambda>r. er_id r = e) (entities db) of
       None \<Rightarrow> Inl ErrNotFound
     | Some r \<Rightarrow> Inr (pg_loadEntityChildren db (pg_scanEntityRow r)))"

definition pg_GetEntity :: "acl_filter \<Rightarrow> entity_id \<Rightarrow> db \<Rightarrow> entity res" where
  "pg_GetEntity af e db =
     (let (idPh, ab) = arg_add e []; (w, vals) = pg_accessWhere af ab in
      case find (\<lambda>r. er_id r = vals ! (idPh - 1) \<and> pg_eval vals (guard_entity r) w) (entities db) of
        None \<Rightarrow> Inl ErrNotFound
      | Some r \<Rightarrow> Inr (pg_loadEntityChildren db (pg_scanEntityRow r)))"

definition pg_ResolveByExternalID ::
    "(entity_row list \<Rightarrow> entity_row list) \<Rightarrow> acl_filter \<Rightarrow> string list \<Rightarrow> db \<Rightarrow> entity list" where
  "pg_ResolveByExternalID ord af keys db =
     (if keys = [] then []
      else
        let (ph, ab) = arg_adds keys []; (w, vals) = pg_accessWhere af ab in
        map (\<lambda>r. pg_loadEntityChildren db (pg_scanEntityRow r)) (ord (filter
          (\<lambda>r. list_ex (\<lambda>x. xr_entity x = er_id r \<and> list_ex (\<lambda>n. vals ! (n - 1) = xr_key x) ph) (entity_external_ids db) \<and>
               pg_eval vals (guard_entity r) w) (entities db))))"

definition pg_externalHitsTx :: "space_id \<Rightarrow> string list \<Rightarrow> db \<Rightarrow> entity_id list" where
  "pg_externalHitsTx space keys db =
     (if keys = [] then []
      else
        let (sp, ab) = arg_add space []; (ph, vals) = arg_adds keys ab in
        map er_id (sort_key (\<lambda>e. (er_created_at e, er_id e))
          (filter (\<lambda>e. list_ex (\<lambda>x. xr_entity x = er_id e \<and> xr_space x = vals ! (sp - 1) \<and>
              list_ex (\<lambda>n. vals ! (n - 1) = xr_key x) ph) (entity_external_ids db)) (entities db))))"

definition pg_scanEdgeRow :: "edge_row \<Rightarrow> edge" where
  "pg_scanEdgeRow r = \<lparr>D_ID = dr_id r, D_Predicate = dr_predicate r, D_From = dr_from r, D_To = dr_to r,
     D_Props = (case dr_props r of None \<Rightarrow> RawEmpty | Some j \<Rightarrow> RawDoc j),
     D_Provenance = \<lparr>Asserter = pv_asserter (dr_prov r), Method = pv_method (dr_prov r), Source = pv_source (dr_prov r),
       Confidence = pv_confidence (dr_prov r), AssertedAt = parseTS (pv_asserted_at (dr_prov r))\<rparr>,
     D_Space = dr_space r, D_Owner = dr_owner r, D_Visibility = dr_vis r, D_CreatedAt = parseTS (dr_created_at r),
     D_Deleted = False\<rparr>"

definition pg_getEdgeByID :: "db \<Rightarrow> edge_id \<Rightarrow> edge res" where
  "pg_getEdgeByID db e = (case find (\<lambda>r. dr_id r = e) (edges db) of
       None \<Rightarrow> Inl ErrNotFound
     | Some r \<Rightarrow> Inr (pg_scanEdgeRow r))"

section \<open>Search\<close>

text \<open>The rows the KNN compares, its groups, and the score of a distance.\<close>

definition pg_knn_rows :: "string \<Rightarrow> etype \<Rightarrow> acl_filter option \<Rightarrow> db \<Rightarrow> (emb_row \<times> entity_row) list" where
  "pg_knn_rows model typ af db =
     concat (map (\<lambda>m. map (\<lambda>e. (m, e)) (filter (\<lambda>e. er_id e = mr_entity m \<and> mr_model m = model \<and>
         decodeVec (mr_vector m) \<noteq> [] \<and> (typ = [] \<or> er_type e = typ) \<and>
         (case af of None \<Rightarrow> True | Some f \<Rightarrow> (let (w, vals) = pg_accessWhere f [] in pg_eval vals (guard_entity e) w)))
         (entities db)))
       (embeddings db))"

definition pg_score :: "real \<Rightarrow> real" where
  "pg_score d = (let s1 = 1 - d; s2 = (if s1 < 0 then 0 else s1) in if s2 > 1 then 1 else s2)"

definition pg_knnByModel ::
    "pgparam \<Rightarrow> string \<Rightarrow> etype \<Rightarrow> acl_filter option \<Rightarrow> f32bits list \<Rightarrow> int \<Rightarrow> db \<Rightarrow> scored_match list res" where
  "pg_knnByModel pg model typ af query limit db =
     (if \<not> vecLiteral_ok query then Inl ErrSQL
      else rbind (rmap (\<lambda>p. case PG_dist pg (decodeVec (mr_vector (fst p))) query of
             None \<Rightarrow> Inl ErrSQL | Some d \<Rightarrow> Inr (er_id (snd p), d)) (pg_knn_rows model typ af db)) (\<lambda>ds.
        let groups = map (\<lambda>i. (min_list (map snd (filter (\<lambda>p. fst p = i) ds)), i)) (remdups (map fst ds));
            sorted = sort_key (\<lambda>p. p) groups;
            limited = (if limit > 0 then take (nat limit) sorted else sorted)
        in Inr (map (\<lambda>p. \<lparr>SM_ID = snd p, SM_Score = pg_score (fst p)\<rparr>) limited)))"

definition pg_SemanticSearch :: "pgparam \<Rightarrow> acl_filter \<Rightarrow> vector_query \<Rightarrow> db \<Rightarrow> scored_entity list res" where
  "pg_SemanticSearch pg af q db =
     (if VQ_Model q = [] \<or> length (VQ_Vector q) = 0 then Inr []
      else rbind (pg_knnByModel pg (VQ_Model q) (VQ_Type q) (Some af) (VQ_Vector q) (VQ_Limit q) db)
        (rmap (\<lambda>m. rbind (pg_getEntityByID db (SM_ID m)) (\<lambda>e. Inr \<lparr>SE_Entity = e, SE_Score = SM_Score m\<rparr>))))"

text \<open>\<open>plainto_tsquery\<close> accepts every text; \<open>ts_match\<close> and \<open>ts_rank\<close> take it and the text indexed.\<close>

definition pg_FullTextSearch ::
    "(string \<Rightarrow> string \<Rightarrow> bool) \<Rightarrow> (string \<Rightarrow> string \<Rightarrow> real) \<Rightarrow> acl_filter \<Rightarrow> text_query \<Rightarrow> db \<Rightarrow> scored_entity list res" where
  "pg_FullTextSearch ts_match ts_rank af q db =
     (if TrimSpace (TQ_Text q) = [] then Inr []
      else
        let limit = (if TQ_Limit q \<le> 0 then 20 else TQ_Limit q);
            (qPh, ab) = arg_add (TQ_Text q) []; (w, vals) = pg_accessWhere af ab;
            txt1 = vals ! (qPh - 1);
            rows = concat (map (\<lambda>e. map (\<lambda>t. (e, snd t)) (filter (\<lambda>t. fst t = er_id e \<and> ts_match txt1 (snd t) \<and>
              pg_eval vals (guard_entity e) w \<and> (TQ_Type q = [] \<or> er_type e = TQ_Type q)) (entities_fts db))) (entities db))
        in rmap (\<lambda>p. rbind (pg_getEntityByID db (er_id (fst p)))
               (\<lambda>e. Inr \<lparr>SE_Entity = e, SE_Score = ts_rank txt1 (snd p)\<rparr>))
             (take (nat limit) (sort_key (\<lambda>p. (- ts_rank txt1 (snd p), er_id (fst p))) rows)))"

section \<open>The traversal\<close>

definition pg_incidentVisible ::
    "(entity_id \<Rightarrow> edge_row list \<Rightarrow> edge_row list) \<Rightarrow> acl_filter \<Rightarrow> predicate list \<Rightarrow> db \<Rightarrow> entity_id \<Rightarrow>
     (edge \<times> entity_id) list" where
  "pg_incidentVisible ord af preds db n =
     (let (nidPh, ab1) = arg_add n []; (edgeWhere, ab2) = pg_accessWhereEdge af ab1;
          (nodeWhere, ab3) = pg_accessWhere af ab2; (ph, vals) = arg_adds preds ab3; nid = vals ! (nidPh - 1) in
      filter (\<lambda>p. snd p \<noteq> n)
        (map (\<lambda>d. let e = pg_scanEdgeRow d in (e, if D_To e = n then D_From e else D_To e))
          (ord n (filter (\<lambda>d. (dr_from d = nid \<or> dr_to d = nid) \<and>
             list_ex (\<lambda>r. er_id r = (if dr_from d = nid then dr_to d else dr_from d) \<and> pg_eval vals (guard_entity r) nodeWhere)
               (entities db) \<and>
             pg_eval vals (guard_edge d) edgeWhere \<and>
             (length preds > 0 \<longrightarrow> list_ex (\<lambda>k. vals ! (k - 1) = dr_predicate d) ph)) (edges db)))))"

definition pg_visit_edge :: "int \<Rightarrow> db \<Rightarrow> edge \<times> entity_id \<Rightarrow> bfs \<Rightarrow> bfs res" where
  "pg_visit_edge limit db p s =
     (if b_done s then Inr s
      else if List.member (b_seen s) (D_ID (fst p)) then Inr s
      else
        let s1 = s\<lparr>b_seen := D_ID (fst p) # b_seen s, b_edges := b_edges s @ [fst p]\<rparr> in
        if List.member (b_visited s1) (snd p) then Inr s1
        else
          let s2 = s1\<lparr>b_visited := snd p # b_visited s1\<rparr> in
          rbind (pg_getEntityByID db (snd p)) (\<lambda>other.
            let s3 = s2\<lparr>b_ents := b_ents s2 @ [other], b_next := b_next s2 @ [snd p]\<rparr> in
            Inr (if limit > 0 \<and> int (length (b_ents s3)) \<ge> limit then s3\<lparr>b_done := True\<rparr> else s3)))"

definition pg_visit_node ::
    "(entity_id \<Rightarrow> edge_row list \<Rightarrow> edge_row list) \<Rightarrow> acl_filter \<Rightarrow> neighbor_query \<Rightarrow> db \<Rightarrow> entity_id \<Rightarrow> bfs \<Rightarrow> bfs res" where
  "pg_visit_node ord af q db n s =
     (if b_done s then Inr s
      else rfold (pg_visit_edge (NQ_Limit q) db) (pg_incidentVisible ord af (NQ_Predicates q) db n) s)"

fun pg_hops ::
    "(entity_id \<Rightarrow> edge_row list \<Rightarrow> edge_row list) \<Rightarrow> acl_filter \<Rightarrow> neighbor_query \<Rightarrow> db \<Rightarrow>
     nat \<Rightarrow> entity_id list \<Rightarrow> bfs \<Rightarrow> bfs res" where
  "pg_hops ord af q db 0 frontier s = Inr s"
| "pg_hops ord af q db (Suc h) frontier s =
     (if frontier = [] then Inr s
      else rbind (rfold (pg_visit_node ord af q db) frontier (s\<lparr>b_next := []\<rparr>)) (\<lambda>s'.
        if b_done s' then Inr s' else pg_hops ord af q db h (b_next s') s'))"

definition pg_Neighbors ::
    "(entity_id \<Rightarrow> edge_row list \<Rightarrow> edge_row list) \<Rightarrow> acl_filter \<Rightarrow> neighbor_query \<Rightarrow> db \<Rightarrow> subgraph res" where
  "pg_Neighbors ord af q db =
     (let h1 = (if NQ_MaxHops q \<le> 0 then 1 else NQ_MaxHops q); maxHops = (if h1 > 3 then 3 else h1) in
      rbind (pg_GetEntity af (NQ_Start q) db) (\<lambda>start.
      rbind (pg_hops ord af q db (nat maxHops) [E_ID start]
         \<lparr>b_ents = [start], b_edges = [], b_visited = [E_ID start], b_seen = [], b_next = [], b_done = False\<rparr>)
        (\<lambda>s. Inr \<lparr>SG_Entities = b_ents s, SG_Edges = b_edges s\<rparr>)))"

section \<open>Appending an entity\<close>

text \<open>What the transaction reads under its advisory lock: a prior fact, or the verdict.\<close>

definition pg_prior :: "fact_kind \<Rightarrow> writer_id \<Rightarrow> string \<Rightarrow> db \<Rightarrow> string option" where
  "pg_prior kind writer dk db = map_option f_subject (find (\<lambda>f. f_writer f = writer \<and> f_dedupe f = dk \<and> f_kind f = kind)
     (sort_key f_seq (facts db)))"

definition pg_plan ::
    "pgparam \<Rightarrow> env \<Rightarrow> append_entity_input \<Rightarrow> resolve_policy \<Rightarrow> string \<Rightarrow> entity \<Rightarrow> db \<Rightarrow> (entity + resolve_decision) res" where
  "pg_plan pg env inp policy dk cand db = (case pg_prior FactEntityAsserted (AE_Writer inp) dk db of
       Some prior \<Rightarrow> rbind (pg_getEntityByID db prior) (\<lambda>ent. Inr (Inl ent))
     | None \<Rightarrow>
         (let extHits = pg_externalHitsTx (E_Space cand) (ExternalKeys cand) db in
          rbind (if policy = ResolveAuto \<and> extHits = [] then
                   (case E_Embeddings cand of [] \<Rightarrow> Inr []
                    | emb # _ \<Rightarrow> pg_knnByModel pg (Model emb) (E_Type cand) None (Vector emb) 5 db)
                 else Inr []) (\<lambda>neighbors.
          rbind (Resolve cand \<lparr>ExternalIDHits = extHits, VectorNeighbors = neighbors\<rparr> policy (env_th env)) (\<lambda>d.
          Inr (Inr d)))))"

definition pg_flag_edge :: "string \<Rightarrow> entity \<Rightarrow> writer_id \<Rightarrow> resolve_decision \<Rightarrow> time \<Rightarrow> edge" where
  "pg_flag_edge eid cand writer d ts =
     \<lparr>D_ID = eid, D_Predicate = ''sameAs?'', D_From = E_ID cand, D_To = FlagTo d, D_Props = RawEmpty,
      D_Provenance = \<lparr>Asserter = writer, Method = Inferred, Source = ''resolve:vector-review'',
        Confidence = FlagScore d, AssertedAt = ts\<rparr>,
      D_Space = E_Space cand, D_Owner = E_Owner cand, D_Visibility = E_Visibility cand, D_CreatedAt = 0, D_Deleted = False\<rparr>"

definition pg_insert_new ::
    "pgparam \<Rightarrow> env \<Rightarrow> nat \<Rightarrow> string \<Rightarrow> time \<Rightarrow> append_entity_input \<Rightarrow> entity \<Rightarrow> resolve_decision \<Rightarrow> db \<Rightarrow> (db \<times> entity_id) res" where
  "pg_insert_new pg env k dk ts inp cand0 d db =
     (let cand = cand0\<lparr>E_ID := env_newID env k\<rparr> in
      rbind (pg_upsertEntitySnapshot pg cand ts db) (\<lambda>db1.
      rbind (pg_appendEntityFact pg env (k + 1) cand (AE_Writer inp) dk (AE_Actor inp) ts db1) (\<lambda>db2.
      if Action d = ActionInsertFlagged \<and> FlagTo d \<noteq> [] then
        let ed = pg_flag_edge (env_newID env (k + 2)) cand (AE_Writer inp) d ts in
        rbind (pg_upsertEdgeSnapshot pg ed ts db2) (\<lambda>db3.
        rbind (marshal_edge ed) (\<lambda>pl.
        rbind (pg_insertFact pg env (k + 3) FactEdgeAsserted (D_ID ed) (AE_Writer inp)
                 (dk @ ''|sameas|'' @ FlagTo d) pl (AE_Actor inp) ts db3) (\<lambda>db4.
        Inr (db4, E_ID cand))))
      else Inr (db2, E_ID cand))))"

definition pg_attach_to ::
    "pgparam \<Rightarrow> env \<Rightarrow> nat \<Rightarrow> string \<Rightarrow> time \<Rightarrow> append_entity_input \<Rightarrow> entity \<Rightarrow> entity_id \<Rightarrow> db \<Rightarrow> (db \<times> entity_id) res" where
  "pg_attach_to pg env k dk ts inp cand0 target db =
     (let cand = cand0\<lparr>E_ID := target\<rparr> in
      rbind (pg_upsertEntitySnapshot pg cand ts db) (\<lambda>db1.
      rbind (pg_appendEntityFact pg env k cand (AE_Writer inp) dk (AE_Actor inp) ts db1) (\<lambda>db2.
      Inr (db2, target))))"

definition pg_merge_one ::
    "pgparam \<Rightarrow> env \<Rightarrow> nat \<Rightarrow> string \<Rightarrow> time \<Rightarrow> append_entity_input \<Rightarrow> entity_id \<Rightarrow> nat \<times> entity_id \<Rightarrow> db \<Rightarrow> db res" where
  "pg_merge_one pg env k dk ts inp keep p db =
     rbind (pg_mergeEntitiesTx keep (snd p) ts db)
       (pg_appendMergeFact pg env (k + fst p) keep (snd p) (AE_Writer inp) (dk @ ''|merge|'' @ snd p) (AE_Actor inp) ts)"

definition pg_apply ::
    "pgparam \<Rightarrow> env \<Rightarrow> nat \<Rightarrow> string \<Rightarrow> time \<Rightarrow> append_entity_input \<Rightarrow> entity \<Rightarrow> resolve_decision \<Rightarrow> db \<Rightarrow> (db \<times> entity_id) res" where
  "pg_apply pg env k dk ts inp cand d db = (case Action d of
       ActionInsertNew \<Rightarrow> pg_insert_new pg env k dk ts inp cand d db
     | ActionInsertFlagged \<Rightarrow> pg_insert_new pg env k dk ts inp cand d db
     | ActionAttach \<Rightarrow> pg_attach_to pg env k dk ts inp cand (Target d) db
     | ActionMerge \<Rightarrow>
         rbind (rfold (pg_merge_one pg env k dk ts inp (Target d)) (enumerate 0 (drop 1 (MergeTargets d))) db)
           (pg_attach_to pg env (k + length (drop 1 (MergeTargets d))) dk ts inp cand (Target d)))"

definition pg_execute ::
    "pgparam \<Rightarrow> env \<Rightarrow> nat \<Rightarrow> string \<Rightarrow> time \<Rightarrow> append_entity_input \<Rightarrow> entity \<Rightarrow> resolve_decision \<Rightarrow> db \<Rightarrow> (db \<times> resolve_result) res" where
  "pg_execute pg env k dk ts inp cand d db =
     rbind (pg_apply pg env k dk ts inp cand d db) (\<lambda>p.
     rbind (pg_getEntityByID (fst p) (snd p)) (\<lambda>ent.
     Inr (fst p, \<lparr>RR_Entity = ent, RR_Action = Some (Action d), RR_MatchKind = Some (MatchKind d),
       RR_MergedFrom = drop 1 (MergeTargets d)\<rparr>)))"

text \<open>The dedupe key of the write and how many ids were drawn for it.\<close>

definition pg_dedupe_key :: "env \<Rightarrow> append_entity_input \<Rightarrow> entity \<Rightarrow> string \<times> nat" where
  "pg_dedupe_key env inp cand =
     (if AE_DedupeKey inp \<noteq> [] then (AE_DedupeKey inp, 0)
      else
        let name = extractName (E_Props cand) in
        if RandomKeyNeeded (E_ExternalIDs cand) name then (env_newID env 0, 1)
        else (DeriveDedupeKey (env_sha env) (E_Type cand) (E_ExternalIDs cand) name, 0))"

text \<open>The same plan on the snapshot \<open>seen\<close> when it read, executed on the database \<open>db\<close> when it wrote. Alone,
  a transaction sees the one it writes to.\<close>

definition pg_append_from ::
    "pgparam \<Rightarrow> env \<Rightarrow> append_entity_input \<Rightarrow> db \<Rightarrow> db \<Rightarrow> db \<times> resolve_result \<times> gerr option" where
  "pg_append_from pg env inp seen db =
     (let cand0 = AE_Candidate inp;
          policy = (if AE_Policy inp = PolicyOther [] then ResolveAuto else AE_Policy inp) in
      if \<not> KnownType (E_Type cand0) then (db, result0, Some ErrInvalidInput)
      else if \<not> Visibility_Valid (E_Visibility cand0) then (db, result0, Some ErrInvalidInput)
      else if \<not> Policy_Valid policy then (db, result0, Some ErrInvalidPolicy)
      else
        let cand = cand0\<lparr>E_Provenance := pg_normalizeProvenance (E_Provenance cand0) (env_now env 0)\<rparr>;
            dk = fst (pg_dedupe_key env inp cand); k = snd (pg_dedupe_key env inp cand);
            ts = env_now env 1 in
        (case pg_plan pg env inp policy dk cand seen of
           Inl e \<Rightarrow> (db, result0, Some e)
         | Inr (Inl ent) \<Rightarrow> (db, \<lparr>RR_Entity = ent, RR_Action = Some ActionAttach, RR_MatchKind = Some MatchNone,
             RR_MergedFrom = []\<rparr>, Some ErrDuplicateFact)
         | Inr (Inr d) \<Rightarrow>
             (case pg_execute pg env k dk ts inp cand d db of
                Inl e \<Rightarrow> (db, result0, Some e)
              | Inr (db', r) \<Rightarrow> (db', r, None))))"

definition pg_AppendEntityFact ::
    "pgparam \<Rightarrow> env \<Rightarrow> append_entity_input \<Rightarrow> db \<Rightarrow> db \<times> resolve_result \<times> gerr option" where
  "pg_AppendEntityFact pg env inp db = pg_append_from pg env inp db db"

text \<open>The key of the advisory lock that orders the transactions.\<close>

definition lockKey :: "writer_id \<Rightarrow> string \<Rightarrow> string" where
  "lockKey writer dk = writer @ ''|'' @ dk"

section \<open>Edges, merges, retractions\<close>

definition pg_AppendEdgeFact ::
    "pgparam \<Rightarrow> env \<Rightarrow> append_edge_input \<Rightarrow> db \<Rightarrow> db \<times> edge \<times> gerr option" where
  "pg_AppendEdgeFact pg env inp db =
     (let ed0 = AD_Edge inp in
      if \<not> KnownPredicate (D_Predicate ed0) then (db, edge0, Some ErrInvalidInput)
      else if \<not> Visibility_Valid (D_Visibility ed0) then (db, edge0, Some ErrInvalidInput)
      else
        let ed1 = ed0\<lparr>D_Provenance := pg_normalizeProvenance (D_Provenance ed0) (env_now env 0)\<rparr>;
            dk = (if AD_DedupeKey inp = [] then DefaultEdgeDedupeKey ed1 else AD_DedupeKey inp);
            ts = env_now env 1 in
        (case pg_prior FactEdgeAsserted (AD_Writer inp) dk db of
           Some prior \<Rightarrow>
             (case pg_getEdgeByID db prior of
                Inl e \<Rightarrow> (db, edge0, Some e)
              | Inr existing \<Rightarrow> (db, existing, Some ErrDuplicateFact))
         | None \<Rightarrow>
             (let ed = ed1\<lparr>D_ID := env_newID env 0\<rparr> in
              case rbind (pg_upsertEdgeSnapshot pg ed ts db) (\<lambda>db1.
                   rbind (marshal_edge ed) (\<lambda>pl.
                   rbind (pg_insertFact pg env 1 FactEdgeAsserted (D_ID ed) (AD_Writer inp) dk pl (AD_Actor inp) ts db1) (\<lambda>db2.
                   rbind (pg_getEdgeByID db2 (D_ID ed)) (\<lambda>out. Inr (db2, out))))) of
                Inl e \<Rightarrow> (db, edge0, Some e)
              | Inr (db', out) \<Rightarrow> (db', out, None))))"

definition pg_MergeEntities ::
    "pgparam \<Rightarrow> env \<Rightarrow> entity_id \<Rightarrow> entity_id \<Rightarrow> principal_id \<Rightarrow> string \<Rightarrow> db \<Rightarrow> db \<times> gerr option" where
  "pg_MergeEntities pg env keep gone actor dk db =
     (let dk' = (if dk = [] then keep @ ''|merge|'' @ gone else dk); ts = env_now env 0 in
      commit (rbind (rfold (\<lambda>e d. if has_entity d e then Inr d else Inl ErrNotFound) [keep, gone] db) (\<lambda>db0.
        rbind (pg_mergeEntitiesTx keep gone ts db0) (pg_appendMergeFact pg env 0 keep gone actor dk' actor ts))) db)"

definition pg_RetractEntity ::
    "pgparam \<Rightarrow> env \<Rightarrow> entity_id \<Rightarrow> principal_id \<Rightarrow> string \<Rightarrow> db \<Rightarrow> db \<times> gerr option" where
  "pg_RetractEntity pg env e actor dk db =
     (let dk' = (if dk = [] then e @ ''|retract'' else dk) in
      commit (pg_insertFact pg env 0 FactEntityRetracted e actor dk' PEmpty actor (env_now env 0) (pg_delete_entity e db)) db)"

definition pg_RetractEdge ::
    "pgparam \<Rightarrow> env \<Rightarrow> edge_id \<Rightarrow> principal_id \<Rightarrow> string \<Rightarrow> db \<Rightarrow> db \<times> gerr option" where
  "pg_RetractEdge pg env e actor dk db =
     (let dk' = (if dk = [] then e @ ''|retract'' else dk) in
      commit (pg_insertFact pg env 0 FactEdgeRetracted e actor dk' PEmpty actor (env_now env 0) (delete_edge e db)) db)"

section \<open>Proposals\<close>

definition pg_proposal_payload :: "pgparam \<Rightarrow> proposal_payload \<Rightarrow> proposal_payload res" where
  "pg_proposal_payload pg p = (case p of
       PPEntity i \<Rightarrow> rbind (jsonb_props pg (E_Props (AE_Candidate i)))
         (\<lambda>x. Inr (PPEntity (i\<lparr>AE_Candidate := (AE_Candidate i)\<lparr>E_Props := x\<rparr>\<rparr>)))
     | PPEdge i \<Rightarrow> rbind (jsonb_props pg (D_Props (AD_Edge i)))
         (\<lambda>x. Inr (PPEdge (i\<lparr>AD_Edge := (AD_Edge i)\<lparr>D_Props := x\<rparr>\<rparr>)))
     | _ \<Rightarrow> Inr p)"

definition pg_Propose :: "pgparam \<Rightarrow> env \<Rightarrow> proposal \<Rightarrow> db \<Rightarrow> db \<times> string \<times> gerr option" where
  "pg_Propose pg env p db =
     (if PP_Kind p \<noteq> FactEntityAsserted \<and> PP_Kind p \<noteq> FactEdgeAsserted then (db, [], Some ErrInvalidInput)
      else if PP_Payload p = PPInvalid then (db, [], Some ErrInvalidInput)
      else
        let i = (if PP_ID p = [] then env_newID env 0 else PP_ID p) in
        (case pg_proposal_payload pg (PP_Payload p) of
           Inl e \<Rightarrow> (db, [], Some e)
         | Inr pl \<Rightarrow>
             if i \<in> pr_id ` set (proposals db) then (db, [], Some ErrSQL)
             else (db\<lparr>proposals := proposals db @ [\<lparr>pr_id = i, pr_kind = PP_Kind p, pr_proposer = PP_Proposer p,
                     pr_space = PP_Space p, pr_payload = pl, pr_status = StPending,
                     pr_created_at = fmtTS (env_now env 0), pr_decided_at = None, pr_decided_by = None,
                     pr_result_subject = None\<rparr>]\<rparr>, i, None)))"

definition pg_replay_intent ::
    "pgparam \<Rightarrow> env \<Rightarrow> fact_kind \<Rightarrow> proposal_payload \<Rightarrow> db \<Rightarrow> db \<times> resolve_result \<times> string \<times> gerr option" where
  "pg_replay_intent pg env kind payload db = (case kind of
       FactEntityAsserted \<Rightarrow>
         (case payload of
            PPEntity inp \<Rightarrow>
              (let (db', r, e) = pg_AppendEntityFact pg env inp db in
               if e \<noteq> None \<and> e \<noteq> Some ErrDuplicateFact then (db', result0, [], e)
               else (db', r, E_ID (RR_Entity r), None))
          | _ \<Rightarrow> (db, result0, [], Some ErrUnmarshal))
     | FactEdgeAsserted \<Rightarrow>
         (case payload of
            PPEdge inp \<Rightarrow>
              (let (db', ed, e) = pg_AppendEdgeFact pg env inp db in
               if e \<noteq> None \<and> e \<noteq> Some ErrDuplicateFact then (db', result0, [], e)
               else (db', result0, D_ID ed, None))
          | _ \<Rightarrow> (db, result0, [], Some ErrUnmarshal))
     | _ \<Rightarrow> (db, result0, [], Some ErrInvalidInput))"

definition pg_DecideProposal ::
    "pgparam \<Rightarrow> env \<Rightarrow> string \<Rightarrow> bool \<Rightarrow> principal_id \<Rightarrow> db \<Rightarrow> db \<times> resolve_result \<times> gerr option" where
  "pg_DecideProposal pg env i approve approver db = (case find (\<lambda>p. pr_id p = i) (proposals db) of
       None \<Rightarrow> (db, result0, Some ErrNotFound)
     | Some p \<Rightarrow>
         if pr_status p \<noteq> StPending then (db, result0, Some ErrConflict)
         else
           let ts = fmtTS (env_now env 0) in
           if \<not> approve then (update_pending i StDiscarded ts approver db, result0, None)
           else
             let (db', r, subject, e) =
               pg_replay_intent pg (later 1 env) (pr_kind p) (pr_payload p) (update_pending i StPromoted ts approver db)
             in (case e of
                  Some err \<Rightarrow> (db', result0, Some err)
                | None \<Rightarrow> (set_result_subject i subject db', r, None)))"

definition pg_ListProposals :: "space_id \<Rightarrow> db \<Rightarrow> proposal list" where
  "pg_ListProposals space db =
     map proposal_of_row (sort_key (\<lambda>p. (pr_created_at p, pr_id p))
       (filter (\<lambda>p. pr_status p = StPending \<and> (space \<noteq> [] \<longrightarrow> pr_space p = space)) (proposals db)))"

end
