(* ===== verification/Jdx_PgRead.thy ===== *)
theory Jdx_PgRead
  imports Jdx_PgStore Jdx_Entities
begin

text \<open>
  The two adapters read alike. The access fragment with numbered placeholders says what the one
  with positional placeholders says, whatever values a query binds before and after it; so every
  read of the Postgres adapter that does not rank is the SQLite one, and its searches return only
  what the filter admits.
\<close>

section \<open>Numbered arguments\<close>

text \<open>The n-th value, counted from one as \<open>$n\<close> is.\<close>

definition bound :: "argList \<Rightarrow> nat \<Rightarrow> string" where
  "bound ab n = ab ! (n - 1)"

definition bound_to :: "argList \<Rightarrow> nat list \<Rightarrow> string list \<Rightarrow> bool" where
  "bound_to ab ns vs \<longleftrightarrow> (\<forall>rest. map (bound (ab @ rest)) ns = vs)"

lemma bound_toD: "bound_to ab ns vs \<Longrightarrow> map (bound (ab @ rest)) ns = vs"
  by (simp add: bound_to_def)

lemma bound_to_append: "bound_to ab ns vs \<Longrightarrow> bound_to (ab @ rest) ns vs"
  by (simp add: bound_to_def)

lemma arg_add_bound: "arg_add v ab = (n, ab1) \<Longrightarrow> ab1 = ab @ [v] \<and> bound_to ab1 [n] [v]"
  by (auto simp: arg_add_def bound_to_def bound_def nth_append)

lemma arg_adds_bound: "arg_adds vs ab = (ns, ab1) \<Longrightarrow> ab1 = ab @ vs \<and> bound_to ab1 ns vs"
proof (induction vs arbitrary: ab ns)
  case Nil
  then show ?case by (simp add: bound_to_def)
next
  case (Cons v vs)
  from Cons.prems obtain n ns' where n: "arg_add v ab = (n, ab @ [v])" and ns: "ns = n # ns'"
    and rest: "arg_adds vs (ab @ [v]) = (ns', ab1)"
    by (auto simp: arg_add_def Let_def split: prod.splits)
  from Cons.IH [OF rest] have IH: "ab1 = ab @ v # vs" "bound_to ab1 ns' vs" by auto
  from arg_add_bound [OF n] have "bound_to (ab @ [v]) [n] [v]" by simp
  then have "bound_to ((ab @ [v]) @ vs) [n] [v]" by (rule bound_to_append)
  then have "\<forall>rest. bound (ab1 @ rest) n = v" by (simp add: bound_to_def IH(1))
  with IH(2) show ?case by (simp add: ns bound_to_def IH(1))
qed

lemma list_ex_bound:
  assumes "bound_to ab ns vs"
  shows "list_ex (\<lambda>n. (ab @ rest) ! (n - 1) = x) ns \<longleftrightarrow> x \<in> set vs"
proof -
  have "set vs = bound (ab @ rest) ` set ns"
    using bound_toD [OF assms, of rest, symmetric] by simp
  then show ?thesis by (auto simp: list_ex_iff bound_def image_iff)
qed

lemma nth_bound: "bound_to ab [n] [v] \<Longrightarrow> (ab @ rest) ! (n - 1) = v"
  using bound_toD [of ab "[n]" "[v]" rest] by (simp add: bound_def)

lemmas bound_simps = list_ex_bound [of _ _ _ "[]", simplified] nth_bound [of _ _ _ "[]", simplified]

section \<open>The fragment\<close>

lemma pg_accessClause_eval:
  assumes "pg_accessClause af gt ab = (w, vals)"
  shows "(\<exists>extra. vals = ab @ extra) \<and>
    pg_eval (vals @ rest) g w =
      (visible_spec af g \<and> \<not> (gt \<and> F_Restricted af \<and> G_Type g \<in> set (F_DenyTypes af)))"
proof -
  obtain ph1 ab1 where s: "arg_adds (F_Spaces af) ab = (ph1, ab1)" by (cases "arg_adds (F_Spaces af) ab")
  let ?ab2 = "if F_Spaces af = [] then ab else ab1"
  obtain n ab3 where p: "arg_add (F_Principal af) ?ab2 = (n, ab3)" by (cases "arg_add (F_Principal af) ?ab2")
  obtain ph4 ab4 where t: "arg_adds (F_DenyTypes af) ab3 = (ph4, ab4)" by (cases "arg_adds (F_DenyTypes af) ab3")
  note S = arg_adds_bound [OF s] and P = arg_add_bound [OF p] and T = arg_adds_bound [OF t]
  let ?deny = "gt \<and> F_Restricted af \<and> F_DenyTypes af \<noteq> []"
  have vals: "vals = (if ?deny then ab4 else ab3)"
    using assms s p t by (auto simp: pg_accessClause_def Let_def split: if_splits)
  have w: "w = (let ors = P_Or ((if F_AllowPublic af then [P_Public] else []) @
        (if F_Spaces af = [] then [] else [P_SpaceIn ph1]) @ [P_PrivateOf n])
      in if ?deny then P_And ors (P_TypeNotIn ph4) else ors)"
    using assms s p t by (auto simp: pg_accessClause_def Let_def split: if_splits)
  have e1: "\<exists>e1. vals = ?ab2 @ [F_Principal af] @ e1" using P T vals by (cases ?deny) simp_all
  then obtain e1 where e1: "vals = ?ab2 @ [F_Principal af] @ e1" ..
  have sp: "F_Spaces af \<noteq> [] \<Longrightarrow> list_ex (\<lambda>k. (vals @ rest) ! (k - 1) = x) ph1 \<longleftrightarrow> x \<in> set (F_Spaces af)" for x
    using list_ex_bound [OF conjunct2 [OF S], of "[F_Principal af] @ e1 @ rest"] e1 by simp
  have pr: "(vals @ rest) ! (n - 1) = F_Principal af"
    using nth_bound [OF conjunct2 [OF P], of "e1 @ rest"] e1 P by simp
  have ty: "?deny \<Longrightarrow> list_ex (\<lambda>k. (vals @ rest) ! (k - 1) = x) ph4 \<longleftrightarrow> x \<in> set (F_DenyTypes af)" for x
    using list_ex_bound [OF conjunct2 [OF T], of rest] vals by simp
  have "pg_eval (vals @ rest) g w =
      (visible_spec af g \<and> \<not> (gt \<and> F_Restricted af \<and> G_Type g \<in> set (F_DenyTypes af)))"
    by (cases "G_Visibility g") (auto simp: w Let_def sp pr ty visible_spec_def simp del: One_nat_def)
  moreover have "\<exists>extra. vals = ab @ extra" using e1 S by auto
  ultimately show ?thesis by blast
qed

text \<open>The two access fragments agree: for every filter, every values bound before the fragment
  and after it, the numbered fragment of the Postgres adapter selects the rows the positional
  fragment of the SQLite adapter selects, for entities and for edges.\<close>

theorem access_fragments_agree:
  "(let (w, vals) = pg_accessWhere af ab in pg_eval (vals @ rest) g w) = accessWhere af g \<and>
   (let (w, vals) = pg_accessWhereEdge af ab in pg_eval (vals @ rest) g w) = accessWhereEdge af g"
  by (simp add: pg_accessWhere_def pg_accessWhereEdge_def accessWhere_iff accessWhereEdge_iff
      pg_accessClause_eval [OF surjective_pairing] case_prod_beta)

lemma pg_accessWhere_eval:
  assumes "pg_accessWhere af ab = (w, vals)"
  shows "pg_eval (vals @ rest) g w = accessWhere af g" "\<exists>extra. vals = ab @ extra"
  using pg_accessClause_eval [of af True ab w vals rest g] assms
  by (simp_all add: pg_accessWhere_def accessWhere_iff)

lemma pg_accessWhereEdge_eval:
  assumes "pg_accessWhereEdge af ab = (w, vals)"
  shows "pg_eval (vals @ rest) g w = accessWhereEdge af g" "\<exists>extra. vals = ab @ extra"
  using pg_accessClause_eval [of af False ab w vals rest g] assms
  by (simp_all add: pg_accessWhereEdge_def accessWhereEdge_iff)

section \<open>Rows and reads\<close>

lemma pg_scanEntityRow_eq: "pg_scanEntityRow r = scanEntity r"
  by (simp add: pg_scanEntityRow_def scanEntity_def prov_of_cols_def)

lemma pg_scanEdgeRow_eq: "pg_scanEdgeRow r = scanEdge r"
  by (simp add: pg_scanEdgeRow_def scanEdge_def prov_of_cols_def)

lemma pg_load_eq: "pg_loadEntityChildren db (pg_scanEntityRow r) = load_row db r"
  by (simp add: pg_loadEntityChildren_def loadEntityChildren_def load_row_def pg_scanEntityRow_eq)

lemma lookup_row_find: "lookup_row k x rows = find (\<lambda>r. k r = x) rows"
  by (induction rows) (simp_all add: lookup_row_def)

lemma pg_getEntityByID_eq: "pg_getEntityByID db e = getEntityByID db e"
  unfolding pg_getEntityByID_def getEntityByID_def get_entity_row_def lookup_row_find pg_load_eq ..

lemma pg_getEdgeByID_eq: "pg_getEdgeByID db e = getEdgeByID db e"
  unfolding pg_getEdgeByID_def getEdgeByID_def lookup_row_find pg_scanEdgeRow_eq ..

lemma pg_GetEntity_eq: "pg_GetEntity af e db = GetEntity af e db"
proof -
  obtain n ab where a: "arg_add e [] = (n, ab)" by (cases "arg_add e []")
  obtain w vals where f: "pg_accessWhere af ab = (w, vals)" by (cases "pg_accessWhere af ab")
  obtain ex where ex: "vals = ab @ ex" using pg_accessWhere_eval(2) [OF f] ..
  have "vals ! (n - 1) = e" using nth_bound [OF conjunct2 [OF arg_add_bound [OF a]], of ex] ex by simp
  moreover have "pg_eval vals (guard_entity r) w = node_visible af r" for r
    using pg_accessWhere_eval(1) [OF f, of "[]"] by (simp add: node_visible_def)
  ultimately show ?thesis by (simp add: pg_GetEntity_def GetEntity_def a f pg_load_eq split: option.split)
qed

lemma pg_ResolveByExternalID_eq: "pg_ResolveByExternalID ord af keys db = ResolveByExternalID ord af keys db"
proof -
  obtain ph ab where a: "arg_adds keys [] = (ph, ab)" by (cases "arg_adds keys []")
  obtain w vals where f: "pg_accessWhere af ab = (w, vals)" by (cases "pg_accessWhere af ab")
  obtain ex where ex: "vals = ab @ ex" using pg_accessWhere_eval(2) [OF f] ..
  have "list_ex (\<lambda>n. vals ! (n - 1) = k) ph = List.member keys k" for k
    using list_ex_bound [OF conjunct2 [OF arg_adds_bound [OF a]], of ex k] ex by (simp add: List.member_iff)
  moreover have "pg_eval vals (guard_entity r) w = node_visible af r" for r
    using pg_accessWhere_eval(1) [OF f, of "[]"] by (simp add: node_visible_def)
  ultimately show ?thesis by (simp add: pg_ResolveByExternalID_def ResolveByExternalID_def a f pg_load_eq)
qed

lemma pg_externalHitsTx_eq: "pg_externalHitsTx space keys db = externalHitsTx space keys db"
proof -
  obtain n ab where a: "arg_add space [] = (n, ab)" by (cases "arg_add space []")
  obtain ph vals where b: "arg_adds keys ab = (ph, vals)" by (cases "arg_adds keys ab")
  note A = arg_add_bound [OF a] and B = arg_adds_bound [OF b]
  have "vals ! (n - 1) = space" using nth_bound [OF conjunct2 [OF A], of keys] B by simp
  moreover have "list_ex (\<lambda>n. vals ! (n - 1) = k) ph = List.member keys k" for k
    using list_ex_bound [OF conjunct2 [OF B], of "[]" k] by (simp add: List.member_iff)
  ultimately show ?thesis by (simp add: pg_externalHitsTx_def externalHitsTx_def a b)
qed

section \<open>The traversal\<close>

lemma pg_incidentVisible_eq: "pg_incidentVisible ord af preds db n = incidentVisible ord af preds db n"
proof -
  obtain k ab1 where a: "arg_add n [] = (k, ab1)" by (cases "arg_add n []")
  obtain we ab2 where e: "pg_accessWhereEdge af ab1 = (we, ab2)" by (cases "pg_accessWhereEdge af ab1")
  obtain wn ab3 where f: "pg_accessWhere af ab2 = (wn, ab3)" by (cases "pg_accessWhere af ab2")
  obtain ph vals where b: "arg_adds preds ab3 = (ph, vals)" by (cases "arg_adds preds ab3")
  obtain x2 where x2: "ab2 = ab1 @ x2" using pg_accessWhereEdge_eval(2) [OF e] ..
  obtain x3 where x3: "ab3 = ab2 @ x3" using pg_accessWhere_eval(2) [OF f] ..
  note B = arg_adds_bound [OF b]
  have "vals ! (k - 1) = n"
    using nth_bound [OF conjunct2 [OF arg_add_bound [OF a]], of "x2 @ x3 @ preds"] B x2 x3 by simp
  moreover have "pg_eval vals (guard_edge d) we = edge_visible af d" for d
    using pg_accessWhereEdge_eval(1) [OF e, of "x3 @ preds"] B x3 by (simp add: edge_visible_def)
  moreover have "pg_eval vals (guard_entity r) wn = node_visible af r" for r
    using pg_accessWhere_eval(1) [OF f, of preds] B by (simp add: node_visible_def)
  moreover have "list_ex (\<lambda>j. vals ! (j - 1) = p) ph = List.member preds p" for p
    using list_ex_bound [OF conjunct2 [OF B], of "[]" p] by (simp add: List.member_iff)
  moreover have "(length preds > 0 \<longrightarrow> Q) = (preds = [] \<or> Q)" for Q by auto
  ultimately show ?thesis
    unfolding pg_incidentVisible_def incidentVisible_def incident_row_def [abs_def] far_end_def
      a e f b prod.case Let_def pg_scanEdgeRow_eq conj_assoc by simp
qed

lemma pg_visit_edge_eq: "pg_visit_edge = visit_edge"
  by (intro ext) (unfold pg_visit_edge_def visit_edge_def pg_getEntityByID_eq, rule refl)

lemma pg_visit_node_eq: "pg_visit_node = visit_node"
  by (intro ext) (unfold pg_visit_node_def visit_node_def pg_visit_edge_eq pg_incidentVisible_eq, rule refl)

lemma pg_hops_eq: "pg_hops ord af q db h frontier s = hops ord af q db h frontier s"
proof (induction h arbitrary: frontier s)
  case (Suc h)
  then show ?case
    by (cases "rfold (visit_node ord af q db) frontier (s\<lparr>b_next := []\<rparr>)") (simp_all add: pg_visit_node_eq)
qed simp

lemma pg_Neighbors_eq: "pg_Neighbors ord af q db = Neighbors ord af q db"
  by (simp add: pg_Neighbors_def Neighbors_def Let_def clamp_hops_def pg_GetEntity_eq pg_hops_eq)


end
