(* ===== verification/Jdx_Identity.thy ===== *)
theory Jdx_Identity
  imports Jdx_Entities Jdx_Samples
begin

text \<open>
  What resolve-before-create achieves (\<open>AppendEntityFact\<close> in \<open>entities.go\<close>): which entities exist
  after a successful append, who carries the external ids of the candidate, and what a repeated
  assertion does.
\<close>

section \<open>Who owns the external keys of a space\<close>

definition owned_in :: "space_id \<Rightarrow> string set \<Rightarrow> entity_id set \<Rightarrow> db \<Rightarrow> bool" where
  "owned_in sp ks E db \<longleftrightarrow>
     (\<forall>x \<in> set (entity_external_ids db). xr_space x = sp \<and> xr_key x \<in> ks \<longrightarrow> xr_entity x \<in> E)"

definition carries :: "entity_id \<Rightarrow> db \<Rightarrow> string \<Rightarrow> bool" where
  "carries e db k \<longleftrightarrow> (\<exists>x \<in> set (entity_external_ids db). xr_entity x = e \<and> xr_key x = k)"

lemma hits_owned:
  assumes "wf_tables db" and "keys \<noteq> []"
  shows "owned_in sp (set keys) (set (externalHitsTx sp keys db)) db"
  using assms by (fastforce simp: owned_in_def externalHitsTx_iff wf_tables_def ext_ok_def ids_def)

lemma owned_hits:
  assumes "owned_in sp (set keys) E db"
  shows "set (externalHitsTx sp keys db) \<subseteq> E"
  using assms by (metis (no_types, lifting) owned_in_def externalHitsTx_iff subsetI)

lemma insert_ext_owned:
  assumes "insert_ext_or_ignore (ext_to_row e x) db = Inr db'" and "owned_in (E_Space e) ks {E_ID e} db"
    and "Key x \<in> ks"
  shows "owned_in (E_Space e) ks {E_ID e} db' \<and> carries (E_ID e) db' (Key x) \<and>
    set (entity_external_ids db) \<subseteq> set (entity_external_ids db')"
  using assms
  by (auto simp: insert_ext_or_ignore_def owned_in_def carries_def ext_to_row_def list_ex_iff split: if_splits)

lemma carries_mono:
  "carries e db k \<Longrightarrow> set (entity_external_ids db) \<subseteq> set (entity_external_ids db') \<Longrightarrow> carries e db' k"
  by (auto simp: carries_def)

lemma insert_exts_owned:
  assumes "rfold (\<lambda>x. insert_ext_or_ignore (ext_to_row e x)) xs db = Inr db'"
    and "owned_in (E_Space e) ks {E_ID e} db" and "Key ` set xs \<subseteq> ks"
  shows "owned_in (E_Space e) ks {E_ID e} db' \<and> (\<forall>x \<in> set xs. carries (E_ID e) db' (Key x)) \<and>
    set (entity_external_ids db) \<subseteq> set (entity_external_ids db')"
  using assms
proof (induction xs arbitrary: db)
  case Nil
  then show ?case by simp
next
  case (Cons x xs)
  from Cons.prems(1) obtain db1 where s: "insert_ext_or_ignore (ext_to_row e x) db = Inr db1"
    "rfold (\<lambda>x. insert_ext_or_ignore (ext_to_row e x)) xs db1 = Inr db'" by (auto elim: rbindE)
  note o = insert_ext_owned [OF s(1) Cons.prems(2)]
  have k: "Key x \<in> ks" "Key ` set xs \<subseteq> ks" using Cons.prems(3) by simp_all
  note a = o [OF k(1)]
  note b = Cons.IH [OF s(2) conjunct1 [OF a] k(2)]
  have "carries (E_ID e) db' (Key x)" by (rule carries_mono [of _ db1]) (use a b in simp_all)
  moreover have "set (entity_external_ids db) \<subseteq> set (entity_external_ids db')" using a b by blast
  ultimately show ?case using b by simp
qed

lemma upsert_owned:
  assumes "upsertEntitySnapshot e ts db = Inr db'" and "owned_in (E_Space e) (set (ExternalKeys e)) {E_ID e} db"
  shows "owned_in (E_Space e) (set (ExternalKeys e)) {E_ID e} db' \<and>
    (\<forall>k \<in> set (ExternalKeys e). carries (E_ID e) db' k) \<and> ids db' = insert (E_ID e) (ids db)"
  using assms(1)
proof (rule upsertEntitySnapshotE)
  fix db1 db2 db3
  assume s: "upsert_row e ts db = Inr db1"
    "rfold (\<lambda>x. insert_ext_or_ignore (ext_to_row e x)) (E_ExternalIDs e) db1 = Inr db2"
    "rfold (\<lambda>m. insert_emb_or_replace (emb_to_row e m)) (E_Embeddings e) db2 = Inr db3"
    and db': "db' = syncEntityFTS (E_ID e) db3"
  have "owned_in (E_Space e) (set (ExternalKeys e)) {E_ID e} db1"
    using assms(2) upsert_row_frame [OF s(1)] by (simp add: owned_in_def)
  from insert_exts_owned [OF s(2) this]
  have o: "owned_in (E_Space e) (set (ExternalKeys e)) {E_ID e} db2"
    "\<forall>x \<in> set (E_ExternalIDs e). carries (E_ID e) db2 (Key x)"
    by (auto simp: ExternalKeys_def)
  have x: "entity_external_ids db' = entity_external_ids db2" "entities db' = entities db1"
    using insert_embs_frame [OF s(3)] insert_exts_frame [OF s(2)] by (simp_all add: db')
  have "ids db' = insert (E_ID e) (ids db)"
    using upsert_row_ids [OF s(1)] x(2) by (simp add: ids_def)
  with o x(1) show ?thesis by (simp add: owned_in_def carries_def ExternalKeys_def)
qed

lemma appendEntityFact_frame:
  "appendEntityFact nid e w dk ac ts db = Inr db' \<Longrightarrow>
     entity_external_ids db' = entity_external_ids db \<and> entities db' = entities db \<and> ids db' = ids db"
  by (erule appendEntityFactE) (simp add: insertFact_frame)

lemma ExternalKeys_E_ID [simp]: "ExternalKeys (c\<lparr>E_ID := i\<rparr>) = ExternalKeys c"
  by (simp add: ExternalKeys_def)

lemma attach_to_owned:
  assumes "attach_to env k dk ts inp c target db = Inr (db', eid)"
    and "owned_in (E_Space c) (set (ExternalKeys c)) {target} db"
  shows "eid = target \<and> owned_in (E_Space c) (set (ExternalKeys c)) {target} db' \<and>
    (\<forall>k \<in> set (ExternalKeys c). carries target db' k) \<and> ids db' = insert target (ids db)"
  using assms(1)
proof (rule attach_toE)
  fix db1
  assume e: "eid = target" and u: "upsertEntitySnapshot (c\<lparr>E_ID := target\<rparr>) ts db = Inr db1"
    and a: "appendEntityFact (env_newID env k) (c\<lparr>E_ID := target\<rparr>) (AE_Writer inp) dk (AE_Actor inp) ts db1 = Inr db'"
  from upsert_owned [OF u] assms(2) appendEntityFact_frame [OF a] e show ?thesis
    by (simp add: owned_in_def carries_def)
qed

lemma insert_new_owned:
  assumes "insert_new env k dk ts inp c d db = Inr (db', eid)"
    and "owned_in (E_Space c) (set (ExternalKeys c)) {} db"
  shows "eid = env_newID env k \<and> owned_in (E_Space c) (set (ExternalKeys c)) {eid} db' \<and>
    (\<forall>k \<in> set (ExternalKeys c). carries eid db' k) \<and> ids db' = insert eid (ids db)"
proof -
  have o: "owned_in (E_Space c) (set (ExternalKeys c)) {eid} db"
    using assms(2) by (auto simp: owned_in_def)
  from assms(1) show ?thesis
  proof (cases rule: insert_newE)
    case (plain db1)
    from upsert_owned [OF plain(2)] o appendEntityFact_frame [OF plain(3)] plain(1) show ?thesis
      by (simp add: owned_in_def carries_def)
  next
    case (flagged db1 db2 db3 ed pl)
    from flagged(7) have "entity_external_ids db3 = entity_external_ids db2 \<and> ids db3 = ids db2"
      by (auto simp: upsertEdgeSnapshot_def insert_edge_or_replace_def elim!: rbindE split: if_splits)
    with upsert_owned [OF flagged(2)] o appendEntityFact_frame [OF flagged(3)] flagged(1)
      insertFact_frame [OF flagged(9)] show ?thesis
      by (simp add: owned_in_def carries_def)
  qed
qed

section \<open>Merging the hits\<close>

lemma move_rows_owner:
  "x \<in> set (move_rows xr_entity xr_set k g (del_dups xr_entity xr_key k g rows)) \<Longrightarrow> k \<noteq> g \<Longrightarrow>
     \<exists>y \<in> set rows. xr_space x = xr_space y \<and> xr_key x = xr_key y \<and>
       (xr_entity x = xr_entity y \<and> xr_entity y \<noteq> g \<or> xr_entity x = k \<and> xr_entity y = g)"
  by (force simp: move_rows_def del_dups_def xr_set_def split: if_splits)

lemma merge_one_owned:
  assumes "merge_one env k dk ts inp keep p db = Inr db'" and "wf_db db" and "has_entity db keep"
    and "keep \<noteq> snd p" and "owned_in sp ks E db"
  shows "owned_in sp ks (insert keep (E - {snd p})) db' \<and> ids db' = ids db - {snd p}"
proof -
  note i = merge_oneE [OF assms(1-4)]
  from insertFact_frame [OF i] have f: "entity_external_ids db' = entity_external_ids (merged keep (snd p) ts db)"
    "ids db' = ids (merged keep (snd p) ts db)" by simp_all
  have "owned_in sp ks (insert keep (E - {snd p})) (merged keep (snd p) ts db)"
    using assms(5) move_rows_owner [OF _ assms(4), of _ "entity_external_ids db"]
    by (fastforce simp: owned_in_def merged_def)
  with f show ?thesis by (simp add: owned_in_def merged_ids)
qed

lemma merge_hits_owned:
  assumes "rfold (merge_one env k dk ts inp keep) (enumerate n gs) db = Inr db'"
    and "wf_db db" and "has_entity db keep" and "keep \<notin> set gs" and "owned_in sp ks (insert keep (set gs)) db"
  shows "wf_db db' \<and> has_entity db' keep \<and> owned_in sp ks {keep} db' \<and> ids db' = ids db - set gs"
  using assms
proof (induction gs arbitrary: n db)
  case Nil
  then show ?case by simp
next
  case (Cons g gs)
  from Cons.prems(1) obtain db1 where m: "merge_one env k dk ts inp keep (n, g) db = Inr db1"
    "rfold (merge_one env k dk ts inp keep) (enumerate (Suc n) gs) db1 = Inr db'" by (auto elim: rbindE)
  have ne: "keep \<noteq> snd (n, g)" using Cons.prems(4) by simp
  have w: "wf_db db1 \<and> has_entity db1 keep"
    using wf_merge_one [OF _ m(1) ne] Cons.prems(2,3) by blast
  have o: "owned_in sp ks (insert keep (insert keep (set (g # gs)) - {snd (n, g)})) db1 \<and> ids db1 = ids db - {snd (n, g)}"
    by (rule merge_one_owned [OF m(1) Cons.prems(2,3) ne Cons.prems(5)])
  then have "owned_in sp ks (insert keep (set gs)) db1" by (auto simp: owned_in_def)
  with Cons.IH [OF m(2) _ _ _ this] w Cons.prems(4)
  have "wf_db db' \<and> has_entity db' keep \<and> owned_in sp ks {keep} db' \<and> ids db' = ids db1 - set gs" by simp
  with o show ?case by auto
qed

section \<open>The verdicts\<close>

lemma Resolve_with_hits:
  assumes "Resolve c inp p th = Inr d" and "p \<noteq> ResolveForceNew" and "ExternalIDHits inp \<noteq> []"
    and "distinct (ExternalIDHits inp)"
  shows "MatchKind d = MatchExternal \<and> Target d = hd (ExternalIDHits inp) \<and>
    (if length (ExternalIDHits inp) = 1 then Action d = ActionAttach \<and> MergeTargets d = []
     else Action d = ActionMerge \<and> MergeTargets d = ExternalIDHits inp)"
  using assms
  by (auto simp: Resolve_def Let_def decision0_def dedupeIDs_distinct hd_conv_nth
      split: if_splits option.splits)

lemma Resolve_without_hits:
  assumes "Resolve c inp p th = Inr d" and "p = ResolveForceNew \<or> ExternalIDHits inp = []"
  shows "MergeTargets d = [] \<and> (Action d = ActionInsertNew \<or> Action d = ActionInsertFlagged \<or>
    Action d = ActionAttach \<and> p \<noteq> ResolveForceNew \<and> Target d \<in> SM_ID ` set (VectorNeighbors inp))"
  using assms
  by (auto simp: Resolve_def Let_def decision0_def dest: maxScore_SomeD split: if_splits option.splits)

lemma getEntityByID_Inr:
  assumes "getEntityByID db e = Inr v"
  obtains r where "r \<in> set (entities db)" and "er_id r = e" and "v = load_row db r"
  using assms by (auto simp: getEntityByID_def get_entity_row_def dest: lookup_row_SomeD split: option.splits)

lemma append_resolved_identity:
  assumes wf: "wf_db db" and a: "append_resolved env k dk ts inp policy cand db = Inr (db', r)"
    and p: "policy \<noteq> ResolveForceNew" and hits: "hits = externalHitsTx (E_Space cand) (ExternalKeys cand) db"
  shows "owned_in (E_Space cand) (set (ExternalKeys cand)) {E_ID (RR_Entity r)} db' \<and>
    (\<forall>x \<in> set (ExternalKeys cand). carries (E_ID (RR_Entity r)) db' x) \<and>
    (if hits \<noteq> [] then E_ID (RR_Entity r) = hd hits \<and> RR_MergedFrom r = tl hits \<and>
       ids db' = ids db - set (tl hits) \<and> RR_MatchKind r = Some MatchExternal \<and>
       RR_Action r = Some (if length hits = 1 then ActionAttach else ActionMerge)
     else RR_MergedFrom r = [] \<and> ids db' = insert (E_ID (RR_Entity r)) (ids db)) \<and>
    (\<exists>row \<in> set (entities db'). RR_Entity r = load_row db' row)"
  using a
proof (rule append_resolvedE)
  fix d eid ent
  assume d: "Resolve cand \<lparr>ExternalIDHits = externalHitsTx (E_Space cand) (ExternalKeys cand) db,
       VectorNeighbors = resolveNeighbors policy (externalHitsTx (E_Space cand) (ExternalKeys cand) db) cand db\<rparr>
       policy (env_th env) = Inr d"
    and ap: "apply_decision env k dk ts inp cand d db = Inr (db', eid)"
    and g: "getEntityByID db' eid = Inr ent"
    and r: "r = \<lparr>RR_Entity = ent, RR_Action = Some (Action d), RR_MatchKind = Some (MatchKind d),
       RR_MergedFrom = drop 1 (MergeTargets d)\<rparr>"
  have wt: "wf_tables db" using wf by (simp add: wf_db_def)
  from g obtain row where row: "row \<in> set (entities db')" "er_id row = eid" "ent = load_row db' row"
    by (rule getEntityByID_Inr)
  then have e: "E_ID (RR_Entity r) = eid" using r by simp
  have dist: "distinct hits" unfolding hits by (rule externalHitsTx_distinct [OF wt])
  have own: "owned_in (E_Space cand) (set (ExternalKeys cand)) (set hits) db"
    unfolding hits using hits_owned [OF wt] by (cases "ExternalKeys cand") (auto simp: owned_in_def)
  show ?thesis
  proof (cases "hits = []")
    case True
    from Resolve_without_hits [OF d] True hits p have v: "MergeTargets d = []"
      "Action d = ActionInsertNew \<or> Action d = ActionInsertFlagged \<or> Action d = ActionAttach" by auto
    have "owned_in (E_Space cand) (set (ExternalKeys cand)) {eid} db' \<and>
        (\<forall>x \<in> set (ExternalKeys cand). carries eid db' x) \<and> ids db' = insert eid (ids db)"
    proof (cases "Action d = ActionAttach")
      case att: True
      with ap have "attach_to env k dk ts inp cand (Target d) db = Inr (db', eid)" by (simp add: apply_decision_def)
      from attach_to_owned [OF this] own True show ?thesis by (auto simp: owned_in_def)
    next
      case False
      with v ap have "insert_new env k dk ts inp cand d db = Inr (db', eid)" by (auto simp: apply_decision_def)
      from insert_new_owned [OF this] own True show ?thesis by (auto simp: owned_in_def)
    qed
    with True e row r v(1) show ?thesis by auto
  next
    case False
    with Resolve_with_hits [OF d p] dist hits have v: "MatchKind d = MatchExternal" "Target d = hd hits"
      "if length hits = 1 then Action d = ActionAttach \<and> MergeTargets d = []
       else Action d = ActionMerge \<and> MergeTargets d = hits" by simp_all
    have sub: "set hits \<subseteq> ids db" by (auto simp: hits externalHitsTx_iff ids_def)
    show ?thesis
    proof (cases "length hits = 1")
      case True
      then obtain h where h: "hits = [h]" by (auto simp: length_Suc_conv)
      with True v ap have "attach_to env k dk ts inp cand h db = Inr (db', eid)" by (simp add: apply_decision_def)
      from attach_to_owned [OF this] own h have "eid = h \<and> owned_in (E_Space cand) (set (ExternalKeys cand)) {eid} db' \<and>
        (\<forall>x \<in> set (ExternalKeys cand). carries eid db' x) \<and> ids db' = ids db"
        using sub by (auto simp: insert_absorb)
      with h v e r row show ?thesis by auto
    next
      case f: False
      from False obtain h hs where h: "hits = h # hs" by (cases hits) auto
      with f v ap obtain db1 where m: "rfold (merge_one env k dk ts inp h) (enumerate 0 hs) db = Inr db1"
        and t: "attach_to env (k + length hs) dk ts inp cand h db1 = Inr (db', eid)"
        by (auto simp: apply_decision_def merge_all_def elim!: rbindE)
      have "wf_db db1 \<and> has_entity db1 h \<and> owned_in (E_Space cand) (set (ExternalKeys cand)) {h} db1 \<and> ids db1 = ids db - set hs"
        by (rule merge_hits_owned [OF m wf]) (use h dist sub own in \<open>simp_all add: has_entity_ids\<close>)
      with attach_to_owned [OF t] have "eid = h \<and> owned_in (E_Space cand) (set (ExternalKeys cand)) {eid} db' \<and>
        (\<forall>x \<in> set (ExternalKeys cand). carries eid db' x) \<and> ids db' = ids db - set hs"
        by (auto simp: has_entity_ids insert_absorb)
      with h v e r row f show ?thesis by auto
    qed
  qed
qed

text \<open>The fact that records an entity write, and what a repetition finds.\<close>

lemma find_unique:
  assumes "f \<in> set fs" and "P f" and "\<And>g. g \<in> set fs \<Longrightarrow> P g \<Longrightarrow> g = f"
  shows "find P fs = Some f"
proof (cases "find P fs")
  case None
  with assms(1,2) show ?thesis by (simp add: find_None_iff)
next
  case (Some g)
  then have "g \<in> set fs" "P g" by (auto simp: find_Some_iff)
  with assms(3) [of g] Some show ?thesis by simp
qed

lemma prior_subject_unique:
  assumes "wf_db db" and "f \<in> set (facts db)" and "f_writer f = w" and "f_dedupe f = dk" and "f_kind f = kind"
  shows "prior_subject kind w dk db = Some (f_subject f)"
proof -
  have d: "distinct (map (\<lambda>f. (f_writer f, f_dedupe f)) (facts db))"
    using assms(1) by (simp add: wf_db_def wf_tables_def log_ok_def)
  have "find (\<lambda>f. f_writer f = w \<and> f_dedupe f = dk \<and> f_kind f = kind) (facts db) = Some f"
  proof (rule find_unique [OF assms(2)])
    fix g assume "g \<in> set (facts db)" "f_writer g = w \<and> f_dedupe g = dk \<and> f_kind g = kind"
    with distinct_map_inj_on [OF d, of g f] assms show "g = f" by simp
  qed (use assms in simp)
  then show ?thesis by (simp add: prior_subject_def)
qed

lemma insertFact_mono: "insertFact nid kind sub w dk pl ac ts db = Inr db' \<Longrightarrow> set (facts db) \<subseteq> set (facts db')"
  by (auto simp: insertFact_def split: if_splits)

lemma appendEntityFact_records:
  assumes "appendEntityFact nid e w dk ac ts db = Inr db'"
  shows "\<exists>f \<in> set (facts db'). f_writer f = w \<and> f_dedupe f = dk \<and> f_kind f = FactEntityAsserted \<and> f_subject f = E_ID e"
  using assms
proof (rule appendEntityFactE)
  fix pl assume "insertFact nid FactEntityAsserted (E_ID e) w dk pl ac ts db = Inr db'"
  then show ?thesis by (rule insertFactE) auto
qed

lemma apply_decision_records:
  assumes "apply_decision env k dk ts inp cand d db = Inr (db', eid)"
  shows "\<exists>f \<in> set (facts db'). f_writer f = AE_Writer inp \<and> f_dedupe f = dk \<and> f_kind f = FactEntityAsserted \<and> f_subject f = eid"
proof -
  have att: "\<exists>f \<in> set (facts db'). f_writer f = AE_Writer inp \<and> f_dedupe f = dk \<and> f_kind f = FactEntityAsserted \<and> f_subject f = eid"
    if "attach_to env j dk ts inp cand t db0 = Inr (db', eid)" for j t db0
    using that by (rule attach_toE) (drule appendEntityFact_records, simp)
  have new: "\<exists>f \<in> set (facts db'). f_writer f = AE_Writer inp \<and> f_dedupe f = dk \<and> f_kind f = FactEntityAsserted \<and> f_subject f = eid"
    if "insert_new env k dk ts inp cand d db = Inr (db', eid)"
    using that
  proof (cases rule: insert_newE)
    case (plain db1)
    from appendEntityFact_records [OF plain(3)] show ?thesis by simp
  next
    case (flagged db1 db2 db3 ed pl)
    from flagged(7) have "facts db3 = facts db2"
      by (auto simp: upsertEdgeSnapshot_def insert_edge_or_replace_def elim!: rbindE split: if_splits)
    with appendEntityFact_records [OF flagged(3)] insertFact_mono [OF flagged(9)] show ?thesis by auto
  qed
  from assms show ?thesis
    by (cases "Action d") (auto simp: apply_decision_def merge_all_def elim!: rbindE dest: att new)
qed

lemma AppendEntityFact_records:
  assumes "AppendEntityFact env inp db = (db', r, None)"
  shows "\<exists>f \<in> set (facts db'). f_writer f = AE_Writer inp \<and> f_dedupe f = fst (entity_dedupe_key env inp) \<and>
    f_kind f = FactEntityAsserted \<and> f_subject f = E_ID (RR_Entity r) \<and>
    getEntityByID db' (f_subject f) = Inr (RR_Entity r)"
proof (cases rule: AppendEntityFact_cases [of env inp db])
  case (unchanged r e)
  with assms show ?thesis by simp
next
  case (appended db2 r2 cand)
  with assms have "append_resolved env (snd (entity_dedupe_key env inp)) (fst (entity_dedupe_key env inp)) (env_now env 1)
      inp (effective_policy (AE_Policy inp)) cand db = Inr (db', r)" by simp
  then show ?thesis
  proof (rule append_resolvedE)
    fix d eid ent
    assume a: "apply_decision env (snd (entity_dedupe_key env inp)) (fst (entity_dedupe_key env inp)) (env_now env 1)
        inp cand d db = Inr (db', eid)"
      and g: "getEntityByID db' eid = Inr ent"
      and r: "r = \<lparr>RR_Entity = ent, RR_Action = Some (Action d), RR_MatchKind = Some (MatchKind d),
        RR_MergedFrom = drop 1 (MergeTargets d)\<rparr>"
    from getEntityByID_Inr [OF g] have "E_ID ent = eid" by (metis load_row_sel(1))
    with apply_decision_records [OF a] g r show ?thesis by auto
  qed
qed

section \<open>Properties\<close>


text \<open>The write of the witnesses: a movie that carries the external ids of both \<open>a\<close> and \<open>b\<close>.\<close>

definition sample_write_env :: env where
  "sample_write_env = \<lparr>env_now = (\<lambda>k. 7), env_newID = (\<lambda>k. ''n'' @ replicate k CHR ''+''),
     env_th = \<lparr>AutoMerge = 0.94, Review = 0.86\<rparr>, env_sha = (\<lambda>s. s)\<rparr>"

definition sample_write :: append_entity_input where
  "sample_write = \<lparr>AE_Candidate = sample_cand\<lparr>E_ExternalIDs :=
       [\<lparr>Scheme = ''tmdb'', Value = ''1''\<rparr>, \<lparr>Scheme = ''imdb'', Value = ''2''\<rparr>]\<rparr>,
     AE_Writer = ''w'', AE_DedupeKey = ''k1'', AE_Actor = ''kate'', AE_Policy = ResolveAuto\<rparr>"

text \<open>For evaluation: the append with the vector neighbours given, since the square root in the cosine
  does not compute; a candidate without embeddings has none.\<close>

definition append_given :: "scored_match list \<Rightarrow> env \<Rightarrow> append_entity_input \<Rightarrow> db \<Rightarrow> db \<times> resolve_result \<times> gerr option" where
  "append_given ns env inp db =
     (let c = AE_Candidate inp; policy = effective_policy (AE_Policy inp);
          cand = c\<lparr>E_Provenance := normalizeProvenance (E_Provenance c) (env_now env 0)\<rparr>;
          dk = fst (entity_dedupe_key env inp); k = snd (entity_dedupe_key env inp) in
      if \<not> KnownType (E_Type c) \<or> \<not> Visibility_Valid (E_Visibility c) then (db, result0, Some ErrInvalidInput)
      else if \<not> Policy_Valid policy then (db, result0, Some ErrInvalidPolicy)
      else (case prior_subject FactEntityAsserted (AE_Writer inp) dk db of
         Some subject \<Rightarrow>
           (case getEntityByID db subject of
              Inl e \<Rightarrow> (db, result0, Some e)
            | Inr ent \<Rightarrow> (db, \<lparr>RR_Entity = ent, RR_Action = Some ActionAttach,
                RR_MatchKind = Some MatchNone, RR_MergedFrom = []\<rparr>, Some ErrDuplicateFact))
       | None \<Rightarrow>
           (case rbind (Resolve cand \<lparr>ExternalIDHits = externalHitsTx (E_Space cand) (ExternalKeys cand) db,
                VectorNeighbors = ns\<rparr> policy (env_th env)) (\<lambda>d.
              rbind (apply_decision env k dk (env_now env 1) inp cand d db) (\<lambda>p.
              rbind (getEntityByID (fst p) (snd p)) (\<lambda>ent.
              Inr (fst p, \<lparr>RR_Entity = ent, RR_Action = Some (Action d), RR_MatchKind = Some (MatchKind d),
                RR_MergedFrom = drop 1 (MergeTargets d)\<rparr>)))) of
              Inl e \<Rightarrow> (db, result0, Some e)
            | Inr (db', r) \<Rightarrow> (db', r, None))))"

lemma AppendEntityFact_given:
  assumes "\<And>x. resolveNeighbors (effective_policy (AE_Policy inp))
      (externalHitsTx (E_Space (AE_Candidate inp)) (ExternalKeys (AE_Candidate inp)) db)
      ((AE_Candidate inp)\<lparr>E_Provenance := x\<rparr>) db = ns"
  shows "AppendEntityFact env inp db = append_given ns env inp db"
proof -
  have c: "E_Space ((AE_Candidate inp)\<lparr>E_Provenance := x\<rparr>) = E_Space (AE_Candidate inp)"
    "ExternalKeys ((AE_Candidate inp)\<lparr>E_Provenance := x\<rparr>) = ExternalKeys (AE_Candidate inp)" for x
    by (simp_all add: ExternalKeys_def)
  show ?thesis
    unfolding AppendEntityFact_def append_given_def append_resolved_def Let_def c assms by simp
qed

abbreviation append_plain :: "env \<Rightarrow> append_entity_input \<Rightarrow> db \<Rightarrow> db \<times> resolve_result \<times> gerr option" where
  "append_plain \<equiv> append_given []"

lemma AppendEntityFact_plain:
  "E_Embeddings (AE_Candidate inp) = [] \<Longrightarrow> AppendEntityFact env inp db = append_plain env inp db"
  by (rule AppendEntityFact_given) (simp add: resolveNeighbors_def)

lemma sample_write_succeeds:
  obtains db' r where "AppendEntityFact sample_write_env sample_write sample_db = (db', r, None)"
proof -
  have "snd (snd (append_plain sample_write_env sample_write sample_db)) = None" by code_simp
  moreover have "E_Embeddings (AE_Candidate sample_write) = []" by (simp add: sample_write_def sample_cand_def)
  ultimately show thesis using that by (metis AppendEntityFact_plain prod.collapse)
qed

lemma sample_write_hits:
  "externalHitsTx (E_Space (AE_Candidate sample_write)) (ExternalKeys (AE_Candidate sample_write)) sample_db = [''a'', ''b'']"
  by code_simp

lemma sample_write_sel [simp]:
  "AE_Policy sample_write = ResolveAuto" "AE_DedupeKey sample_write = ''k1''"
  by (simp_all add: sample_write_def)


text \<open>C17: Uniqueness of external ids. After any successful assertion outside \<open>force_new\<close>, the returned
  entity carries every external id of the candidate, and in the candidate's space no other
  entity carries any of them.\<close>

theorem AppendEntityFact_keys:
  assumes "wf_db db" and "AppendEntityFact env inp db = (db', r, None)" and "AE_Policy inp \<noteq> ResolveForceNew"
  shows "set (ExternalKeys (AE_Candidate inp)) \<subseteq> set (ExternalKeys (RR_Entity r)) \<and>
    set (externalHitsTx (E_Space (AE_Candidate inp)) (ExternalKeys (AE_Candidate inp)) db') \<subseteq> {E_ID (RR_Entity r)}"
proof (cases rule: AppendEntityFact_cases [of env inp db])
  case (unchanged r e)
  with assms show ?thesis by simp
next
  case (appended db2 r2 cand)
  have p: "effective_policy (AE_Policy inp) \<noteq> ResolveForceNew"
    using assms(3) by (simp add: effective_policy_def)
  have c: "E_Space cand = E_Space (AE_Candidate inp)" "ExternalKeys cand = ExternalKeys (AE_Candidate inp)"
    using appended(2) by (simp_all add: ExternalKeys_def)
  from appended(1) assms(2) have r: "db2 = db'" "r2 = r" by simp_all
  note i = append_resolved_identity [OF assms(1) appended(3) p refl, unfolded c r]
  from i obtain row where row: "RR_Entity r = load_row db' row" by blast
  have "wf_tables db'" using wf_AppendEntityFact [OF assms(1), of env inp] assms(2) by (simp add: wf_db_def)
  then have k: "set (ExternalKeys (RR_Entity r)) =
      xr_key ` set (filter (\<lambda>x. xr_entity x = E_ID (RR_Entity r)) (entity_external_ids db'))"
    unfolding row by (simp add: load_row_children)
  have "set (ExternalKeys (AE_Candidate inp)) \<subseteq> set (ExternalKeys (RR_Entity r))"
    using i by (auto simp: k carries_def)
  with owned_hits i show ?thesis by blast
qed

theorem AppendEntityFact_keys_witness:
  "\<exists>db' r. AppendEntityFact sample_write_env sample_write sample_db = (db', r, None) \<and>
     {''tmdb:1'', ''imdb:2''} \<subseteq> set (ExternalKeys (RR_Entity r))"
proof -
  obtain db' r where w: "AppendEntityFact sample_write_env sample_write sample_db = (db', r, None)"
    by (rule sample_write_succeeds)
  have "set (ExternalKeys (AE_Candidate sample_write)) = {''tmdb:1'', ''imdb:2''}" by code_simp
  with AppendEntityFact_keys [OF wf_sample w] w show ?thesis by auto
qed

lemma AppendEntityFact_again:
  assumes "wf_db db" and "AppendEntityFact env inp db = (db', r, None)"
    and "AE_Writer inp' = AE_Writer inp"
    and "fst (entity_dedupe_key env' inp') = fst (entity_dedupe_key env inp)"
    and "KnownType (E_Type (AE_Candidate inp'))" and "Visibility_Valid (E_Visibility (AE_Candidate inp'))"
    and "Policy_Valid (effective_policy (AE_Policy inp'))"
  shows "\<exists>r'. AppendEntityFact env' inp' db' = (db', r', Some ErrDuplicateFact) \<and> RR_Entity r' = RR_Entity r"
proof -
  from AppendEntityFact_records [OF assms(2)] obtain f where f: "f \<in> set (facts db')"
    "f_writer f = AE_Writer inp'" "f_dedupe f = fst (entity_dedupe_key env' inp')" "f_kind f = FactEntityAsserted"
    "getEntityByID db' (f_subject f) = Inr (RR_Entity r)"
    using assms(3,4) by auto
  have "wf_db db'" using wf_AppendEntityFact [OF assms(1), of env inp] assms(2) by simp
  from prior_subject_unique [OF this f(1-4)] f(5) assms(5-7) show ?thesis
    by (simp add: AppendEntityFact_def Let_def)
qed

text \<open>C20: Assertions are idempotent. Repeating a successful assertion, with any candidate of a known type
  and policy, under the same writer and dedupe key, reports the duplicate, returns the entity the
  first one produced and changes nothing.\<close>

theorem AppendEntityFact_idempotent:
  assumes "wf_db db" and "AppendEntityFact env inp db = (db', r, None)"
    and "AE_Writer inp' = AE_Writer inp"
    and "fst (entity_dedupe_key env' inp') = fst (entity_dedupe_key env inp)"
    and "KnownType (E_Type (AE_Candidate inp'))" and "Visibility_Valid (E_Visibility (AE_Candidate inp'))"
    and "Policy_Valid (effective_policy (AE_Policy inp'))"
  shows "\<exists>r'. AppendEntityFact env' inp' db' = (db', r', Some ErrDuplicateFact) \<and> RR_Entity r' = RR_Entity r"
  using assms by (rule AppendEntityFact_again)

theorem AppendEntityFact_idempotent_witness:
  "\<exists>db' r r'. AppendEntityFact sample_write_env sample_write sample_db = (db', r, None) \<and>
     AppendEntityFact sample_write_env sample_write db' = (db', r', Some ErrDuplicateFact) \<and> RR_Entity r' = RR_Entity r"
proof -
  obtain db' r where w: "AppendEntityFact sample_write_env sample_write sample_db = (db', r, None)"
    by (rule sample_write_succeeds)
  have v: "KnownType (E_Type (AE_Candidate sample_write))" "Visibility_Valid (E_Visibility (AE_Candidate sample_write))"
    "Policy_Valid (effective_policy (AE_Policy sample_write))"
    by code_simp+
  from AppendEntityFact_idempotent [OF wf_sample w refl refl v] w show ?thesis by blast
qed

text \<open>A subject that is gone stays gone: when the entity of the first assertion has been retracted or
  merged away, repeating the assertion fails with not-found, changes nothing, and will do so
  again; the writer cannot re-create the entity under that dedupe key.\<close>

theorem AppendEntityFact_lost_subject:
  assumes "prior_subject FactEntityAsserted (AE_Writer inp) (fst (entity_dedupe_key env inp)) db = Some s"
    and "s \<notin> ids db"
    and "KnownType (E_Type (AE_Candidate inp))" and "Visibility_Valid (E_Visibility (AE_Candidate inp))"
    and "Policy_Valid (effective_policy (AE_Policy inp))"
  shows "AppendEntityFact env inp db = (db, result0, Some ErrNotFound)"
proof -
  have "getEntityByID db s = Inl ErrNotFound"
    using assms(2) get_entity_row_None [of db s] by (simp add: getEntityByID_def)
  with assms show ?thesis by (simp add: AppendEntityFact_def Let_def)
qed

theorem AppendEntityFact_lost_subject_witness:
  "\<exists>db1 db2. AppendEntityFact sample_write_env sample_write db1 = (db1, result0, Some ErrNotFound) \<and>
     RetractEntity sample_write_env ''a'' ''kate'' ''k2'' db2 = (db1, None)"
proof -
  obtain db' r where w: "AppendEntityFact sample_write_env sample_write sample_db = (db', r, None)"
    by (rule sample_write_succeeds)
  have v: "KnownType (E_Type (AE_Candidate sample_write))" "Visibility_Valid (E_Visibility (AE_Candidate sample_write))"
    "Policy_Valid (effective_policy (AE_Policy sample_write))"
    by code_simp+
  have e: "snd (RetractEntity sample_write_env ''a'' ''kate'' ''k2'' (fst (append_plain sample_write_env sample_write sample_db))) = None \<and>
    prior_subject FactEntityAsserted (AE_Writer sample_write) (fst (entity_dedupe_key sample_write_env sample_write))
      (fst (RetractEntity sample_write_env ''a'' ''kate'' ''k2'' (fst (append_plain sample_write_env sample_write sample_db)))) = Some ''a''"
    by code_simp
  have a: "''a'' \<notin> set (map er_id (entities
      (fst (RetractEntity sample_write_env ''a'' ''kate'' ''k2'' (fst (append_plain sample_write_env sample_write sample_db))))))"
    by code_simp
  let ?db = "fst (RetractEntity sample_write_env ''a'' ''kate'' ''k2'' (fst (append_plain sample_write_env sample_write sample_db)))"
  have "''a'' \<notin> ids ?db" using a unfolding ids_def set_map .
  from AppendEntityFact_lost_subject [OF conjunct2 [OF e] this v] e show ?thesis
    by (metis prod.collapse)
qed

definition sample_vector_db :: db where
  "sample_vector_db = sample_db\<lparr>embeddings := [\<lparr>mr_entity = ''c'', mr_model = ''m'', mr_field = ''text'',
     mr_dim = 1, mr_vector = encodeVec [1065353216]\<rparr>]\<rparr>"

definition sample_vector_write :: append_entity_input where
  "sample_vector_write = \<lparr>AE_Candidate = sample_cand\<lparr>E_Space := ''work'',
       E_Embeddings := [\<lparr>Model = ''m'', Field = ''text'', Vector = [1065353216]\<rparr>]\<rparr>,
     AE_Writer = ''w'', AE_DedupeKey = ''k1'', AE_Actor = ''kate'', AE_Policy = ResolveAuto\<rparr>"

lemma sample_vector_neighbors:
  "resolveNeighbors (effective_policy (AE_Policy sample_vector_write))
     (externalHitsTx (E_Space (AE_Candidate sample_vector_write)) (ExternalKeys (AE_Candidate sample_vector_write))
       sample_vector_db) ((AE_Candidate sample_vector_write)\<lparr>E_Provenance := x\<rparr>) sample_vector_db =
     [\<lparr>SM_ID = ''c'', SM_Score = 1\<rparr>]"
proof -
  have f: "f32_val 1065353216 = 1" by code_simp
  have cos: "cosine [1065353216] [1065353216] = 1"
    using f by (simp add: cosine_def cos_acc_def Let_def)
  have rows: "knn_rows ''m'' ''Movie'' None sample_vector_db =
      [(\<lparr>mr_entity = ''c'', mr_model = ''m'', mr_field = ''text'', mr_dim = 1, mr_vector = encodeVec [1065353216]\<rparr>,
        sample_row ''c'' ''zoe'' VisPrivate)]"
    by (simp add: knn_rows_def sample_vector_db_def sample_defs)
  have "knnByModel ''m'' ''Movie'' None [1065353216] 5 sample_vector_db = [\<lparr>SM_ID = ''c'', SM_Score = 1\<rparr>]"
    by (simp add: knnByModel_def rows cos cap_def)
  then show ?thesis
    by (simp add: resolveNeighbors_def sample_vector_write_def sample_cand_def effective_policy_def
        externalHitsTx_def ExternalKeys_def)
qed


end
