(* ===== verification/Jdx_PgRefine.thy ===== *)
theory Jdx_PgRefine
  imports Jdx_PgRead Jdx_Identity
begin

text \<open>
  The Postgres adapter refines the SQLite adapter. Two databases are \<open>alike\<close> when they hold the same
  entities, keys, labels, vectors, edges and log entries; what the two dialects legitimately store
  differently is left out: the properties (\<open>||\<close> against \<open>json_patch\<close>), the payload of a fact, its
  number, the search text. A statement, a transaction or an operation \<open>mirrors\<close> another when from
  alike databases a success is matched by a success that ends alike, and a duplicate by a duplicate.
\<close>

section \<open>Databases alike\<close>

definition bare_entity :: "entity_row \<Rightarrow> entity_row" where
  "bare_entity r = r\<lparr>er_props := JNull\<rparr>"

definition bare_edge :: "edge_row \<Rightarrow> edge_row" where
  "bare_edge d = d\<lparr>dr_props := None\<rparr>"

definition bare_fact :: "fact_row \<Rightarrow> fact_row" where
  "bare_fact f = f\<lparr>f_seq := 0, f_payload := PEmpty\<rparr>"

definition keyed :: "db \<Rightarrow> bool" where
  "keyed db \<longleftrightarrow> distinct (map (\<lambda>m. (mr_entity m, mr_key m)) (embeddings db)) \<and>
     (\<forall>m \<in> set (embeddings db). has_entity db (mr_entity m)) \<and>
     distinct (map (\<lambda>f. (f_writer f, f_dedupe f)) (facts db))"

definition alike :: "db \<Rightarrow> db \<Rightarrow> bool" where
  "alike a b \<longleftrightarrow> keyed a \<and> keyed b \<and>
     map bare_entity (entities a) = map bare_entity (entities b) \<and>
     entity_external_ids a = entity_external_ids b \<and> entity_labels a = entity_labels b \<and>
     set (embeddings a) = set (embeddings b) \<and>
     map bare_edge (edges a) = map bare_edge (edges b) \<and>
     map bare_fact (facts a) = map bare_fact (facts b)"

lemma alike_empty: "alike empty_db empty_db"
  by (simp add: alike_def keyed_def empty_db_def)

lemma bare_entity_sel [simp]:
  "er_id (bare_entity r) = er_id r" "er_created_at (bare_entity r) = er_created_at r"
  by (simp_all add: bare_entity_def)

lemma bare_touch:
  "bare_entity (r\<lparr>er_props := p\<rparr>) = bare_entity r"
  "bare_entity (r\<lparr>er_updated_at := t\<rparr>) = (bare_entity r)\<lparr>er_updated_at := t\<rparr>"
  by (cases r; simp add: bare_entity_def)+

lemma bare_edge_sel [simp]:
  "dr_id (bare_edge d) = dr_id d" "dr_from (bare_edge d) = dr_from d" "dr_to (bare_edge d) = dr_to d"
  by (simp_all add: bare_edge_def)

lemma bare_fact_sel [simp]:
  "f_writer (bare_fact f) = f_writer f" "f_dedupe (bare_fact f) = f_dedupe f"
  "f_kind (bare_fact f) = f_kind f" "f_subject (bare_fact f) = f_subject f"
  by (simp_all add: bare_fact_def)

text \<open>What depends only on the kept columns is the same in lists that are equal without the others.\<close>

lemma map_eq_of_bare:
  assumes "map bare xs = map bare ys" and "\<And>r. f (bare r) = f r"
  shows "map f xs = map f ys"
  using arg_cong [OF assms(1), of "map f"] by (simp add: o_def assms(2))

lemma filter_eq_of_bare:
  assumes "map bare xs = map bare ys" and "\<And>r. P (bare r) = P r"
  shows "map bare (filter P xs) = map bare (filter P ys)"
  using arg_cong [OF assms(1), of "filter P"] by (simp add: filter_map o_def assms(2))

lemma list_ex_of_bare:
  assumes "map bare xs = map bare ys" and "\<And>r. P (bare r) = P r"
  shows "list_ex P xs = list_ex P ys"
  using arg_cong [OF assms(1), of "list_ex P"] by (simp add: list_ex_iff assms(2))

lemma alike_er_ids: "alike a b \<Longrightarrow> map er_id (entities a) = map er_id (entities b)"
  by (rule map_eq_of_bare [of bare_entity]) (simp_all add: alike_def)

lemma alike_has: "alike a b \<Longrightarrow> has_entity a e = has_entity b e"
  unfolding has_entity_def by (metis alike_er_ids list.set_map)

lemma alike_edge_ids: "alike a b \<Longrightarrow> dr_id ` set (edges a) = dr_id ` set (edges b)"
  using map_eq_of_bare [of bare_edge "edges a" "edges b" dr_id] unfolding alike_def by (metis bare_edge_sel(1) list.set_map)

section \<open>Mirroring\<close>

definition mirrors :: "(db \<Rightarrow> db res) \<Rightarrow> (db \<Rightarrow> db res) \<Rightarrow> bool" where
  "mirrors f g \<longleftrightarrow> (\<forall>a b. alike a b \<longrightarrow>
     (case f b of Inr b' \<Rightarrow> \<exists>a'. g a = Inr a' \<and> alike a' b'
      | Inl e \<Rightarrow> e = ErrDuplicateFact \<longrightarrow> g a = Inl ErrDuplicateFact))"

lemma mirrorsI:
  assumes "\<And>a b b'. alike a b \<Longrightarrow> f b = Inr b' \<Longrightarrow> \<exists>a'. g a = Inr a' \<and> alike a' b'"
    and "\<And>a b. alike a b \<Longrightarrow> f b = Inl ErrDuplicateFact \<Longrightarrow> g a = Inl ErrDuplicateFact"
  shows "mirrors f g"
  using assms by (auto simp: mirrors_def split: sum.splits)

lemma mirrorsD:
  assumes "mirrors f g" and "alike a b"
  shows "f b = Inr b' \<Longrightarrow> \<exists>a'. g a = Inr a' \<and> alike a' b'"
    and "f b = Inl ErrDuplicateFact \<Longrightarrow> g a = Inl ErrDuplicateFact"
  using assms by (auto simp: mirrors_def split: sum.splits)

lemma mirrors_bind:
  assumes "mirrors f g" and "mirrors f' g'"
  shows "mirrors (\<lambda>d. rbind (f d) f') (\<lambda>d. rbind (g d) g')"
proof (rule mirrorsI)
  fix a b b' assume ab: "alike a b" and r: "rbind (f b) f' = Inr b'"
  from r obtain b1 where b1: "f b = Inr b1" "f' b1 = Inr b'" by (rule rbindE)
  from mirrorsD(1) [OF assms(1) ab b1(1)] obtain a1 where a1: "g a = Inr a1" "alike a1 b1" by blast
  from mirrorsD(1) [OF assms(2) a1(2) b1(2)] a1(1) show "\<exists>a'. rbind (g a) g' = Inr a' \<and> alike a' b'" by simp
next
  fix a b assume ab: "alike a b" and r: "rbind (f b) f' = Inl ErrDuplicateFact"
  show "rbind (g a) g' = Inl ErrDuplicateFact"
  proof (cases "f b")
    case (Inl e)
    with r mirrorsD(2) [OF assms(1) ab] show ?thesis by simp
  next
    case (Inr b1)
    from mirrorsD(1) [OF assms(1) ab Inr] obtain a1 where a1: "g a = Inr a1" "alike a1 b1" by blast
    with r Inr mirrorsD(2) [OF assms(2) a1(2)] show ?thesis by simp
  qed
qed

lemma mirrors_rfold:
  assumes "\<And>x. x \<in> set xs \<Longrightarrow> mirrors (f x) (g x)"
  shows "mirrors (rfold f xs) (rfold g xs)"
  using assms
proof (induction xs)
  case Nil
  then show ?case by (simp add: mirrors_def)
next
  case (Cons x xs)
  then have "mirrors (\<lambda>d. rbind (f x d) (rfold f xs)) (\<lambda>d. rbind (g x d) (rfold g xs))"
    by (intro mirrors_bind) simp_all
  moreover have "rfold h (x # xs) = (\<lambda>d. rbind (h x d) (rfold h xs))" for h :: "_ \<Rightarrow> db \<Rightarrow> db res"
    by (simp add: fun_eq_iff)
  ultimately show ?case by simp
qed

text \<open>Steps that cannot fail, and steps with the same guard.\<close>

lemma mirrors_pure: "(\<And>a b. alike a b \<Longrightarrow> alike (g a) (f b)) \<Longrightarrow> mirrors (\<lambda>d. Inr (f d)) (\<lambda>d. Inr (g d))"
  by (simp add: mirrors_def)

lemma mirrors_pre:
  assumes "\<And>a b. alike a b \<Longrightarrow> alike (g' a) (f' b)" and "mirrors f g"
  shows "mirrors (\<lambda>d. f (f' d)) (\<lambda>d. g (g' d))"
  using assms by (auto simp: mirrors_def)

lemma mirrors_guard:
  assumes "\<And>a b. alike a b \<Longrightarrow> P b \<Longrightarrow> alike (g a) (f b)" and "\<And>a b. alike a b \<Longrightarrow> P b \<Longrightarrow> Q a"
    and "e \<noteq> ErrDuplicateFact"
  shows "mirrors (\<lambda>d. if P d then Inr (f d) else Inl e) (\<lambda>d. if Q d then Inr (g d) else Inl e')"
  using assms by (auto simp: mirrors_def)

text \<open>A cast that only Postgres makes, on a value both sides compute alike.\<close>

lemma mirrors_cast:
  assumes "\<And>x. r = Inr x \<Longrightarrow> mirrors (f x) g" and "r \<noteq> Inl ErrDuplicateFact"
  shows "mirrors (\<lambda>d. rbind r (\<lambda>x. f x d)) g"
proof (cases r)
  case (Inl e)
  with assms(2) show ?thesis by (simp add: mirrors_def)
next
  case (Inr x)
  with assms(1) [OF this] show ?thesis by simp
qed

section \<open>Statements\<close>

text \<open>A statement that changes neither the vectors, the log nor the set of entities keeps \<open>keyed\<close>.\<close>

lemma keyed_cong:
  assumes "embeddings d = embeddings d0" and "facts d = facts d0" and "ids d0 \<subseteq> ids d"
  shows "keyed d0 \<Longrightarrow> keyed d"
  using assms by (auto simp: keyed_def has_entity_ids)

lemma alike_keyed: "alike a b \<Longrightarrow> keyed a \<and> keyed b"
  by (simp add: alike_def)

lemma alike_entities:
  assumes "alike a b" and "map bare_entity xs = map bare_entity ys"
    and "ids a \<subseteq> er_id ` set xs" and "ids b \<subseteq> er_id ` set ys"
  shows "alike (a\<lparr>entities := xs\<rparr>) (b\<lparr>entities := ys\<rparr>)"
proof -
  have "keyed (a\<lparr>entities := xs\<rparr>)" "keyed (b\<lparr>entities := ys\<rparr>)"
    using alike_keyed [OF assms(1)] assms(3,4)
      keyed_cong [of "a\<lparr>entities := xs\<rparr>" a] keyed_cong [of "b\<lparr>entities := ys\<rparr>" b] by (simp_all add: ids_def)
  with assms(1,2) show ?thesis by (simp add: alike_def)
qed

lemma mirrors_insert_entity:
  assumes "bare_entity r = bare_entity r'"
  shows "mirrors (insert_entity r) (insert_entity r')"
proof (rule mirrorsI)
  have sel: "er_id r = er_id r'" "er_vis r = er_vis r'" "er_prov r = er_prov r'"
    using arg_cong [OF assms, of er_id] arg_cong [OF assms, of er_vis] arg_cong [OF assms, of er_prov]
    by (simp_all add: bare_entity_def)
  fix a b b' assume ab: "alike a b" and b': "insert_entity r b = Inr b'"
  then have g: "insert_entity r' a = Inr (a\<lparr>entities := entities a @ [r']\<rparr>)"
    and b'2: "b' = b\<lparr>entities := entities b @ [r]\<rparr>"
    using alike_has [OF ab] sel by (simp_all add: insert_entity_def split: if_splits)
  have "alike (a\<lparr>entities := entities a @ [r']\<rparr>) (b\<lparr>entities := entities b @ [r]\<rparr>)"
    using ab assms by (intro alike_entities) (auto simp: alike_def ids_def)
  with g b'2 show "\<exists>a'. insert_entity r' a = Inr a' \<and> alike a' b'" by simp
qed (simp add: insert_entity_def split: if_splits)

lemma alike_update_entity:
  assumes "alike a b" and "\<And>r r'. bare_entity r = bare_entity r' \<Longrightarrow> bare_entity (f r) = bare_entity (g r')"
    and "\<And>r. er_id (f r) = er_id r" and "\<And>r. er_id (g r) = er_id r"
  shows "alike (update_entity e g a) (update_entity e f b)"
proof -
  have id: "er_id r = er_id r'" if "bare_entity r = bare_entity r'" for r r'
    using arg_cong [OF that, of er_id] by simp
  have "map bare_entity xs = map bare_entity ys \<Longrightarrow>
      map bare_entity (map (\<lambda>r. if er_id r = e then g r else r) xs) =
      map bare_entity (map (\<lambda>r. if er_id r = e then f r else r) ys)" for xs ys
    by (induction xs ys rule: list_induct2') (auto dest: id intro: assms(2) sym [OF assms(2)])
  moreover have "map bare_entity (entities a) = map bare_entity (entities b)" using assms(1) by (simp add: alike_def)
  ultimately have eq: "map bare_entity (map (\<lambda>r. if er_id r = e then g r else r) (entities a)) =
      map bare_entity (map (\<lambda>r. if er_id r = e then f r else r) (entities b))" by blast
  have sub: "er_id ` set xs \<subseteq> er_id ` set (map (\<lambda>r. if er_id r = e then h r else r) xs)"
    if "\<And>r. er_id (h r) = er_id r" for h xs using that by (induction xs) auto
  show ?thesis unfolding update_entity_def
    by (rule alike_entities [OF assms(1) eq, unfolded ids_def, OF sub sub]) (rule assms(4), rule assms(3))
qed

lemma mirrors_insert_ext: "mirrors (insert_ext_or_ignore x) (insert_ext_or_ignore x)"
proof (rule mirrorsI)
  fix a b b' assume ab: "alike a b" and b': "insert_ext_or_ignore x b = Inr b'"
  have k: "keyed (d\<lparr>entity_external_ids := xs\<rparr>) = keyed d" for d xs by (simp add: keyed_def has_entity_def)
  have x: "entity_external_ids a = entity_external_ids b" using ab by (simp add: alike_def)
  have grow: "alike (a\<lparr>entity_external_ids := xs\<rparr>) (b\<lparr>entity_external_ids := xs\<rparr>)" for xs
    using ab by (simp add: alike_def k)
  show "\<exists>a'. insert_ext_or_ignore x a = Inr a' \<and> alike a' b'"
    using b' ab grow unfolding insert_ext_or_ignore_def x alike_has [OF ab] by (auto split: if_splits)
qed (simp add: insert_ext_or_ignore_def split: if_splits)

lemma mirrors_insert_emb:
  "mirrors (pg_insert_emb m v) (insert_emb_or_replace m)"
proof (rule mirrorsI)
  fix a b b' assume ab: "alike a b" and b': "pg_insert_emb m v b = Inr b'"
  let ?K = "\<lambda>n. mr_entity n = mr_entity m \<and> mr_key n = mr_key m"
  let ?pk = "\<lambda>m. (mr_entity m, mr_key m)"
  let ?a' = "a\<lparr>embeddings := filter (\<lambda>n. \<not> ?K n) (embeddings a) @ [m]\<rparr>"
  have keys: "keyed a" "keyed b" using alike_keyed [OF ab] by simp_all
  have emb: "set (embeddings a) = set (embeddings b)" using ab by (simp add: alike_def)
  have "has_entity b (mr_entity m)" and new: "set (embeddings b') = {n \<in> set (embeddings b). \<not> ?K n} \<union> {m}"
    and pk: "distinct (map ?pk (embeddings b'))" and same: "b'\<lparr>embeddings := embeddings b\<rparr> = b"
  proof -
    consider (replaced) n where "n \<in> set (embeddings b)" "?K n"
        "b' = b\<lparr>embeddings := map (\<lambda>n. if ?K n then m else n) (embeddings b)\<rparr>"
      | (added) "\<forall>n \<in> set (embeddings b). \<not> ?K n" "has_entity b (mr_entity m)" "b' = b\<lparr>embeddings := embeddings b @ [m]\<rparr>"
      using b' by (auto simp: pg_insert_emb_def list_ex_iff split: if_splits)
    then have "has_entity b (mr_entity m) \<and> set (embeddings b') = {n \<in> set (embeddings b). \<not> ?K n} \<union> {m} \<and>
        distinct (map ?pk (embeddings b')) \<and> b'\<lparr>embeddings := embeddings b\<rparr> = b"
    proof cases
      case replaced
      have "map ?pk (map (\<lambda>n. if ?K n then m else n) (embeddings b)) = map ?pk (embeddings b)" by simp
      with replaced keys(2) show ?thesis by (auto simp: keyed_def simp del: map_map)
    next
      case added
      with keys(2) show ?thesis by (auto simp: keyed_def)
    qed
    then show "has_entity b (mr_entity m)" "set (embeddings b') = {n \<in> set (embeddings b). \<not> ?K n} \<union> {m}"
      "distinct (map ?pk (embeddings b'))" "b'\<lparr>embeddings := embeddings b\<rparr> = b" by blast+
  qed
  then have h: "has_entity a (mr_entity m)" by (simp add: alike_has [OF ab])
  from same have fields: "entities b' = entities b" "entity_external_ids b' = entity_external_ids b"
    "entity_labels b' = entity_labels b" "edges b' = edges b" "facts b' = facts b"
    by (metis db.select_convs db.surjective db.update_convs(5))+
  have "keyed b'"
    using keys(2) pk new \<open>has_entity b (mr_entity m)\<close> by (auto simp: keyed_def fields has_entity_def)
  moreover have "keyed ?a'"
    using keys(1) h by (auto simp: keyed_def has_entity_def distinct_map inj_on_def)
  moreover have "set (embeddings ?a') = set (embeddings b')" using emb new by auto
  ultimately have "alike ?a' b'" using ab by (simp add: alike_def fields)
  with h show "\<exists>a'. insert_emb_or_replace m a = Inr a' \<and> alike a' b'" by (simp add: insert_emb_or_replace_def)
qed (simp add: pg_insert_emb_def split: if_splits)

lemma alike_fts [simp]:
  "alike (delete_fts e a) b = alike a b" "alike (insert_fts e t a) b = alike a b"
  "alike a (delete_fts e b) = alike a b" "alike a (insert_fts e t b) = alike a b"
  by (simp_all add: alike_def keyed_def has_entity_def delete_fts_def insert_fts_def)

lemma alike_sync: "alike a b \<Longrightarrow> alike (syncEntityFTS e a) (syncEntitySearchText e b)"
  by (simp add: syncEntityFTS_def syncEntitySearchText_def split: option.split)

lemma alike_delete_edge: "alike a b \<Longrightarrow> alike (delete_edge e a) (delete_edge e b)"
  using filter_eq_of_bare [of bare_edge "edges a" "edges b" "\<lambda>d. dr_id d \<noteq> e"]
  by (simp add: alike_def keyed_def has_entity_def delete_edge_def)

lemma keyed_delete_entity: "keyed d \<Longrightarrow> keyed (delete_entity e d)"
  by (auto simp: keyed_def delete_entity_def has_entity_def distinct_map inj_on_def)

lemma alike_delete_entity:
  assumes "alike a b"
  shows "alike (delete_entity e a) (delete_entity e b)"
proof -
  have "map bare_entity (entities a) = map bare_entity (entities b)"
    "map bare_edge (edges a) = map bare_edge (edges b)" using assms by (simp_all add: alike_def)
  from filter_eq_of_bare [OF this(1), of "\<lambda>r. er_id r \<noteq> e"] filter_eq_of_bare [OF this(2), of "\<lambda>d. dr_from d \<noteq> e \<and> dr_to d \<noteq> e"]
  have "map bare_entity (filter (\<lambda>r. er_id r \<noteq> e) (entities a)) = map bare_entity (filter (\<lambda>r. er_id r \<noteq> e) (entities b))"
    "map bare_edge (filter (\<lambda>d. dr_from d \<noteq> e \<and> dr_to d \<noteq> e) (edges a)) =
     map bare_edge (filter (\<lambda>d. dr_from d \<noteq> e \<and> dr_to d \<noteq> e) (edges b))" by simp_all
  with assms keyed_delete_entity [of a e] keyed_delete_entity [of b e] show ?thesis
    by (simp add: alike_def) (simp add: delete_entity_def)
qed

text \<open>The three child tables of a merge.\<close>

lemma keyed_fields:
  "keyed (d\<lparr>entity_external_ids := x\<rparr>) = keyed d" "keyed (d\<lparr>entity_labels := l\<rparr>) = keyed d"
  "keyed (d\<lparr>edges := e\<rparr>) = keyed d"
  by (simp_all add: keyed_def has_entity_def)

lemma mirrors_ext_step:
  assumes "\<And>d. f d = (if P (entity_external_ids d) (has_entity d)
     then Inr (d\<lparr>entity_external_ids := h (entity_external_ids d)\<rparr>) else Inl ErrSQL)"
  shows "mirrors f f"
proof (rule mirrorsI)
  fix a b b' assume ab: "alike a b" and b': "f b = Inr b'"
  have x: "entity_external_ids a = entity_external_ids b" "has_entity a = has_entity b"
    using ab alike_has [OF ab] by (auto simp: alike_def)
  have "alike (a\<lparr>entity_external_ids := y\<rparr>) (b\<lparr>entity_external_ids := y\<rparr>)" for y
    using ab by (simp add: alike_def keyed_fields)
  with b' show "\<exists>a'. f a = Inr a' \<and> alike a' b'" by (auto simp: assms x split: if_splits)
qed (simp add: assms split: if_splits)

lemma mirrors_label_step:
  assumes "\<And>d. f d = (if P (entity_labels d) (has_entity d)
     then Inr (d\<lparr>entity_labels := h (entity_labels d)\<rparr>) else Inl ErrSQL)"
  shows "mirrors f f"
proof (rule mirrorsI)
  fix a b b' assume ab: "alike a b" and b': "f b = Inr b'"
  have x: "entity_labels a = entity_labels b" "has_entity a = has_entity b"
    using ab alike_has [OF ab] by (auto simp: alike_def)
  have "alike (a\<lparr>entity_labels := y\<rparr>) (b\<lparr>entity_labels := y\<rparr>)" for y
    using ab by (simp add: alike_def keyed_fields)
  with b' show "\<exists>a'. f a = Inr a' \<and> alike a' b'" by (auto simp: assms x split: if_splits)
qed (simp add: assms split: if_splits)

lemma mirrors_move_ext: "mirrors
    (\<lambda>d. move_ext k g (d\<lparr>entity_external_ids := del_dups xr_entity xr_key k g (entity_external_ids d)\<rparr>))
    (\<lambda>d. move_ext k g (d\<lparr>entity_external_ids := del_dups xr_entity xr_key k g (entity_external_ids d)\<rparr>))"
  by (rule mirrors_ext_step [where P = "\<lambda>rows has. let kept = del_dups xr_entity xr_key k g rows in
        distinct (map (\<lambda>x. (xr_entity x, xr_key x)) (move_rows xr_entity xr_set k g kept)) \<and>
        \<not> (list_ex (\<lambda>x. xr_entity x = g) kept \<and> \<not> has k)"
      and h = "\<lambda>rows. move_rows xr_entity xr_set k g (del_dups xr_entity xr_key k g rows)"])
     (simp add: move_ext_def Let_def has_entity_def)

lemma mirrors_move_labels: "mirrors
    (\<lambda>d. move_labels k g (d\<lparr>entity_labels := del_dups fst snd k g (entity_labels d)\<rparr>))
    (\<lambda>d. move_labels k g (d\<lparr>entity_labels := del_dups fst snd k g (entity_labels d)\<rparr>))"
  by (rule mirrors_label_step [where P = "\<lambda>rows has. let kept = del_dups fst snd k g rows in
        distinct (map (\<lambda>x. (fst x, snd x)) (move_rows fst lb_set k g kept)) \<and>
        \<not> (list_ex (\<lambda>x. fst x = g) kept \<and> \<not> has k)"
      and h = "\<lambda>rows. move_rows fst lb_set k g (del_dups fst snd k g rows)"])
     (simp add: move_labels_def Let_def has_entity_def)

text \<open>The vectors are compared as a set; both sides are keyed, so the key of the moved rows is checked alike.\<close>

lemma mirrors_move_emb:
  assumes "k \<noteq> g"
  shows "mirrors
    (\<lambda>d. move_emb k g (d\<lparr>embeddings := del_dups mr_entity mr_key k g (embeddings d)\<rparr>))
    (\<lambda>d. move_emb k g (d\<lparr>embeddings := del_dups mr_entity mr_key k g (embeddings d)\<rparr>))" (is "mirrors ?f ?f")
proof (rule mirrorsI)
  fix a b b' assume ab: "alike a b" and b': "?f b = Inr b'"
  let ?kept = "\<lambda>d. del_dups mr_entity mr_key k g (embeddings d)"
  let ?rows = "\<lambda>d. move_rows mr_entity mr_set k g (?kept d)"
  have keys: "keyed a" "keyed b" using alike_keyed [OF ab] by simp_all
  have E: "set (embeddings a) = set (embeddings b)" using ab by (simp add: alike_def)
  then have kept: "set (?kept a) = set (?kept b)" by (auto simp: del_dups_def)
  then have rows: "set (?rows a) = set (?rows b)" by (simp add: move_rows_def)
  have pk: "distinct (map (\<lambda>m. (mr_entity m, mr_key m)) (?rows d))" if "keyed d" for d
    using that assms by (intro mt.moved_pk) (simp_all add: keyed_def)
  have ex: "list_ex (\<lambda>m. mr_entity m = g) (?kept a) = list_ex (\<lambda>m. mr_entity m = g) (?kept b)"
    by (simp add: list_ex_iff kept)
  have g: "?f a = Inr (a\<lparr>embeddings := ?rows a\<rparr>)" and b'2: "b' = b\<lparr>embeddings := ?rows b\<rparr>"
    and has: "list_ex (\<lambda>m. mr_entity m = g) (?kept b) \<longrightarrow> has_entity b k"
    using b' pk [OF keys(1)] pk [OF keys(2)] ex alike_has [OF ab, of k]
    by (auto simp: move_emb_def Let_def has_entity_def split: if_splits)
  have refs: "\<forall>m \<in> set (?rows d). mr_entity m \<in> ids d" if "keyed d" "list_ex (\<lambda>m. mr_entity m = g) (?kept d) \<longrightarrow> k \<in> ids d" for d
    using that by (intro mt.moved_refs) (auto simp: keyed_def has_entity_ids del_dups_def)
  have "keyed (d\<lparr>embeddings := ?rows d\<rparr>)" if "keyed d" "list_ex (\<lambda>m. mr_entity m = g) (?kept d) \<longrightarrow> has_entity d k" for d
    using that pk [OF that(1)] refs [of d] by (simp add: keyed_def has_entity_ids)
  with keys has ex alike_has [OF ab, of k] have "keyed (a\<lparr>embeddings := ?rows a\<rparr>)" "keyed (b\<lparr>embeddings := ?rows b\<rparr>)"
    by blast+
  with ab rows g b'2 show "\<exists>a'. ?f a = Inr a' \<and> alike a' b'" by (simp add: alike_def)
qed (simp add: move_emb_def Let_def split: if_splits)

lemma mirrors_edge_step:
  assumes f: "\<And>d. f d = (if P (list_ex Q (edges d)) (has_entity d) then Inr (d\<lparr>edges := map h (edges d)\<rparr>) else Inl ErrSQL)"
    and "\<And>d. Q (bare_edge d) = Q d" and "\<And>d. bare_edge (h d) = h (bare_edge d)"
  shows "mirrors f f"
proof (rule mirrorsI)
  fix a b b' assume ab: "alike a b" and b': "f b = Inr b'"
  have e: "map bare_edge (edges a) = map bare_edge (edges b)" using ab by (simp add: alike_def)
  have "map (bare_edge \<circ> h) (edges a) = map (bare_edge \<circ> h) (edges b)"
    using arg_cong [OF e, of "map h"] by (simp add: o_def assms(3))
  with ab have "alike (a\<lparr>edges := map h (edges a)\<rparr>) (b\<lparr>edges := map h (edges b)\<rparr>)"
    by (simp add: alike_def keyed_fields)
  moreover have "has_entity a = has_entity b" using alike_has [OF ab] by auto
  ultimately show "\<exists>a'. f a = Inr a' \<and> alike a' b'"
    using b' list_ex_of_bare [OF e, of Q] assms(2) by (auto simp: f split: if_splits)
qed (simp add: f split: if_splits)

lemma mirrors_repoint_from: "mirrors (repoint_from k g) (repoint_from k g)"
  by (rule mirrors_edge_step [where P = "\<lambda>some has. \<not> (some \<and> \<not> has k)" and Q = "\<lambda>d. dr_from d = g"
      and h = "\<lambda>d. if dr_from d = g then d\<lparr>dr_from := k\<rparr> else d"])
     (simp_all add: repoint_from_def bare_edge_def)

lemma mirrors_repoint_to: "mirrors (repoint_to k g) (repoint_to k g)"
  by (rule mirrors_edge_step [where P = "\<lambda>some has. \<not> (some \<and> \<not> has k)" and Q = "\<lambda>d. dr_to d = g"
      and h = "\<lambda>d. if dr_to d = g then d\<lparr>dr_to := k\<rparr> else d"])
     (simp_all add: repoint_to_def bare_edge_def)

lemma mirrors_insert_edge:
  assumes "bare_edge d = bare_edge d'"
  shows "mirrors (\<lambda>b. if dr_id d \<in> dr_id ` set (edges b) then Inl ErrSQL else pg_insert_edge d b) (insert_edge_or_replace d')"
proof (rule mirrorsI)
  have sel: "dr_id d = dr_id d'" "dr_vis d = dr_vis d'" "dr_prov d = dr_prov d'" "dr_from d = dr_from d'" "dr_to d = dr_to d'"
    using arg_cong [OF assms, of dr_id] arg_cong [OF assms, of dr_vis] arg_cong [OF assms, of dr_prov]
      arg_cong [OF assms, of dr_from] arg_cong [OF assms, of dr_to]
    by (simp_all add: bare_edge_def)
  fix a b b' assume ab: "alike a b"
    and b': "(if dr_id d \<in> dr_id ` set (edges b) then Inl ErrSQL else pg_insert_edge d b) = Inr b'"
  then have fresh: "dr_id d' \<notin> dr_id ` set (edges a)" and pg: "pg_insert_edge d b = Inr b'" "dr_id d \<notin> dr_id ` set (edges b)"
    using alike_edge_ids [OF ab] sel by (simp_all split: if_splits)
  from fresh have "filter (\<lambda>r. dr_id r \<noteq> dr_id d') (edges a) = edges a" by (intro filter_True) (metis image_eqI)
  then have "insert_edge_or_replace d' a = Inr (a\<lparr>edges := edges a @ [d']\<rparr>)" "b' = b\<lparr>edges := edges b @ [d]\<rparr>"
    using pg sel alike_has [OF ab] by (simp_all add: insert_edge_or_replace_def pg_insert_edge_def split: if_splits)
  moreover have "alike (a\<lparr>edges := edges a @ [d']\<rparr>) (b\<lparr>edges := edges b @ [d]\<rparr>)"
    using ab assms by (simp add: alike_def keyed_fields)
  ultimately show "\<exists>a'. insert_edge_or_replace d' a = Inr a' \<and> alike a' b'" by blast
qed (simp add: pg_insert_edge_def split: if_splits)

lemma jsonb_props_errors: "jsonb_props pg p \<noteq> Inl ErrDuplicateFact"
  by (simp add: jsonb_props_def to_jsonb_def split: rawmsg.split)

lemma pg_payload_errors: "pg_payload pg pl \<noteq> Inl ErrDuplicateFact"
  using jsonb_props_errors by (auto simp: pg_payload_def rbind_def split: payload.split sum.splits)

lemma mirrors_insertFact:
  "mirrors (pg_insertFact pg env k kind sub w dk pl ac ts) (insertFact (env_newID env k) kind sub w dk pl ac ts)"
  unfolding pg_insertFact_def
proof (rule mirrors_cast [OF _ pg_payload_errors])
  fix pl'
  let ?f = "\<lambda>n p. \<lparr>f_seq = n, f_id = env_newID env k, f_kind = kind, f_subject = sub, f_writer = w,
    f_dedupe = dk, f_payload = p, f_actor = ac, f_created_at = fmtTS ts\<rparr>"
  let ?taken = "\<lambda>d. list_ex (\<lambda>f. f_writer f = w \<and> f_dedupe f = dk) (facts d)"
  let ?pg = "\<lambda>d. if \<not> FactKind_Valid kind then Inl ErrSQL else if ?taken d then Inl ErrDuplicateFact
    else Inr (d\<lparr>facts := facts d @ [?f (PG_nextval pg (facts d) k) pl']\<rparr>)"
  have taken: "?taken a = ?taken b" if "alike a b" for a b
    using that by (intro list_ex_of_bare [of bare_fact]) (simp_all add: alike_def)
  show "mirrors ?pg (insertFact (env_newID env k) kind sub w dk pl ac ts)"
  proof (rule mirrorsI)
    fix a b b' assume ab: "alike a b" and b': "?pg b = Inr b'"
    then have free: "FactKind_Valid kind" "\<not> ?taken b" and b'2: "b' = b\<lparr>facts := facts b @ [?f (PG_nextval pg (facts b) k) pl']\<rparr>"
      by (simp_all split: if_splits)
    have keyed: "keyed (d\<lparr>facts := facts d @ [?f n p]\<rparr>)" if "keyed d" "\<not> ?taken d" for d n p
      using that by (auto simp: keyed_def has_entity_def list_ex_iff)
    have "alike (a\<lparr>facts := facts a @ [?f (next_seq (facts a)) pl]\<rparr>) b'"
      using ab keyed [of a] keyed [of b] free taken [OF ab] by (simp add: b'2 alike_def bare_fact_def)
    with free taken [OF ab] show "\<exists>a'. insertFact (env_newID env k) kind sub w dk pl ac ts a = Inr a' \<and> alike a' b'"
      by (simp add: insertFact_def)
  next
    fix a b assume ab: "alike a b" and "?pg b = Inl ErrDuplicateFact"
    with taken [OF ab] show "insertFact (env_newID env k) kind sub w dk pl ac ts a = Inl ErrDuplicateFact"
      by (simp add: insertFact_def split: if_splits)
  qed
qed

lemma mirrors_res:
  assumes "\<And>x. mirrors (f x) (g x)"
  shows "mirrors (\<lambda>d. rbind r (\<lambda>x. f x d)) (\<lambda>d. rbind r (\<lambda>x. g x d))"
  using assms by (cases r) (simp_all add: mirrors_def)

lemma mirrors_appendEntityFact:
  "mirrors (pg_appendEntityFact pg env k e w dk ac ts) (appendEntityFact (env_newID env k) e w dk ac ts)"
  unfolding pg_appendEntityFact_def appendEntityFact_def by (intro mirrors_res mirrors_insertFact)

lemma mirrors_appendMergeFact:
  "mirrors (pg_appendMergeFact pg env k keep gone w dk ac ts) (appendMergeFact (env_newID env k) keep gone w dk ac ts)"
  unfolding pg_appendMergeFact_def appendMergeFact_def by (rule mirrors_insertFact)

section \<open>Transactions\<close>

lemma pg_normalizeProvenance_eq: "pg_normalizeProvenance = normalizeProvenance"
  by (intro ext) (simp add: pg_normalizeProvenance_def normalizeProvenance_def)

lemma mirrors_if:
  assumes "\<And>a b. alike a b \<Longrightarrow> Q a = P b" and "mirrors f g" and "mirrors f' g'"
  shows "mirrors (\<lambda>d. if P d then f d else f' d) (\<lambda>d. if Q d then g d else g' d)"
  using assms by (auto simp: mirrors_def)

lemma to_jsonb_errors: "to_jsonb pg p \<noteq> Inl ErrDuplicateFact"
  by (simp add: to_jsonb_def split: rawmsg.split)

lemma to_jsonb_doc: "to_jsonb pg p = Inr j \<Longrightarrow> \<exists>j0. p = RawDoc j0"
  by (auto simp: to_jsonb_def split: rawmsg.splits)

lemma mirrors_upsert_row: "mirrors (pg_upsert_row pg e ts) (upsert_row e ts)"
  unfolding pg_upsert_row_def Let_def pg_normalizeProvenance_eq
proof (rule mirrors_cast [OF _ to_jsonb_errors])
  fix j assume j: "to_jsonb pg (if raw_len0 (E_Props e) then RawDoc (JObj []) else E_Props e) = Inr j"
  let ?row = "\<lambda>x. entity_to_row e x (normalizeProvenance (E_Provenance e) ts) (fmtTS ts)"
  let ?pg = "\<lambda>d. if \<not> has_entity d (E_ID e) then insert_entity (?row j) d
    else Inr (update_entity (E_ID e) (\<lambda>r. r\<lparr>er_props := jsonb_concat j (er_props r), er_updated_at := fmtTS ts\<rparr>) d)"
  have ins: "mirrors (insert_entity (?row j)) (insert_entity (?row x))" for x
    by (rule mirrors_insert_entity) (simp add: entity_to_row_def bare_entity_def)
  have upd: "mirrors (\<lambda>d. Inr (update_entity (E_ID e) (\<lambda>r. r\<lparr>er_props := jsonb_concat j (er_props r), er_updated_at := fmtTS ts\<rparr>) d))
      (\<lambda>d. Inr (update_entity (E_ID e) (\<lambda>r. r\<lparr>er_props := h (er_props r), er_updated_at := fmtTS ts\<rparr>) d))" for h
    by (rule mirrors_pure, rule alike_update_entity) (simp_all add: bare_touch)
  have both: "mirrors ?pg (\<lambda>d. if \<not> has_entity d (E_ID e) then insert_entity (?row x) d
      else Inr (update_entity (E_ID e) (\<lambda>r. r\<lparr>er_props := h (er_props r), er_updated_at := fmtTS ts\<rparr>) d))" for x h
    by (intro mirrors_if ins upd) (simp add: alike_has)
  show "mirrors ?pg (upsert_row e ts)"
  proof (cases "raw_len0 (E_Props e)")
    case True
    then have "upsert_row e ts = (\<lambda>d. if \<not> has_entity d (E_ID e) then insert_entity (?row (JObj [])) d
        else Inr (update_entity (E_ID e) (\<lambda>r. r\<lparr>er_props := id (er_props r), er_updated_at := fmtTS ts\<rparr>) d))"
      by (simp add: fun_eq_iff upsert_row_def props_col_def)
    with both [of "JObj []" id] show ?thesis by simp
  next
    case False
    with to_jsonb_doc [OF j] obtain j0 where "E_Props e = RawDoc j0" by auto
    with False have "upsert_row e ts = (\<lambda>d. if \<not> has_entity d (E_ID e) then insert_entity (?row j0) d
        else Inr (update_entity (E_ID e) (\<lambda>r. r\<lparr>er_props := json_patch j0 (er_props r), er_updated_at := fmtTS ts\<rparr>) d))"
      by (simp add: fun_eq_iff upsert_row_def props_col_def)
    with both [of j0 "json_patch j0"] show ?thesis by simp
  qed
qed

lemma mirrors_upsertEntitySnapshot: "mirrors (pg_upsertEntitySnapshot pg e ts) (upsertEntitySnapshot e ts)"
  unfolding pg_upsertEntitySnapshot_def upsertEntitySnapshot_def
  by (intro mirrors_bind mirrors_upsert_row mirrors_rfold mirrors_insert_ext mirrors_insert_emb mirrors_pure alike_sync)

text \<open>The merge is the same list of statements in both adapters.\<close>

lemma mirrors_mergeEntitiesTx: "mirrors (pg_mergeEntitiesTx keep gone ts) (mergeEntitiesTx keep gone ts)"
proof (cases "keep = gone")
  case True
  then show ?thesis by (simp add: pg_mergeEntitiesTx_def mergeEntitiesTx_def mirrors_def)
next
  case False
  have touch: "alike (update_entity keep (\<lambda>r. r\<lparr>er_updated_at := fmtTS ts\<rparr>) (delete_fts gone (delete_entity gone a)))
      (update_entity keep (\<lambda>r. r\<lparr>er_updated_at := fmtTS ts\<rparr>) (delete_fts gone (delete_entity gone b)))" if "alike a b" for a b
    by (rule alike_update_entity) (simp_all add: alike_delete_entity [OF that] bare_touch)
  from False show ?thesis
    unfolding pg_mergeEntitiesTx_def mergeEntitiesTx_def Let_def pg_delete_entity_def if_not_P [OF False]
    by (intro mirrors_bind mirrors_move_ext mirrors_move_labels mirrors_move_emb mirrors_repoint_from
        mirrors_repoint_to mirrors_pure touch)
qed

section \<open>Operations\<close>

text \<open>The same for steps that also answer.\<close>

definition mirrors_val :: "(db \<Rightarrow> (db \<times> 'v) res) \<Rightarrow> (db \<Rightarrow> (db \<times> 'v) res) \<Rightarrow> bool" where
  "mirrors_val f g \<longleftrightarrow> (\<forall>a b. alike a b \<longrightarrow>
     (case f b of Inr (b', v) \<Rightarrow> \<exists>a'. g a = Inr (a', v) \<and> alike a' b'
      | Inl e \<Rightarrow> e = ErrDuplicateFact \<longrightarrow> g a = Inl ErrDuplicateFact))"

lemma mirrors_valD:
  assumes "mirrors_val f g" and "alike a b"
  shows "f b = Inr (b', v) \<Longrightarrow> \<exists>a'. g a = Inr (a', v) \<and> alike a' b'"
    and "f b = Inl ErrDuplicateFact \<Longrightarrow> g a = Inl ErrDuplicateFact"
  using assms by (auto simp: mirrors_val_def split: sum.splits)

lemma mirrors_val_bind:
  assumes "mirrors f g" and "mirrors_val f' g'"
  shows "mirrors_val (\<lambda>d. rbind (f d) f') (\<lambda>d. rbind (g d) g')"
  unfolding mirrors_val_def
proof (intro allI impI)
  fix a b assume ab: "alike a b"
  show "case rbind (f b) f' of Inr (b', v) \<Rightarrow> \<exists>a'. rbind (g a) g' = Inr (a', v) \<and> alike a' b'
      | Inl e \<Rightarrow> e = ErrDuplicateFact \<longrightarrow> rbind (g a) g' = Inl ErrDuplicateFact"
  proof (cases "f b")
    case (Inl e)
    with mirrorsD(2) [OF assms(1) ab] show ?thesis by auto
  next
    case (Inr b1)
    from mirrorsD(1) [OF assms(1) ab Inr] obtain a1 where "g a = Inr a1" "alike a1 b1" by blast
    with assms(2) [unfolded mirrors_val_def, rule_format, OF this(2)] Inr show ?thesis
      by (simp split: sum.splits prod.splits)
  qed
qed

lemma mirrors_val_ret: "mirrors_val (\<lambda>d. Inr (d, v)) (\<lambda>d. Inr (d, v))"
  by (simp add: mirrors_val_def)

lemma mirrors_attach_to: "mirrors_val (pg_attach_to pg env k dk ts inp c t) (attach_to env k dk ts inp c t)"
  unfolding pg_attach_to_def attach_to_def Let_def
  by (intro mirrors_val_bind mirrors_upsertEntitySnapshot mirrors_appendEntityFact mirrors_val_ret)

lemma mirrors_insert_new:
  assumes "Action d \<noteq> ActionInsertFlagged"
  shows "mirrors_val (pg_insert_new pg env k dk ts inp c d) (insert_new env k dk ts inp c d)"
  unfolding pg_insert_new_def insert_new_def Let_def
  using assms by (simp, intro mirrors_val_bind mirrors_upsertEntitySnapshot mirrors_appendEntityFact mirrors_val_ret)

lemma mirrors_merge_one: "mirrors (pg_merge_one pg env k dk ts inp keep p) (merge_one env k dk ts inp keep p)"
  unfolding pg_merge_one_def merge_one_def
  by (intro mirrors_bind mirrors_mergeEntitiesTx mirrors_appendMergeFact)

lemma mirrors_apply:
  assumes "Action d \<noteq> ActionInsertFlagged"
  shows "mirrors_val (pg_apply pg env k dk ts inp c d) (apply_decision env k dk ts inp c d)"
proof -
  have "mirrors_val
      (\<lambda>b. rbind (rfold (pg_merge_one pg env k dk ts inp (Target d)) (enumerate 0 (drop 1 (MergeTargets d))) b)
        (pg_attach_to pg env (k + length (drop 1 (MergeTargets d))) dk ts inp c (Target d)))
      (\<lambda>a. rbind (rfold (merge_one env k dk ts inp (Target d)) (enumerate 0 (drop 1 (MergeTargets d))) a)
        (attach_to env (k + length (drop 1 (MergeTargets d))) dk ts inp c (Target d)))"
    by (intro mirrors_val_bind mirrors_rfold mirrors_merge_one mirrors_attach_to)
  then have m: "mirrors_val (pg_apply pg env k dk ts inp c d) (apply_decision env k dk ts inp c d)" if "Action d = ActionMerge"
    using that by (simp add: pg_apply_def [abs_def] apply_decision_def [abs_def] merge_all_def [abs_def])
  show ?thesis
    by (cases "Action d")
       (use assms m mirrors_insert_new [OF assms] mirrors_attach_to in
         \<open>simp_all add: pg_apply_def [abs_def] apply_decision_def [abs_def]\<close>)
qed

text \<open>The reads that decide a write depend on the kept columns only.\<close>

lemma find_sort_unique:
  assumes "distinct (map key xs)" and "\<And>x. P x \<Longrightarrow> key x = c"
  shows "find P (sort_key s xs) = find P xs"
proof -
  show ?thesis
  proof (cases "find P xs")
    case None
    then have "find P (sort_key s xs) = None" by (simp add: find_None_iff)
    with None show ?thesis by simp
  next
    case (Some y)
    then have y: "y \<in> set xs" "P y" by (auto simp: find_Some_iff)
    have "find P (sort_key s xs) = Some y"
    proof (rule find_unique)
      fix z assume z: "z \<in> set (sort_key s xs)" "P z"
      from assms(2) [OF z(2)] assms(2) [OF y(2)] have "key z = key y" by simp
      with distinct_map_inj_on [OF assms(1), of z y] z y show "z = y" by simp
    qed (use y in simp_all)
    with Some show ?thesis by simp
  qed
qed

lemma find_of_bare:
  assumes "map bare xs = map bare ys" and "\<And>r. P (bare r) = P r" and "\<And>r. f (bare r) = f r"
  shows "map_option f (find P xs) = map_option f (find P ys)"
proof -
  have "map_option f (find P zs) = map_option f (find P (map bare zs))" for zs
    by (induction zs) (simp_all add: assms(2,3))
  with assms(1) show ?thesis by metis
qed

lemma prior_alike:
  assumes "alike a b"
  shows "pg_prior kind w dk b = prior_subject kind w dk a"
proof -
  let ?P = "\<lambda>f. f_writer f = w \<and> f_dedupe f = dk \<and> f_kind f = kind"
  have "distinct (map (\<lambda>f. (f_writer f, f_dedupe f)) (facts b))" using alike_keyed [OF assms] by (simp add: keyed_def)
  then have "find ?P (sort_key f_seq (facts b)) = find ?P (facts b)"
    by (rule find_sort_unique [where c = "(w, dk)"]) simp
  moreover have "map_option f_subject (find ?P (facts b)) = map_option f_subject (find ?P (facts a))"
    using assms by (intro find_of_bare [of bare_fact]) (simp_all add: alike_def)
  ultimately show ?thesis by (simp add: pg_prior_def prior_subject_def)
qed

lemma map_snd_sort: "map h (sort_key (\<lambda>x. (k x, h x)) xs) = map snd (sort (map (\<lambda>x. (k x, h x)) xs))"
proof -
  let ?f = "\<lambda>x. (k x, h x)"
  have "mset (map ?f (sort_key ?f xs)) = mset (map ?f xs)" unfolding mset_map mset_sort ..
  then have "sort (map ?f xs) = map ?f (sort_key ?f xs)"
    by (rule properties_for_sort) (rule sorted_sort_key)
  then show ?thesis by simp
qed

lemma hits_alike:
  assumes "alike a b"
  shows "externalHitsTx space keys a = externalHitsTx space keys b"
proof -
  have x: "entity_external_ids a = entity_external_ids b" using assms by (simp add: alike_def)
  let ?P = "\<lambda>e. list_ex (\<lambda>x. xr_entity x = er_id e \<and> xr_space x = space \<and> List.member keys (xr_key x)) (entity_external_ids b)"
  have "map bare_entity (filter ?P (entities a)) = map bare_entity (filter ?P (entities b))"
    using assms by (intro filter_eq_of_bare) (simp_all add: alike_def)
  from map_eq_of_bare [OF this, of "\<lambda>e. (er_created_at e, er_id e)"] show ?thesis
    unfolding externalHitsTx_def x map_snd_sort by simp
qed

lemma entity_alike:
  assumes "alike a b" and "getEntityByID b e = Inr v"
  shows "E_ID v = e" and "\<exists>u. getEntityByID a e = Inr u \<and> E_ID u = e"
proof -
  from assms(2) obtain r where r: "r \<in> set (entities b)" "er_id r = e" "v = load_row b r"
    by (rule getEntityByID_Inr)
  then show "E_ID v = e" by simp
  from r have "has_entity a e" using alike_has [OF assms(1), of e] by (auto simp: has_entity_def)
  then have "e \<in> ids a" by (simp add: has_entity_ids)
  then obtain q where "er_id q = e" "getEntityByID a e = Inr (load_row a q)" by (rule getEntityByID_total)
  then show "\<exists>u. getEntityByID a e = Inr u \<and> E_ID u = e" by simp
qed

text \<open>The resolver asks for no vector neighbours.\<close>

definition quiet :: "append_entity_input \<Rightarrow> db \<Rightarrow> bool" where
  "quiet inp db \<longleftrightarrow> effective_policy (AE_Policy inp) \<noteq> ResolveAuto \<or> E_Embeddings (AE_Candidate inp) = [] \<or>
     externalHitsTx (E_Space (AE_Candidate inp)) (ExternalKeys (AE_Candidate inp)) db \<noteq> []"

lemma Resolve_quiet:
  assumes "Resolve c \<lparr>ExternalIDHits = hits, VectorNeighbors = []\<rparr> p th = Inr d"
  shows "Action d \<noteq> ActionInsertFlagged"
  using assms by (auto simp: Resolve_def Let_def decision0_def maxScore_def split: if_splits)

lemma append_resolved_mirrored:
  assumes "alike a b" and "quiet inp b" and "p = effective_policy (AE_Policy inp)"
    and c: "c = (AE_Candidate inp)\<lparr>E_Provenance := q\<rparr>"
    and plan: "pg_plan pg env inp p dk c b = Inr (Inr d)"
  shows "pg_execute pg env k dk ts inp c d b = Inr (b', s) \<Longrightarrow>
      \<exists>a' r. append_resolved env k dk ts inp p c a = Inr (a', r) \<and> alike a' b' \<and>
        E_ID (RR_Entity r) = E_ID (RR_Entity s) \<and> RR_Action r = RR_Action s \<and> RR_MergedFrom r = RR_MergedFrom s"
    and "pg_execute pg env k dk ts inp c d b = Inl ErrDuplicateFact \<Longrightarrow>
      append_resolved env k dk ts inp p c a = Inl ErrDuplicateFact"
proof -
  let ?hits = "externalHitsTx (E_Space c) (ExternalKeys c) b"
  have ask: "p = ResolveAuto \<and> ?hits = [] \<Longrightarrow> E_Embeddings c = []"
    using assms(2,3) by (auto simp: quiet_def c ExternalKeys_def)
  have R: "Resolve c \<lparr>ExternalIDHits = ?hits, VectorNeighbors = []\<rparr> p (env_th env) = Inr d"
    using plan ask by (auto simp: pg_plan_def Let_def pg_externalHitsTx_eq elim!: rbindE split: option.splits if_splits)
  have sq: "append_resolved env k dk ts inp p c a = rbind (apply_decision env k dk ts inp c d a) (\<lambda>p.
      rbind (getEntityByID (fst p) (snd p)) (\<lambda>ent. Inr (fst p, \<lparr>RR_Entity = ent, RR_Action = Some (Action d),
        RR_MatchKind = Some (MatchKind d), RR_MergedFrom = drop 1 (MergeTargets d)\<rparr>)))"
    using R ask by (auto simp: append_resolved_def Let_def hits_alike [OF assms(1)] resolveNeighbors_def)
  note M = mirrors_valD [OF mirrors_apply [OF Resolve_quiet [OF R]] assms(1), of pg env k dk ts inp c]
  {
    assume "pg_execute pg env k dk ts inp c d b = Inr (b', s)"
    then obtain i v where b': "pg_apply pg env k dk ts inp c d b = Inr (b', i)" and v: "getEntityByID b' i = Inr v"
      and s: "s = \<lparr>RR_Entity = v, RR_Action = Some (Action d), RR_MatchKind = Some (MatchKind d), RR_MergedFrom = drop 1 (MergeTargets d)\<rparr>"
      by (auto simp: pg_execute_def pg_getEntityByID_eq elim!: rbindE)
    from M(1) [OF b'] obtain a' where a': "apply_decision env k dk ts inp c d a = Inr (a', i)" "alike a' b'" by blast
    from entity_alike [OF a'(2) v] obtain u where "E_ID v = i" "getEntityByID a' i = Inr u" "E_ID u = i" by blast
    with a' s show "\<exists>a' r. append_resolved env k dk ts inp p c a = Inr (a', r) \<and> alike a' b' \<and>
        E_ID (RR_Entity r) = E_ID (RR_Entity s) \<and> RR_Action r = RR_Action s \<and> RR_MergedFrom r = RR_MergedFrom s"
      by (simp add: sq)
  next
    assume x: "pg_execute pg env k dk ts inp c d b = Inl ErrDuplicateFact"
    have "pg_apply pg env k dk ts inp c d b = Inl ErrDuplicateFact"
      using x by (auto simp: pg_execute_def pg_getEntityByID_def rbind_def split: sum.splits option.splits)
    from M(2) [OF this] show "append_resolved env k dk ts inp p c a = Inl ErrDuplicateFact" by (simp add: sq)
  }
qed

text \<open>One entity write. Its duplicates are reported by both.\<close>

lemma append_entity_mirrored:
  assumes ab: "alike a b" and "quiet inp b"
    and out: "pg_AppendEntityFact pg env inp b = (b', s, e)" and e: "e = None \<or> e = Some ErrDuplicateFact"
  shows "\<exists>a' r. AppendEntityFact env inp a = (a', r, e) \<and> alike a' b' \<and>
    E_ID (RR_Entity r) = E_ID (RR_Entity s) \<and> RR_Action r = RR_Action s \<and> RR_MergedFrom r = RR_MergedFrom s"
proof -
  let ?c = "(AE_Candidate inp)\<lparr>E_Provenance := normalizeProvenance (E_Provenance (AE_Candidate inp)) (env_now env 0)\<rparr>"
  let ?p = "effective_policy (AE_Policy inp)" and ?dk = "fst (entity_dedupe_key env inp)" and ?k = "snd (entity_dedupe_key env inp)"
  let ?ts = "env_now env 1"
  have valid: "KnownType (E_Type (AE_Candidate inp))" "Visibility_Valid (E_Visibility (AE_Candidate inp))" "Policy_Valid ?p"
    using out e by (auto simp: pg_AppendEntityFact_def pg_append_from_def effective_policy_def Let_def split: if_splits)
  have dk: "pg_dedupe_key env inp ?c = entity_dedupe_key env inp"
    by (simp add: pg_dedupe_key_def entity_dedupe_key_def Let_def)
  have pg: "pg_AppendEntityFact pg env inp b = (case pg_plan pg env inp ?p ?dk ?c b of
           Inl e \<Rightarrow> (b, result0, Some e)
         | Inr (Inl ent) \<Rightarrow> (b, \<lparr>RR_Entity = ent, RR_Action = Some ActionAttach, RR_MatchKind = Some MatchNone,
             RR_MergedFrom = []\<rparr>, Some ErrDuplicateFact)
         | Inr (Inr d) \<Rightarrow> (case pg_execute pg env ?k ?dk ?ts inp ?c d b of
                Inl e \<Rightarrow> (b, result0, Some e) | Inr (db', r) \<Rightarrow> (db', r, None)))"
    unfolding pg_AppendEntityFact_def pg_append_from_def Let_def pg_normalizeProvenance_eq dk effective_policy_def [symmetric]
    using valid by simp
  have sq: "AppendEntityFact env inp a = (case prior_subject FactEntityAsserted (AE_Writer inp) ?dk a of
           Some subject \<Rightarrow> (case getEntityByID a subject of
                Inl e \<Rightarrow> (a, result0, Some e)
              | Inr ent \<Rightarrow> (a, \<lparr>RR_Entity = ent, RR_Action = Some ActionAttach,
                  RR_MatchKind = Some MatchNone, RR_MergedFrom = []\<rparr>, Some ErrDuplicateFact))
         | None \<Rightarrow> (case append_resolved env ?k ?dk ?ts inp ?p ?c a of
                Inl e \<Rightarrow> (a, result0, Some e) | Inr (db', r) \<Rightarrow> (db', r, None)))"
    unfolding AppendEntityFact_def Let_def using valid by simp
  show ?thesis
  proof (cases "prior_subject FactEntityAsserted (AE_Writer inp) ?dk a")
    case (Some i)
    then have plan: "pg_plan pg env inp ?p ?dk ?c b = rbind (getEntityByID b i) (\<lambda>ent. Inr (Inl ent))"
      by (simp add: pg_plan_def prior_alike [OF ab] pg_getEntityByID_eq)
    show ?thesis
    proof (cases "getEntityByID b i")
      case (Inl x)
      then have "x = ErrNotFound" by (simp add: getEntityByID_def split: option.splits)
      with Inl plan pg out e show ?thesis by simp
    next
      case (Inr v)
      from entity_alike [OF ab Inr] Some Inr plan pg out sq show ?thesis using ab by auto
    qed
  next
    case None
    show ?thesis
    proof (cases "pg_plan pg env inp ?p ?dk ?c b")
      case (Inl x)
      have "x \<noteq> ErrDuplicateFact"
        using Inl None assms(2) by (auto simp: pg_plan_def Let_def prior_alike [OF ab] Resolve_def quiet_def ExternalKeys_def
            pg_externalHitsTx_eq rbind_def split: if_splits sum.splits option.splits)
      with Inl pg out e show ?thesis by simp
    next
      case (Inr x)
      then obtain d where d: "pg_plan pg env inp ?p ?dk ?c b = Inr (Inr d)"
        using None by (cases x) (auto simp: pg_plan_def prior_alike [OF ab] Let_def elim!: rbindE)
      note M = append_resolved_mirrored [OF ab assms(2) refl refl d, of ?k ?ts]
      show ?thesis
      proof (cases "pg_execute pg env ?k ?dk ?ts inp ?c d b")
        case (Inl x)
        with d pg out e have "x = ErrDuplicateFact" "b' = b" "s = result0" "e = Some ErrDuplicateFact" by auto
        with M(2) Inl ab None show ?thesis by (simp add: sq)
      next
        case (Inr y)
        with d pg out have y: "y = (b', s)" "e = None" by (auto split: prod.splits)
        with M(1) Inr None show ?thesis by (auto simp: sq)
      qed
    qed
  qed
qed

lemma mirrors_upsertEdgeSnapshot:
  "mirrors (\<lambda>b. if D_ID d \<in> dr_id ` set (edges b) then Inl ErrSQL else pg_upsertEdgeSnapshot pg d ts b) (upsertEdgeSnapshot d ts)"
proof -
  let ?row = "\<lambda>j. edge_to_row d j (normalizeProvenance (D_Provenance d) ts) (fmtTS ts)"
  have row: "mirrors (\<lambda>b. if D_ID d \<in> dr_id ` set (edges b) then Inl ErrSQL else pg_insert_edge (?row j) b)
      (insert_edge_or_replace (?row j'))" for j j'
    using mirrors_insert_edge [of "?row j" "?row j'"] by (simp add: edge_to_row_def bare_edge_def)
  show ?thesis
  proof (cases "raw_len0 (D_Props d)")
    case True
    then have "pg_upsertEdgeSnapshot pg d ts = pg_insert_edge (?row None)"
      "upsertEdgeSnapshot d ts = insert_edge_or_replace (?row None)"
      by (simp_all add: fun_eq_iff pg_upsertEdgeSnapshot_def upsertEdgeSnapshot_def opt_props_col_def pg_normalizeProvenance_eq)
    with row [of None None] show ?thesis by metis
  next
    case False
    show ?thesis
    proof (cases "to_jsonb pg (D_Props d)")
      case (Inl e)
      with False to_jsonb_errors [of pg "D_Props d"] show ?thesis
        by (auto simp: pg_upsertEdgeSnapshot_def mirrors_def)
    next
      case (Inr j)
      then obtain j0 where "D_Props d = RawDoc j0" using to_jsonb_doc by blast
      with False Inr have "pg_upsertEdgeSnapshot pg d ts = pg_insert_edge (?row (Some j))"
        "upsertEdgeSnapshot d ts = insert_edge_or_replace (?row (Some j0))"
        by (simp_all add: fun_eq_iff pg_upsertEdgeSnapshot_def upsertEdgeSnapshot_def opt_props_col_def
            props_col_def pg_normalizeProvenance_eq)
      with row [of "Some j" "Some j0"] show ?thesis by metis
    qed
  qed
qed

lemma upsertEdge_errors: "pg_upsertEdgeSnapshot pg d ts b \<noteq> Inl ErrDuplicateFact"
  using to_jsonb_errors [of pg "D_Props d"]
  by (auto simp: pg_upsertEdgeSnapshot_def pg_insert_edge_def rbind_def split: if_splits sum.splits)

lemma marshal_edge_errors: "marshal_edge d \<noteq> Inl ErrDuplicateFact"
  by (simp add: marshal_edge_def wire_props_def split: rawmsg.split)

lemma edge_alike:
  assumes "alike a b" and "getEdgeByID b e = Inr v"
  shows "D_ID v = e" and "\<exists>u. getEdgeByID a e = Inr u \<and> D_ID u = e"
proof -
  from assms(2) obtain r where r: "r \<in> set (edges b)" "dr_id r = e" "v = scanEdge r"
    by (auto simp: getEdgeByID_def split: option.splits dest: lookup_row_SomeD)
  then show "D_ID v = e" by (simp add: scanEdge_def)
  from r have "e \<in> dr_id ` set (edges a)" using alike_edge_ids [OF assms(1)] by auto
  then obtain q where "lookup_row dr_id e (edges a) = Some q"
    using lookup_row_None_iff [of dr_id e "edges a"] by (cases "lookup_row dr_id e (edges a)") auto
  then show "\<exists>u. getEdgeByID a e = Inr u \<and> D_ID u = e"
    by (auto simp: getEdgeByID_def scanEdge_def dest: lookup_row_SomeD)
qed

lemma edge_dedupe_key_normal:
  "edge_dedupe_key inp = (if AD_DedupeKey inp = [] then DefaultEdgeDedupeKey ((AD_Edge inp)\<lparr>D_Provenance := p\<rparr>) else AD_DedupeKey inp)"
  by (simp add: edge_dedupe_key_def DefaultEdgeDedupeKey_def)

lemma append_edge_mirrored:
  assumes ab: "alike a b" and fresh: "env_newID env 0 \<notin> dr_id ` set (edges b)"
    and out: "pg_AppendEdgeFact pg env inp b = (b', s, e)" and e: "e = None \<or> e = Some ErrDuplicateFact"
  shows "\<exists>a' r. AppendEdgeFact env inp a = (a', r, e) \<and> alike a' b' \<and> D_ID r = D_ID s"
proof -
  let ?ed1 = "(AD_Edge inp)\<lparr>D_Provenance := normalizeProvenance (D_Provenance (AD_Edge inp)) (env_now env 0)\<rparr>"
  let ?ed = "?ed1\<lparr>D_ID := env_newID env 0\<rparr>" and ?dk = "edge_dedupe_key inp" and ?ts = "env_now env 1"
  let ?tx = "rbind (pg_upsertEdgeSnapshot pg ?ed ?ts b) (\<lambda>db1. rbind (marshal_edge ?ed) (\<lambda>pl.
      rbind (pg_insertFact pg env 1 FactEdgeAsserted (D_ID ?ed) (AD_Writer inp) ?dk pl (AD_Actor inp) ?ts db1) (\<lambda>db2.
      rbind (pg_getEdgeByID db2 (D_ID ?ed)) (\<lambda>out. Inr (db2, out)))))"
  have valid: "KnownPredicate (D_Predicate (AD_Edge inp))" "Visibility_Valid (D_Visibility (AD_Edge inp))"
    using out e by (auto simp: pg_AppendEdgeFact_def Let_def split: if_splits)
  have pg: "pg_AppendEdgeFact pg env inp b = (case pg_prior FactEdgeAsserted (AD_Writer inp) ?dk b of
       Some prior \<Rightarrow> (case pg_getEdgeByID b prior of Inl e \<Rightarrow> (b, edge0, Some e)
          | Inr existing \<Rightarrow> (b, existing, Some ErrDuplicateFact))
     | None \<Rightarrow> (case ?tx of Inl e \<Rightarrow> (b, edge0, Some e) | Inr (db', out) \<Rightarrow> (db', out, None)))"
    unfolding pg_AppendEdgeFact_def Let_def pg_normalizeProvenance_eq
      edge_dedupe_key_normal [of inp "normalizeProvenance (D_Provenance (AD_Edge inp)) (env_now env 0)"]
    using valid by simp
  have sq: "AppendEdgeFact env inp a = (case prior_subject FactEdgeAsserted (AD_Writer inp) ?dk a of
       Some prior \<Rightarrow> (case getEdgeByID a prior of Inl e \<Rightarrow> (a, edge0, Some e)
          | Inr existing \<Rightarrow> (a, existing, Some ErrDuplicateFact))
     | None \<Rightarrow> (case append_edge_tx env ?dk ?ts inp ?ed1 a of Inl e \<Rightarrow> (a, edge0, Some e)
          | Inr (db', out) \<Rightarrow> (db', out, None)))"
    unfolding AppendEdgeFact_def Let_def using valid by simp
  show ?thesis
  proof (cases "prior_subject FactEdgeAsserted (AD_Writer inp) ?dk a")
    case (Some i)
    show ?thesis
    proof (cases "getEdgeByID b i")
      case (Inl x)
      then have "x = ErrNotFound" by (simp add: getEdgeByID_def split: option.splits)
      with Inl Some pg out e show ?thesis by (simp add: prior_alike [OF ab] pg_getEdgeByID_eq)
    next
      case (Inr v)
      from edge_alike [OF ab Inr] Some Inr pg out sq ab show ?thesis
        by (auto simp: prior_alike [OF ab] pg_getEdgeByID_eq)
    qed
  next
    case None
    define step where "step pl = (\<lambda>b. rbind ((if D_ID ?ed \<in> dr_id ` set (edges b) then Inl ErrSQL
        else pg_upsertEdgeSnapshot pg ?ed ?ts b))
      (pg_insertFact pg env 1 FactEdgeAsserted (D_ID ?ed) (AD_Writer inp) ?dk pl (AD_Actor inp) ?ts))" for pl
    have step: "mirrors (step pl) (\<lambda>a. rbind (upsertEdgeSnapshot ?ed ?ts a)
      (insertFact (env_newID env 1) FactEdgeAsserted (D_ID ?ed) (AD_Writer inp) ?dk pl (AD_Actor inp) ?ts))" for pl
      unfolding step_def by (intro mirrors_bind mirrors_upsertEdgeSnapshot mirrors_insertFact)
    have stepb: "step pl b = rbind (pg_upsertEdgeSnapshot pg ?ed ?ts b)
      (pg_insertFact pg env 1 FactEdgeAsserted (D_ID ?ed) (AD_Writer inp) ?dk pl (AD_Actor inp) ?ts)" for pl
      using fresh by (simp add: step_def)
    show ?thesis
    proof (cases ?tx)
      case (Inr y)
      then obtain pl b2 v where pl: "marshal_edge ?ed = Inr pl" and b2: "step pl b = Inr b2"
        and v: "getEdgeByID b2 (env_newID env 0) = Inr v" and y: "y = (b2, v)"
        by (auto simp: stepb pg_getEdgeByID_eq elim!: rbindE)
      from mirrorsD(1) [OF step ab b2] obtain a2 where a2: "rbind (upsertEdgeSnapshot ?ed ?ts a)
          (insertFact (env_newID env 1) FactEdgeAsserted (D_ID ?ed) (AD_Writer inp) ?dk pl (AD_Actor inp) ?ts) = Inr a2"
          "alike a2 b2" by blast
      from edge_alike [OF a2(2) v] obtain u where u: "D_ID v = env_newID env 0"
          "getEdgeByID a2 (env_newID env 0) = Inr u" "D_ID u = env_newID env 0" by blast
      from a2(1) pl u(2) have "append_edge_tx env ?dk ?ts inp ?ed1 a = Inr (a2, u)"
        by (auto simp: append_edge_tx_def Let_def elim!: rbindE)
      moreover from Inr y pg out None have "b' = b2" "s = v" "e = None" by (auto simp: prior_alike [OF ab])
      ultimately show ?thesis using None sq a2(2) u by simp
    next
      case (Inl x)
      with None pg out e have x: "x = ErrDuplicateFact" "b' = b" "s = edge0" "e = Some ErrDuplicateFact"
        by (auto simp: prior_alike [OF ab])
      from Inl x(1) obtain pl where pl: "marshal_edge ?ed = Inr pl" and b2: "step pl b = Inl ErrDuplicateFact"
        using upsertEdge_errors [of pg ?ed ?ts b] marshal_edge_errors [of ?ed]
        by (auto simp: stepb pg_getEdgeByID_def rbind_def split: sum.splits option.splits)
      from mirrorsD(2) [OF step ab b2] have "append_edge_tx env ?dk ?ts inp ?ed1 a = Inl ErrDuplicateFact"
        using pl by (auto simp: append_edge_tx_def Let_def rbind_def split: sum.splits)
      with None sq x ab show ?thesis by simp
    qed
  qed
qed

end
