(* ===== verification/Jdx_Machine.thy ===== *)
theory Jdx_Machine
  imports Jdx_Replay Jdx_Neighbors
begin

text \<open>
  The store as a state machine: the databases that sequences of its operations reach from the
  migrated, empty one. Each operation is one step (the single writer serialises them), failed
  operations included. \<open>ok\<close> restricts the entity inputs a history may contain.
\<close>

inductive store_step :: "(append_entity_input \<Rightarrow> bool) \<Rightarrow> db \<Rightarrow> db \<Rightarrow> bool" for ok where
  append_entity: "ok inp \<Longrightarrow> store_step ok db (fst (AppendEntityFact env inp db))"
| append_edge: "store_step ok db (fst (AppendEdgeFact env einp db))"
| merge: "store_step ok db (fst (MergeEntities env keep gone actor dk db))"
| retract_entity: "store_step ok db (fst (RetractEntity env e actor dk db))"
| retract_edge: "store_step ok db (fst (RetractEdge env d actor dk db))"
| propose: "intent_ok ok (PP_Payload p) \<Longrightarrow> store_step ok db (fst (Propose env p db))"
| decide: "store_step ok db (fst (DecideProposal env i approve approver db))"
| rebuild: "store_step ok db (fst (RebuildProjection db))"

inductive reachable :: "(append_entity_input \<Rightarrow> bool) \<Rightarrow> db \<Rightarrow> bool" for ok where
  opened: "reachable ok empty_db"
| step: "reachable ok db \<Longrightarrow> store_step ok db db' \<Longrightarrow> reachable ok db'"

inductive_cases store_stepE: "store_step ok db db'"

lemma reachable_induct [consumes 1, case_names opened append_entity append_edge merge retract_entity
    retract_edge propose decide rebuild]:
  assumes "reachable ok db" and "P empty_db"
    and "\<And>db inp env. reachable ok db \<Longrightarrow> P db \<Longrightarrow> ok inp \<Longrightarrow> P (fst (AppendEntityFact env inp db))"
    and "\<And>db env einp. reachable ok db \<Longrightarrow> P db \<Longrightarrow> P (fst (AppendEdgeFact env einp db))"
    and "\<And>db env keep gone actor dk. reachable ok db \<Longrightarrow> P db \<Longrightarrow> P (fst (MergeEntities env keep gone actor dk db))"
    and "\<And>db env e actor dk. reachable ok db \<Longrightarrow> P db \<Longrightarrow> P (fst (RetractEntity env e actor dk db))"
    and "\<And>db env d actor dk. reachable ok db \<Longrightarrow> P db \<Longrightarrow> P (fst (RetractEdge env d actor dk db))"
    and "\<And>db p env. reachable ok db \<Longrightarrow> P db \<Longrightarrow> intent_ok ok (PP_Payload p) \<Longrightarrow> P (fst (Propose env p db))"
    and "\<And>db env i approve approver. reachable ok db \<Longrightarrow> P db \<Longrightarrow> P (fst (DecideProposal env i approve approver db))"
    and "\<And>db. reachable ok db \<Longrightarrow> P db \<Longrightarrow> P (fst (RebuildProjection db))"
  shows "P db"
  using assms(1)
proof (induction rule: reachable.induct)
  case opened
  then show ?case by (rule assms(2))
next
  case (step db db')
  from step.hyps(2) show ?case by cases (auto intro: assms(3-) step.hyps step.IH)
qed

section \<open>The invariant survives a rebuild\<close>

lemma moves_fts_frame:
  "move_ext k g db = Inr db' \<Longrightarrow> entities db' = entities db \<and> entities_fts db' = entities_fts db"
  "move_labels k g db = Inr db' \<Longrightarrow> entities db' = entities db \<and> entities_fts db' = entities_fts db"
  "move_emb k g db = Inr db' \<Longrightarrow> entities db' = entities db \<and> entities_fts db' = entities_fts db"
  "repoint_from k g db = Inr db' \<Longrightarrow> entities db' = entities db \<and> entities_fts db' = entities_fts db"
  "repoint_to k g db = Inr db' \<Longrightarrow> entities db' = entities db \<and> entities_fts db' = entities_fts db"
  by (auto simp: move_ext_def move_labels_def move_emb_def repoint_from_def repoint_to_def Let_def
      split: if_splits)

lemma wf_db_mergeEntitiesTx [wf_intros]:
  assumes "wf_db db" and "mergeEntitiesTx k g ts db = Inr db'"
  shows "wf_db db'"
proof (cases "k = g")
  case True
  with assms show ?thesis by (simp add: mergeEntitiesTx_def)
next
  case False
  have wt: "wf_tables db'" using assms by (auto simp: wf_db_def intro: wf_mergeEntitiesTx)
  have "fts_ok (filter (\<lambda>r. er_id r \<noteq> g) (entities db)) (filter (\<lambda>t. fst t \<noteq> g) (entities_fts db))"
    using assms(1) by (intro fts_ok_delete) (simp add: wf_db_def)
  moreover have "fts_row ` set (entities db') = fts_row ` set (filter (\<lambda>r. er_id r \<noteq> g) (entities db)) \<and>
      entities_fts db' = filter (\<lambda>t. fst t \<noteq> g) (entities_fts db)"
    using assms(2) False
  proof (rule mergeEntitiesTxE)
    fix db2 db4 db6 db7 db8
    assume s: "move_ext k g (db\<lparr>entity_external_ids := del_dups xr_entity xr_key k g (entity_external_ids db)\<rparr>) = Inr db2"
      "move_labels k g (db2\<lparr>entity_labels := del_dups fst snd k g (entity_labels db2)\<rparr>) = Inr db4"
      "move_emb k g (db4\<lparr>embeddings := del_dups mr_entity mr_key k g (embeddings db4)\<rparr>) = Inr db6"
      "repoint_from k g db6 = Inr db7" "repoint_to k g db7 = Inr db8"
      and db': "db' = update_entity k (\<lambda>r. r\<lparr>er_updated_at := fmtTS ts\<rparr>) (delete_fts g (delete_entity g db8))"
    have e8: "entities db8 = entities db" "entities_fts db8 = entities_fts db"
      using moves_fts_frame(1) [OF s(1)] moves_fts_frame(2) [OF s(2)] moves_fts_frame(3) [OF s(3)]
        moves_fts_frame(4) [OF s(4)] moves_fts_frame(5) [OF s(5)] by simp_all
    have "entities db' = map (\<lambda>r. if er_id r = k then r\<lparr>er_updated_at := fmtTS ts\<rparr> else r)
        (filter (\<lambda>r. er_id r \<noteq> g) (entities db))"
      by (simp add: db' update_entity_def delete_fts_def delete_entity_def e8)
    moreover have "entities_fts db' = filter (\<lambda>t. fst t \<noteq> g) (entities_fts db)"
      by (simp add: db' update_entity_def delete_fts_def delete_entity_def e8)
    moreover have "fts_row ` set (map (\<lambda>r. if er_id r = k then r\<lparr>er_updated_at := fmtTS ts\<rparr> else r)
        (filter (\<lambda>r. er_id r \<noteq> g) (entities db))) = fts_row ` set (filter (\<lambda>r. er_id r \<noteq> g) (entities db))"
      by (rule image_map_if) (simp add: fts_row_def)
    ultimately show ?thesis by simp
  qed
  ultimately show ?thesis using wt by (simp add: wf_db_def fts_ok_def)
qed

lemma wf_fold_row:
  assumes "wf_db db" and "fold_row f db = Inr db'"
  shows "wf_db db'"
proof -
  have "wf_db (delete_entity e db)" for e
  proof -
    have "fts_ok (filter (\<lambda>r. er_id r \<noteq> e) (entities db)) (entities_fts db)"
      using assms(1) by (auto simp: wf_db_def fts_ok_def)
    then show ?thesis
      using assms(1) wf_delete_entity [of db e] by (simp add: wf_db_def) (simp add: delete_entity_def)
  qed
  with assms show ?thesis
    by (auto simp: fold_row_def foldFact_def elim!: rbindE split: fact_kind.splits prod.splits
        intro: wf_db_upsert wf_db_edge wf_db_delete_edge wf_db_mergeEntitiesTx)
qed

lemma wf_clear:
  assumes "wf_db db"
  shows "wf_db (clear_projection db)"
  using assms
  by (simp add: wf_db_def wf_tables_def clear_projection_def entities_ok_def ext_ok_def labels_ok_def
      emb_ok_def edges_ok_def fts_ok_def)

lemma wf_rebuild_tx:
  assumes "wf_db db" and "rebuild_tx db = Inr db'"
  shows "wf_db db'"
proof (rule rfold_invariant [where P = wf_db, OF assms(2) [unfolded rebuild_tx_def]])
  show "wf_db (clear_projection db)" by (rule wf_clear [OF assms(1)])
  show "wf_db t" if "wf_db s" "fold_row x s = Inr t" for x s t using that by (rule wf_fold_row)
qed

lemma wf_RebuildProjection [wf_intros]: "wf_db db \<Longrightarrow> wf_db (fst (RebuildProjection db))"
  by (auto simp: RebuildProjection_def commit_def intro: wf_rebuild_tx split: sum.split)

lemma wf_reachable: "reachable ok db \<Longrightarrow> wf_db db"
  by (induction rule: reachable_induct) (auto intro: wf_empty_db wf_intros)

section \<open>The log stays ahead of the projection\<close>

lemma foldFact_log:
  assumes "fold_row f db = Inr db'"
  shows "facts db' = facts db \<and> proposals db' = proposals db"
  using assms
  by (auto simp: fold_row_def foldFact_def delete_entity_def delete_edge_def elim!: rbindE
      split: fact_kind.splits prod.splits
      dest: upsertEntitySnapshot_proposals upsertEdgeSnapshot_proposals mergeEntitiesTx_proposals)

lemma rebuild_tx_log:
  assumes "rebuild_tx db = Inr db'"
  shows "facts db' = facts db \<and> proposals db' = proposals db"
proof -
  have "(facts db', proposals db') = (facts (clear_projection db), proposals (clear_projection db))"
    by (rule rfold_frame [where h = "\<lambda>d. (facts d, proposals d)", OF assms [unfolded rebuild_tx_def]])
       (simp add: foldFact_log)
  then show ?thesis by (simp add: clear_projection_def)
qed

lemma sorted_log:
  assumes "log_ok fs"
  shows "sort_key f_seq fs = fs"
proof -
  from assms have "sorted (map f_seq fs)" by (simp add: log_ok_def del: upt_Suc)
  then show ?thesis by (rule sort_key_id_if_sorted)
qed

definition in_sync :: "db \<Rightarrow> bool" where
  "in_sync db \<longleftrightarrow> (\<exists>p. rfold fold_row (facts db) empty_db = Inr p \<and> peq p db)"

lemma in_sync_extends:
  assumes "in_sync db" and "extends db db'"
  shows "in_sync db'"
  using assms log.fold_extend unfolding in_sync_def extends_def by metis

lemma in_sync_rebuild:
  assumes "in_sync db" and "wf_db db"
  shows "\<exists>db'. rebuild_tx db = Inr db' \<and> peq db' db"
proof -
  have log: "sort_key f_seq (facts db) = facts db"
    using assms(2) by (intro sorted_log) (simp add: wf_db_def wf_tables_def)
  from assms(1) obtain p where p: "rfold fold_row (facts db) empty_db = Inr p" "peq p db"
    by (auto simp: in_sync_def)
  have "peq (clear_projection db) empty_db" by (simp add: peq_def clear_projection_def empty_db_def)
  from log.fold_cong [OF this p(1)] obtain db' where "rfold fold_row (facts db) (clear_projection db) = Inr db'"
      "peq db' p" by blast
  with log p(2) show ?thesis by (auto simp: rebuild_tx_def intro: peq_trans)
qed

definition intents_ok :: "(append_entity_input \<Rightarrow> bool) \<Rightarrow> db \<Rightarrow> bool" where
  "intents_ok ok db \<longleftrightarrow> (\<forall>p \<in> set (proposals db). intent_ok ok (pr_payload p))"

lemma intents_DecideProposal:
  assumes "intents_ok ok db"
  shows "intents_ok ok (fst (DecideProposal env i approve a db))"
proof -
  have u: "intents_ok ok (update_pending i st ts b d)" if "intents_ok ok d" for st ts b d
    using that by (auto simp: intents_ok_def proposals_update_pending decide_row_def)
  have s: "intents_ok ok (set_result_subject i x d)" if "intents_ok ok d" for x d
    using that by (auto simp: intents_ok_def set_result_subject_def)
  show ?thesis
  proof (cases rule: DecideProposal_cases [of db i env approve a])
    case (failed p db' r sub e)
    then have "proposals db' = proposals (update_pending i StPromoted (fmtTS (env_now env 0)) a db)"
      using replay_intent_proposals by (metis fst_conv)
    with u [OF assms] failed(5) show ?thesis by (simp add: intents_ok_def)
  next
    case (promoted p db' r sub)
    then have "proposals db' = proposals (update_pending i StPromoted (fmtTS (env_now env 0)) a db)"
      using replay_intent_proposals by (metis fst_conv)
    with u [OF assms] have "intents_ok ok db'" by (simp add: intents_ok_def)
    with promoted(5) s show ?thesis by simp
  qed (use assms u in simp_all)
qed

lemma MergeEntities_proposals: "proposals (fst (MergeEntities env keep gone actor dk db)) = proposals db"
proof (cases "merge_entities_tx env keep gone actor dk db")
  case (Inl e)
  then show ?thesis by (simp add: MergeEntities_def commit_def)
next
  case (Inr db')
  then have "proposals db' = proposals db"
    by (rule merge_entities_txE) (simp add: mergeEntitiesTx_proposals insertFact_frame)
  with Inr show ?thesis by (simp add: MergeEntities_def commit_def)
qed

lemma Retract_proposals:
  "proposals (fst (RetractEntity env e actor dk db)) = proposals db"
  "proposals (fst (RetractEdge env d actor dk db)) = proposals db"
proof -
  have "retract_entity_tx env e actor dk db = Inr db' \<Longrightarrow> proposals db' = proposals db" for db'
    by (auto simp: retract_entity_tx_def Let_def delete_fts_def delete_entity_def dest!: insertFact_frame)
  then show "proposals (fst (RetractEntity env e actor dk db)) = proposals db"
    by (simp add: RetractEntity_def commit_def split: sum.split)
  have "retract_edge_tx env d actor dk db = Inr db' \<Longrightarrow> proposals db' = proposals db" for db'
    by (auto simp: retract_edge_tx_def Let_def delete_edge_def dest!: insertFact_frame)
  then show "proposals (fst (RetractEdge env d actor dk db)) = proposals db"
    by (simp add: RetractEdge_def commit_def split: sum.split)
qed

lemma intents_reachable: "reachable ok db \<Longrightarrow> intents_ok ok db"
proof (induction rule: reachable_induct)
  case opened
  then show ?case by (simp add: intents_ok_def empty_db_def)
next
  case (propose db p env)
  then show ?case by (auto simp: intents_ok_def Propose_def Let_def)
next
  case (decide db env i approve approver)
  then show ?case by (simp add: intents_DecideProposal)
next
  case (rebuild db)
  show ?case
  proof (cases "rebuild_tx db")
    case (Inl e)
    with rebuild.IH show ?thesis by (simp add: RebuildProjection_def commit_def)
  next
    case (Inr db')
    with rebuild_tx_log [OF Inr] rebuild.IH show ?thesis
      by (simp add: RebuildProjection_def commit_def intents_ok_def)
  qed
next
  case (merge db env keep gone actor dk)
  then show ?case by (simp add: intents_ok_def MergeEntities_proposals)
qed (simp_all add: intents_ok_def AppendEntityFact_proposals AppendEdgeFact_proposals Retract_proposals)

lemma in_sync_reachable: "reachable (\<lambda>inp. doc_props (AE_Candidate inp)) db \<Longrightarrow> in_sync db"
proof (induction rule: reachable_induct)
  case opened
  then show ?case by (simp add: in_sync_def empty_db_def)
next
  case (decide db env i approve approver)
  from intents_reachable [OF decide.hyps] show ?case
    by (intro in_sync_extends [OF decide.IH] extends_DecideProposal) (simp add: intents_ok_def)
next
  case (rebuild db)
  from in_sync_rebuild [OF rebuild.IH wf_reachable [OF rebuild.hyps]] obtain db' where
    db': "rebuild_tx db = Inr db'" "peq db' db" by blast
  with rebuild_tx_log [OF db'(1)] rebuild.IH show ?case
    by (auto simp: RebuildProjection_def commit_def in_sync_def intro: peq_trans peq_sym)
qed (auto intro: in_sync_extends extends_AppendEntityFact extends_AppendEdgeFact extends_MergeEntities
     extends_RetractEntity extends_RetractEdge extends_Propose)

end
