(* ===== verification/Jdx_Starchart.thy ===== *)
theory Jdx_Starchart
  imports Jdx_Access
begin

text \<open>
  The self-contained access model of \<open>internal/access/starchart\<close>: a registry from token digests
  to principals, and the four ACL methods. \<open>sha\<close> is \<open>hex(sha256(_))\<close>.
\<close>

section \<open>Configuration and registry\<close>

record principal_config =
  PC_Token :: string
  PC_ID :: principal_id
  PC_Spaces :: "space_id list"
  PC_Restricted :: bool
  PC_ApproverSpaces :: "space_id list"

record starchart_config =
  Principals :: "principal_config list"
  RestrictedDenyTypes :: "etype list"

record sc_principal =
  sp_id :: principal_id
  sp_spaces :: "space_id list"
  sp_restricted :: bool
  sp_approverSpaces :: "space_id list"

record starchart_model =
  byToken :: "string \<rightharpoonup> sc_principal"
  denyTypes :: "etype list"

definition sc_principal_of :: "principal_config \<Rightarrow> sc_principal" where
  "sc_principal_of pc = \<lparr>sp_id = PC_ID pc, sp_spaces = PC_Spaces pc,
     sp_restricted = PC_Restricted pc, sp_approverSpaces = PC_ApproverSpaces pc\<rparr>"

definition sc_register ::
    "(string \<Rightarrow> string) \<Rightarrow> principal_config \<Rightarrow> starchart_model \<Rightarrow> starchart_model res" where
  "sc_register sha pc m =
     (if PC_Token pc = [] then Inl ErrConfig
      else if PC_ID pc = [] then Inl ErrConfig
      else if byToken m (sha (PC_Token pc)) \<noteq> None then Inl ErrConfig
      else Inr (m\<lparr>byToken := (byToken m)(sha (PC_Token pc) \<mapsto> sc_principal_of pc)\<rparr>))"

definition Starchart_New :: "(string \<Rightarrow> string) \<Rightarrow> starchart_config \<Rightarrow> starchart_model res" where
  "Starchart_New sha cfg =
     rfold (sc_register sha) (Principals cfg)
       \<lparr>byToken = Map.empty, denyTypes = RestrictedDenyTypes cfg\<rparr>"

definition Starchart_Authenticate ::
    "(string \<Rightarrow> string) \<Rightarrow> starchart_model \<Rightarrow> string \<Rightarrow> decision res" where
  "Starchart_Authenticate sha m bearer =
     (if bearer = [] then Inl ErrUnauthenticated
      else (case byToken m (sha bearer) of
          None \<Rightarrow> Inl ErrUnauthenticated
        | Some p \<Rightarrow> Inr \<lparr>Principal = \<lparr>P_ID = sp_id p, P_Spaces = sp_spaces p,
              P_WriteSpaces = sp_spaces p, P_ApproverSpaces = sp_approverSpaces p,
              P_Restricted = sp_restricted p\<rparr>, Lenses = [], D_Source = []\<rparr>))"

section \<open>The ACL methods\<close>

definition Starchart_FilterFor :: "starchart_model \<Rightarrow> decision \<Rightarrow> acl_filter" where
  "Starchart_FilterFor m d =
     (let f = \<lparr>F_Principal = P_ID (Principal d), F_Spaces = P_Spaces (Principal d),
               F_Restricted = P_Restricted (Principal d), F_DenyTypes = [], F_AllowPublic = True\<rparr>
      in if P_Restricted (Principal d) then f\<lparr>F_DenyTypes := denyTypes m\<rparr> else f)"

definition Starchart_CanRead :: "starchart_model \<Rightarrow> decision \<Rightarrow> guarded \<Rightarrow> bool" where
  "Starchart_CanRead m d g =
     (if P_Restricted (Principal d) \<and> containsType (denyTypes m) (G_Type g) then False
      else (case G_Visibility g of
          VisPublic \<Rightarrow> True
        | VisSpace \<Rightarrow> ContainsSpace (P_Spaces (Principal d)) (G_Space g)
        | VisPrivate \<Rightarrow> G_Owner g = P_ID (Principal d)
        | VisOther _ \<Rightarrow> False))"

definition Starchart_CanWrite :: "starchart_model \<Rightarrow> decision \<Rightarrow> space_id \<Rightarrow> bool" where
  "Starchart_CanWrite m d space = ContainsSpace (P_WriteSpaces (Principal d)) space"

definition Starchart_CanApprove :: "starchart_model \<Rightarrow> decision \<Rightarrow> space_id \<Rightarrow> bool" where
  "Starchart_CanApprove m d space = ContainsSpace (P_ApproverSpaces (Principal d)) space"

interpretation sc: access_model "Starchart_FilterFor m" "Starchart_CanRead m"
    "Starchart_CanWrite m" "Starchart_CanApprove m" for m
  by unfold_locales
     (auto simp: accessWhere_iff visible_spec_def Starchart_FilterFor_def Starchart_CanRead_def
        Starchart_CanWrite_def Starchart_CanApprove_def Let_def split: visibility.splits)

section \<open>The registry holds exactly the configured principals\<close>

lemma rfold_register_Cons:
  assumes "rfold (sc_register sha) (pc # pcs) m = Inr m'"
  obtains "PC_Token pc \<noteq> []" and "PC_ID pc \<noteq> []" and "byToken m (sha (PC_Token pc)) = None"
    and "rfold (sc_register sha) pcs
           (m\<lparr>byToken := (byToken m)(sha (PC_Token pc) \<mapsto> sc_principal_of pc)\<rparr>) = Inr m'"
  using assms by (auto simp: sc_register_def elim!: rbindE split: if_splits)

lemma register_fresh:
  assumes "rfold (sc_register sha) pcs m = Inr m'" and "pc \<in> set pcs"
  shows "PC_Token pc \<noteq> [] \<and> PC_ID pc \<noteq> [] \<and> byToken m (sha (PC_Token pc)) = None"
  using assms
proof (induction pcs arbitrary: m)
  case Nil
  then show ?case by simp
next
  case (Cons a pcs)
  from Cons.prems(1) show ?case
  proof (rule rfold_register_Cons)
    assume a: "PC_Token a \<noteq> []" "PC_ID a \<noteq> []" "byToken m (sha (PC_Token a)) = None"
      and r: "rfold (sc_register sha) pcs
           (m\<lparr>byToken := (byToken m)(sha (PC_Token a) \<mapsto> sc_principal_of a)\<rparr>) = Inr m'"
    show ?thesis
    proof (cases "pc = a")
      case True
      with a show ?thesis by simp
    next
      case False
      with Cons.prems(2) have "pc \<in> set pcs" by simp
      from Cons.IH [OF r this] show ?thesis by (simp split: if_splits)
    qed
  qed
qed

lemma register_distinct:
  assumes "rfold (sc_register sha) pcs m = Inr m'"
  shows "distinct (map (\<lambda>pc. sha (PC_Token pc)) pcs)"
  using assms
proof (induction pcs arbitrary: m)
  case Nil
  then show ?case by simp
next
  case (Cons a pcs)
  from Cons.prems show ?case
  proof (rule rfold_register_Cons)
    assume r: "rfold (sc_register sha) pcs
           (m\<lparr>byToken := (byToken m)(sha (PC_Token a) \<mapsto> sc_principal_of a)\<rparr>) = Inr m'"
    have "sha (PC_Token a) \<notin> (\<lambda>pc. sha (PC_Token pc)) ` set pcs"
      using register_fresh [OF r] by fastforce
    with Cons.IH [OF r] show ?thesis by simp
  qed
qed

lemma register_byToken:
  assumes "rfold (sc_register sha) pcs m = Inr m'"
  shows "byToken m' = byToken m ++ map_of (map (\<lambda>pc. (sha (PC_Token pc), sc_principal_of pc)) pcs)
    \<and> denyTypes m' = denyTypes m"
  using assms
proof (induction pcs arbitrary: m)
  case Nil
  then show ?case by simp
next
  case (Cons a pcs)
  from register_distinct [OF Cons.prems]
  have d: "sha (PC_Token a) \<notin> (\<lambda>pc. sha (PC_Token pc)) ` set pcs" by simp
  from Cons.prems show ?case
  proof (rule rfold_register_Cons)
    assume r: "rfold (sc_register sha) pcs
           (m\<lparr>byToken := (byToken m)(sha (PC_Token a) \<mapsto> sc_principal_of a)\<rparr>) = Inr m'"
    have "map_of (map (\<lambda>pc. (sha (PC_Token pc), sc_principal_of pc)) pcs) (sha (PC_Token a)) = None"
      using d by (auto simp: map_of_eq_None_iff image_image)
    with Cons.IH [OF r] show ?thesis
      by (auto simp: map_add_def fun_eq_iff split: option.splits)
  qed
qed

lemma New_byToken:
  assumes "Starchart_New sha cfg = Inr m"
  shows "byToken m =
      map_of (map (\<lambda>pc. (sha (PC_Token pc), sc_principal_of pc)) (Principals cfg))"
    and "denyTypes m = RestrictedDenyTypes cfg"
    and "distinct (map (\<lambda>pc. sha (PC_Token pc)) (Principals cfg))"
  using assms register_byToken register_distinct unfolding Starchart_New_def by fastforce+

section \<open>Properties\<close>

text \<open>C11: The hard access rule is the same in Go and in SQL: a row passes the compiled WHERE
  fragment of the decision's filter exactly when CanRead holds, and the fragment consumes
  exactly the arguments that were compiled with it.\<close>

theorem starchart_filter_is_CanRead:
  "accessWhere (Starchart_FilterFor m d) g = Starchart_CanRead m d g \<and>
   snd (sql_eval g (fst (accessClause (Starchart_FilterFor m d) gt))
          (snd (accessClause (Starchart_FilterFor m d) gt) @ rest)) = rest"
  by (simp add: sc.filter_agrees accessClause_eval)

text \<open>What a principal can read: public rows, rows of its spaces with space visibility, and
  its own private rows; nothing with an unknown visibility, and for a restricted principal
  nothing of a denied type, not even its own or public rows.\<close>

theorem starchart_CanRead_iff:
  "Starchart_CanRead m d g \<longleftrightarrow>
     \<not> (P_Restricted (Principal d) \<and> G_Type g \<in> set (denyTypes m)) \<and>
     (G_Visibility g = VisPublic \<or>
      G_Visibility g = VisSpace \<and> G_Space g \<in> set (P_Spaces (Principal d)) \<or>
      G_Visibility g = VisPrivate \<and> G_Owner g = P_ID (Principal d))"
  by (auto simp: Starchart_CanRead_def split: visibility.split)

text \<open>Authentication accepts exactly the configured tokens, each as its own principal, when the
  digest does not collide on the tokens involved; the empty bearer is always rejected.\<close>

theorem Starchart_Authenticate_exact:
  assumes "Starchart_New sha cfg = Inr m"
    and "inj_on sha (insert bearer (PC_Token ` set (Principals cfg)))"
  shows "(case Starchart_Authenticate sha m bearer of
      Inl e \<Rightarrow> e = ErrUnauthenticated \<and> bearer \<notin> PC_Token ` set (Principals cfg)
    | Inr d \<Rightarrow> (\<exists>pc \<in> set (Principals cfg). PC_Token pc = bearer \<and> P_ID (Principal d) = PC_ID pc \<and>
        P_Spaces (Principal d) = PC_Spaces pc \<and> P_WriteSpaces (Principal d) = PC_Spaces pc \<and>
        P_ApproverSpaces (Principal d) = PC_ApproverSpaces pc \<and> P_Restricted (Principal d) = PC_Restricted pc))"
proof -
  note nb = New_byToken [OF assms(1)]
  have fresh: "PC_Token pc \<noteq> []" if "pc \<in> set (Principals cfg)" for pc
    using register_fresh [of sha "Principals cfg" _ m pc] assms(1) that by (auto simp: Starchart_New_def)
  show ?thesis
  proof (cases "byToken m (sha bearer)")
    case None
    then have "sha bearer \<notin> (\<lambda>pc. sha (PC_Token pc)) ` set (Principals cfg)"
      by (simp add: nb(1) map_of_eq_None_iff image_image)
    then have "bearer \<notin> PC_Token ` set (Principals cfg)" by auto
    with None show ?thesis
      by (cases "bearer = []") (simp_all add: Starchart_Authenticate_def)
  next
    case (Some p)
    then obtain pc where pc: "pc \<in> set (Principals cfg)" "sha bearer = sha (PC_Token pc)" "p = sc_principal_of pc"
      by (auto simp: nb(1) dest!: map_of_SomeD)
    with assms(2) have "bearer = PC_Token pc" by (auto dest: inj_onD)
    with pc fresh [OF pc(1)] Some show ?thesis
      by (auto simp: Starchart_Authenticate_def sc_principal_of_def)
  qed
qed

theorem Starchart_Authenticate_exact_witness:
  "\<exists>m. Starchart_New (\<lambda>s. s) \<lparr>Principals = [\<lparr>PC_Token = ''t1'', PC_ID = ''kate'', PC_Spaces = [''home''],
        PC_Restricted = False, PC_ApproverSpaces = []\<rparr>], RestrictedDenyTypes = []\<rparr> = Inr m \<and>
     (\<exists>d. Starchart_Authenticate (\<lambda>s. s) m ''t1'' = Inr d \<and> P_ID (Principal d) = ''kate'')"
proof -
  let ?cfg = "\<lparr>Principals = [\<lparr>PC_Token = ''t1'', PC_ID = ''kate'', PC_Spaces = [''home''],
        PC_Restricted = False, PC_ApproverSpaces = []\<rparr>], RestrictedDenyTypes = []\<rparr>"
  obtain m where m: "Starchart_New (\<lambda>s. s) ?cfg = Inr m"
    by (simp add: Starchart_New_def sc_register_def)
  from Starchart_Authenticate_exact [OF m, of "''t1''"] m show ?thesis
    by (auto simp: inj_on_def split: sum.splits)
qed

text \<open>The registry is built exactly when every token and every id is non-empty and no two
  tokens have the same digest.\<close>

theorem Starchart_New_iff:
  "(\<exists>m. Starchart_New sha cfg = Inr m) \<longleftrightarrow>
     (\<forall>pc \<in> set (Principals cfg). PC_Token pc \<noteq> [] \<and> PC_ID pc \<noteq> []) \<and>
     distinct (map (\<lambda>pc. sha (PC_Token pc)) (Principals cfg))"
proof
  assume "\<exists>m. Starchart_New sha cfg = Inr m"
  then obtain m where "rfold (sc_register sha) (Principals cfg)
      \<lparr>byToken = Map.empty, denyTypes = RestrictedDenyTypes cfg\<rparr> = Inr m" by (auto simp: Starchart_New_def)
  from register_fresh [OF this] register_distinct [OF this]
  show "(\<forall>pc \<in> set (Principals cfg). PC_Token pc \<noteq> [] \<and> PC_ID pc \<noteq> []) \<and>
     distinct (map (\<lambda>pc. sha (PC_Token pc)) (Principals cfg))" by blast
next
  assume ok: "(\<forall>pc \<in> set (Principals cfg). PC_Token pc \<noteq> [] \<and> PC_ID pc \<noteq> []) \<and>
     distinct (map (\<lambda>pc. sha (PC_Token pc)) (Principals cfg))"
  have "\<exists>m'. rfold (sc_register sha) pcs m = Inr m'"
    if "\<forall>pc \<in> set pcs. PC_Token pc \<noteq> [] \<and> PC_ID pc \<noteq> []"
      "distinct (map (\<lambda>pc. sha (PC_Token pc)) pcs)"
      "\<forall>pc \<in> set pcs. byToken m (sha (PC_Token pc)) = None" for pcs m
    using that
  proof (induction pcs arbitrary: m)
    case Nil
    then show ?case by simp
  next
    case (Cons pc pcs)
    then have "sc_register sha pc m = Inr (m\<lparr>byToken := (byToken m)(sha (PC_Token pc) \<mapsto> sc_principal_of pc)\<rparr>)"
      by (simp add: sc_register_def)
    moreover have "\<forall>q \<in> set pcs. byToken (m\<lparr>byToken := (byToken m)(sha (PC_Token pc) \<mapsto> sc_principal_of pc)\<rparr>)
        (sha (PC_Token q)) = None"
      using Cons.prems by (auto simp: image_iff)
    ultimately show ?case using Cons.IH Cons.prems by simp
  qed
  from this [of "Principals cfg" "\<lparr>byToken = Map.empty, denyTypes = RestrictedDenyTypes cfg\<rparr>"] ok
  show "\<exists>m. Starchart_New sha cfg = Inr m" by (simp add: Starchart_New_def)
qed

end
