(* ===== verification/Jdx_Service.thy ===== *)
theory Jdx_Service
  imports Jdx_Machine Jdx_Starchart
begin

text \<open>
  The authorization boundary of \<open>internal/service\<close>: every operation authenticates the bearer,
  derives the read filter or checks write or approve access, and only then calls the store (here
  the SQLite adapter). The access model and the embedder are the interfaces the Go struct holds;
  an embedder is code outside the repository's control and stays a parameter.
\<close>

section \<open>The service and its collaborators\<close>

record access_impl =
  am_Authenticate :: "string \<Rightarrow> decision res"
  am_FilterFor :: "decision \<Rightarrow> acl_filter"
  am_CanWrite :: "decision \<Rightarrow> space_id \<Rightarrow> bool"
  am_CanApprove :: "decision \<Rightarrow> space_id \<Rightarrow> bool"

record embedder =
  em_Model :: string
  em_Embed :: "string list \<Rightarrow> f32bits list list res"

record service =
  sv_access :: access_impl
  sv_embedder :: "embedder option"

text \<open>FTS5 as the store sees it: expression matching, ranking, and the order of ties.\<close>

record fts_engine =
  fe_match :: "string \<Rightarrow> (string \<Rightarrow> bool) res"
  fe_bm25 :: "(entity_id \<times> string) list \<Rightarrow> string \<Rightarrow> string \<Rightarrow> real"
  fe_ord :: "(entity_row \<times> string) list \<Rightarrow> (entity_row \<times> string) list"

definition starchart_access :: "(string \<Rightarrow> string) \<Rightarrow> starchart_model \<Rightarrow> access_impl" where
  "starchart_access sha m = \<lparr>am_Authenticate = Starchart_Authenticate sha m,
     am_FilterFor = Starchart_FilterFor m, am_CanWrite = Starchart_CanWrite m,
     am_CanApprove = Starchart_CanApprove m\<rparr>"

definition auth :: "service \<Rightarrow> string \<Rightarrow> (decision \<times> acl_filter) res" where
  "auth sv bearer = (case am_Authenticate (sv_access sv) bearer of
       Inl e \<Rightarrow> Inl ErrUnauthenticated
     | Inr d \<Rightarrow> Inr (d, am_FilterFor (sv_access sv) d))"

section \<open>Reads\<close>

definition svc_GetEntity :: "service \<Rightarrow> string \<Rightarrow> entity_id \<Rightarrow> db \<Rightarrow> entity res" where
  "svc_GetEntity sv bearer e db = rbind (auth sv bearer) (\<lambda>(d, af). GetEntity af e db)"

definition svc_ResolveByExternalID ::
    "service \<Rightarrow> (entity_row list \<Rightarrow> entity_row list) \<Rightarrow> string \<Rightarrow> string list \<Rightarrow> db \<Rightarrow> entity list res" where
  "svc_ResolveByExternalID sv ord bearer keys db =
     rbind (auth sv bearer) (\<lambda>(d, af). Inr (ResolveByExternalID ord af keys db))"

definition svc_Neighbors ::
    "service \<Rightarrow> (entity_id \<Rightarrow> edge_row list \<Rightarrow> edge_row list) \<Rightarrow> string \<Rightarrow> neighbor_query \<Rightarrow> db \<Rightarrow> subgraph res" where
  "svc_Neighbors sv ord bearer q db = rbind (auth sv bearer) (\<lambda>(d, af). Neighbors ord af q db)"

text \<open>
  Reciprocal-rank fusion. The Go maps \<open>score\<close> and \<open>ent\<close> are one association list: an id keeps
  its running score and the entity seen last.
\<close>

fun rrf_put :: "entity \<Rightarrow> real \<Rightarrow> (entity_id \<times> scored_entity) list \<Rightarrow> (entity_id \<times> scored_entity) list" where
  "rrf_put e w [] = [(E_ID e, \<lparr>SE_Entity = e, SE_Score = 0 + w\<rparr>)]"
| "rrf_put e w ((i, s) # xs) =
     (if i = E_ID e then (i, \<lparr>SE_Entity = e, SE_Score = SE_Score s + w\<rparr>) # xs
      else (i, s) # rrf_put e w xs)"

definition rrf_list ::
    "(entity_id \<times> scored_entity) list \<Rightarrow> scored_entity list \<Rightarrow> (entity_id \<times> scored_entity) list" where
  "rrf_list acc xs =
     foldl (\<lambda>a p. rrf_put (SE_Entity (snd p)) (1 / (60 + real (fst p))) a) acc (enumerate 0 xs)"

definition rank_key :: "scored_entity \<Rightarrow> real \<times> entity_id" where
  "rank_key s = (- SE_Score s, E_ID (SE_Entity s))"

definition fuseRRF :: "int \<Rightarrow> scored_entity list list \<Rightarrow> scored_entity list" where
  "fuseRRF limit ls = cap limit (sort_key rank_key (map snd (foldl rrf_list [] ls)))"

record search_query =
  SQ_Text :: string
  SQ_Type :: etype
  SQ_Limit :: int

definition svc_semantic ::
    "service \<Rightarrow> acl_filter \<Rightarrow> search_query \<Rightarrow> int \<Rightarrow> scored_entity list \<Rightarrow> db \<Rightarrow> scored_entity list res" where
  "svc_semantic sv af q limit ft db = (case sv_embedder sv of
       None \<Rightarrow> Inr ft
     | Some em \<Rightarrow>
         if TrimSpace (SQ_Text q) = [] then Inr ft
         else (case em_Embed em [SQ_Text q] of
             Inl e \<Rightarrow> Inr ft
           | Inr [] \<Rightarrow> Inr ft
           | Inr (v # vs) \<Rightarrow>
               (case SemanticSearch af \<lparr>VQ_Vector = v, VQ_Model = em_Model em, VQ_Type = SQ_Type q,
                       VQ_Limit = limit\<rparr> db of
                  Inl e \<Rightarrow> if e \<noteq> ErrNotImplemented then Inl e else Inr (fuseRRF limit [ft, []])
                | Inr sem \<Rightarrow> Inr (fuseRRF limit [ft, sem]))))"

definition svc_Search ::
    "service \<Rightarrow> fts_engine \<Rightarrow> string \<Rightarrow> search_query \<Rightarrow> db \<Rightarrow> scored_entity list res" where
  "svc_Search sv fe bearer q db =
     rbind (auth sv bearer) (\<lambda>(d, af).
       let limit = (if SQ_Limit q \<le> 0 then 20 else SQ_Limit q) in
       rbind (case FullTextSearch (fe_match fe) (fe_bm25 fe) (fe_ord fe) af
                 \<lparr>TQ_Text = SQ_Text q, TQ_Type = SQ_Type q, TQ_Limit = limit\<rparr> db of
                Inl e \<Rightarrow> if e \<noteq> ErrNotImplemented then Inl e else Inr []
              | Inr ft \<Rightarrow> Inr ft)
         (\<lambda>ft. svc_semantic sv af q limit ft db))"

section \<open>Inputs of a write\<close>

record create_input =
  CI_Type :: etype
  CI_Props :: rawmsg
  CI_ExternalIDs :: "external_id list"
  CI_Space :: space_id
  CI_Visibility :: visibility
  CI_Embeddings :: "embedding list"
  CI_Policy :: resolve_policy
  CI_DedupeKey :: string

record link_input =
  LI_Predicate :: predicate
  LI_From :: entity_id
  LI_To :: entity_id
  LI_Props :: rawmsg
  LI_Space :: space_id
  LI_Visibility :: visibility
  LI_DedupeKey :: string

definition svc_provenance :: "decision \<Rightarrow> provenance" where
  "svc_provenance d = \<lparr>Asserter = P_ID (Principal d), Method = Asserted, Source = D_Source d,
     Confidence = 0, AssertedAt = 0\<rparr>"

definition entityInput :: "decision \<Rightarrow> create_input \<Rightarrow> append_entity_input" where
  "entityInput d ci =
     \<lparr>AE_Candidate = entity0\<lparr>E_Type := CI_Type ci, E_Props := CI_Props ci, E_ExternalIDs := CI_ExternalIDs ci,
        E_Space := CI_Space ci, E_Owner := P_ID (Principal d), E_Visibility := CI_Visibility ci,
        E_Embeddings := CI_Embeddings ci, E_Provenance := svc_provenance d\<rparr>,
      AE_Writer = ''svc:'' @ P_ID (Principal d), AE_DedupeKey = CI_DedupeKey ci,
      AE_Actor = P_ID (Principal d), AE_Policy = CI_Policy ci\<rparr>"

definition edgeInput :: "decision \<Rightarrow> link_input \<Rightarrow> append_edge_input" where
  "edgeInput d li =
     \<lparr>AD_Edge = edge0\<lparr>D_Predicate := LI_Predicate li, D_From := LI_From li, D_To := LI_To li,
        D_Props := LI_Props li, D_Space := LI_Space li, D_Owner := P_ID (Principal d),
        D_Visibility := LI_Visibility li, D_Provenance := svc_provenance d\<rparr>,
      AD_Writer = ''svc:'' @ P_ID (Principal d), AD_DedupeKey = LI_DedupeKey li,
      AD_Actor = P_ID (Principal d)\<rparr>"

text \<open>The text that is embedded; the order of a Go map is not fixed, document order stands for it.\<close>

definition searchText :: "etype \<Rightarrow> rawmsg \<Rightarrow> string" where
  "searchText typ props = (case props of RawDoc j \<Rightarrow> extractSearchText j typ | _ \<Rightarrow> Join [typ] '' '')"

definition autoEmbed :: "service \<Rightarrow> create_input \<Rightarrow> create_input" where
  "autoEmbed sv ci = (case sv_embedder sv of
       None \<Rightarrow> ci
     | Some em \<Rightarrow>
         if CI_Embeddings ci \<noteq> [] then ci
         else
           let txt = searchText (CI_Type ci) (CI_Props ci) in
           if TrimSpace txt = [] then ci
           else (case em_Embed em [txt] of
               Inl e \<Rightarrow> ci
             | Inr [] \<Rightarrow> ci
             | Inr (v # vs) \<Rightarrow>
                 ci\<lparr>CI_Embeddings := [\<lparr>Model = em_Model em, Field = ''text'', Vector = v\<rparr>]\<rparr>))"

section \<open>Direct writes\<close>

definition svc_CreateEntity ::
    "service \<Rightarrow> env \<Rightarrow> string \<Rightarrow> create_input \<Rightarrow> db \<Rightarrow> db \<times> resolve_result \<times> gerr option" where
  "svc_CreateEntity sv env bearer ci db = (case auth sv bearer of
       Inl e \<Rightarrow> (db, result0, Some e)
     | Inr (d, af) \<Rightarrow>
         if \<not> am_CanWrite (sv_access sv) d (CI_Space ci) then (db, result0, Some ErrForbidden)
         else AppendEntityFact env (entityInput d (autoEmbed sv ci)) db)"

definition authorizeLink ::
    "(acl_filter \<Rightarrow> entity_id \<Rightarrow> entity res) \<Rightarrow> service \<Rightarrow> decision \<Rightarrow> acl_filter \<Rightarrow> link_input \<Rightarrow> unit res" where
  "authorizeLink getE sv d af li =
     (if \<not> am_CanWrite (sv_access sv) d (LI_Space li) then Inl ErrForbidden
      else rfold (\<lambda>e u. case getE af e of
             Inl err \<Rightarrow> if err_is err ErrNotFound then Inl ErrEndpointNotFound else Inl err
           | Inr _ \<Rightarrow> Inr ()) [LI_From li, LI_To li] ())"

definition svc_Link ::
    "service \<Rightarrow> env \<Rightarrow> string \<Rightarrow> link_input \<Rightarrow> db \<Rightarrow> db \<times> edge \<times> gerr option" where
  "svc_Link sv env bearer li db = (case auth sv bearer of
       Inl e \<Rightarrow> (db, edge0, Some e)
     | Inr (d, af) \<Rightarrow>
         (case authorizeLink (\<lambda>f e. GetEntity f e db) sv d af li of
            Inl e \<Rightarrow> (db, edge0, Some e)
          | Inr _ \<Rightarrow> AppendEdgeFact env (edgeInput d li) db))"

section \<open>Governed writes\<close>

text \<open>\<open>json.Marshal\<close> of a store input, as its later \<open>Unmarshal\<close> reads it.\<close>

definition marshal_entity_input :: "append_entity_input \<Rightarrow> proposal_payload res" where
  "marshal_entity_input inp =
     rbind (marshal_entity (AE_Candidate inp)) (\<lambda>pl.
     rbind (unmarshal_entity pl) (\<lambda>e. Inr (PPEntity (inp\<lparr>AE_Candidate := e\<rparr>))))"

definition marshal_edge_input :: "append_edge_input \<Rightarrow> proposal_payload res" where
  "marshal_edge_input inp =
     rbind (marshal_edge (AD_Edge inp)) (\<lambda>pl.
     rbind (unmarshal_edge pl) (\<lambda>e. Inr (PPEdge (inp\<lparr>AD_Edge := e\<rparr>))))"

definition held :: "fact_kind \<Rightarrow> decision \<Rightarrow> space_id \<Rightarrow> proposal_payload \<Rightarrow> proposal" where
  "held kind d space pl = \<lparr>PP_ID = [], PP_Kind = kind, PP_Proposer = P_ID (Principal d),
     PP_Space = space, PP_Payload = pl\<rparr>"

definition svc_ProposeEntity ::
    "service \<Rightarrow> env \<Rightarrow> string \<Rightarrow> create_input \<Rightarrow> db \<Rightarrow> db \<times> string \<times> gerr option" where
  "svc_ProposeEntity sv env bearer ci db = (case auth sv bearer of
       Inl e \<Rightarrow> (db, [], Some e)
     | Inr (d, af) \<Rightarrow>
         if \<not> am_CanWrite (sv_access sv) d (CI_Space ci) then (db, [], Some ErrForbidden)
         else (case marshal_entity_input (entityInput d (autoEmbed sv ci)) of
             Inl e \<Rightarrow> (db, [], Some e)
           | Inr pl \<Rightarrow> Propose env (held FactEntityAsserted d (CI_Space ci) pl) db))"

definition svc_ProposeLink ::
    "service \<Rightarrow> env \<Rightarrow> string \<Rightarrow> link_input \<Rightarrow> db \<Rightarrow> db \<times> string \<times> gerr option" where
  "svc_ProposeLink sv env bearer li db = (case auth sv bearer of
       Inl e \<Rightarrow> (db, [], Some e)
     | Inr (d, af) \<Rightarrow>
         (case authorizeLink (\<lambda>f e. GetEntity f e db) sv d af li of
            Inl e \<Rightarrow> (db, [], Some e)
          | Inr _ \<Rightarrow>
              (case marshal_edge_input (edgeInput d li) of
                 Inl e \<Rightarrow> (db, [], Some e)
               | Inr pl \<Rightarrow> Propose env (held FactEdgeAsserted d (LI_Space li) pl) db)))"

definition proposalSpace :: "string \<Rightarrow> db \<Rightarrow> space_id res" where
  "proposalSpace i db = (case find (\<lambda>p. PP_ID p = i) (ListProposals [] db) of
       None \<Rightarrow> Inl ErrNotFound
     | Some p \<Rightarrow> Inr (PP_Space p))"

definition svc_DecideProposal ::
    "service \<Rightarrow> env \<Rightarrow> string \<Rightarrow> string \<Rightarrow> bool \<Rightarrow> db \<Rightarrow> db \<times> resolve_result \<times> gerr option" where
  "svc_DecideProposal sv env bearer i approve db = (case auth sv bearer of
       Inl e \<Rightarrow> (db, result0, Some e)
     | Inr (d, af) \<Rightarrow>
         (case proposalSpace i db of
            Inl e \<Rightarrow> (db, result0, Some e)
          | Inr space \<Rightarrow>
              if \<not> am_CanApprove (sv_access sv) d space then (db, result0, Some ErrForbidden)
              else DecideProposal env i approve (P_ID (Principal d)) db))"

definition svc_ListProposals :: "service \<Rightarrow> string \<Rightarrow> space_id \<Rightarrow> db \<Rightarrow> proposal list res" where
  "svc_ListProposals sv bearer space db =
     rbind (auth sv bearer) (\<lambda>(d, af).
       Inr (filter (\<lambda>p. am_CanApprove (sv_access sv) d (PP_Space p)) (ListProposals space db)))"

section \<open>What the link gate relies on\<close>

locale entity_reads =
  fixes getE :: "acl_filter \<Rightarrow> entity_id \<Rightarrow> 's \<Rightarrow> entity res"
    and vis :: "acl_filter \<Rightarrow> 's \<Rightarrow> entity_id \<Rightarrow> bool"
  assumes found_iff: "(\<exists>v. getE af e s = Inr v) \<longleftrightarrow> vis af s e"
    and not_found: "getE af e s = Inl x \<Longrightarrow> x = ErrNotFound"
begin

lemma endpoint_gate:
  "authorizeLink (\<lambda>f e. getE f e s) sv d af li =
     (if \<not> am_CanWrite (sv_access sv) d (LI_Space li) then Inl ErrForbidden
      else if vis af s (LI_From li) \<and> vis af s (LI_To li) then Inr ()
      else Inl ErrEndpointNotFound)"
proof -
  have one: "(case getE af e s of Inl err \<Rightarrow> if err_is err ErrNotFound then Inl ErrEndpointNotFound else Inl err
      | Inr _ \<Rightarrow> Inr ()) = (if vis af s e then Inr () else Inl ErrEndpointNotFound)" for e
    using found_iff [of af e s] not_found [of af e s]
    by (cases "getE af e s") (auto simp: err_is_def)
  show ?thesis by (simp add: authorizeLink_def one)
qed

end

interpretation sq: entity_reads "\<lambda>af e db. GetEntity af e db" visible_id
proof unfold_locales
  show "(\<exists>v. GetEntity af e db = Inr v) \<longleftrightarrow> visible_id af db e" for af e db
    by (auto simp: GetEntity_def visible_id_def find_None_iff find_Some_iff split: option.split)
  show "x = ErrNotFound" if "GetEntity af e db = Inl x" for af e db x
    using that by (rule GetEntity_error)
qed

section \<open>Fusion\<close>

lemma image_snd_enumerate: "(\<lambda>p. h (snd p)) ` set (enumerate n xs) = h ` set xs"
  by (induction xs arbitrary: n) simp_all

lemma rrf_put_fst: "fst ` set (rrf_put e w xs) = insert (E_ID e) (fst ` set xs)"
  by (induction e w xs rule: rrf_put.induct) auto

lemma rrf_put_distinct: "distinct (map fst xs) \<Longrightarrow> distinct (map fst (rrf_put e w xs))"
  by (induction e w xs rule: rrf_put.induct) (auto simp: rrf_put_fst)

lemma rrf_put_ids:
  "\<forall>p \<in> set xs. E_ID (SE_Entity (snd p)) = fst p \<Longrightarrow>
     \<forall>p \<in> set (rrf_put e w xs). E_ID (SE_Entity (snd p)) = fst p"
  by (induction e w xs rule: rrf_put.induct) auto

definition rrf_ok :: "(entity_id \<times> scored_entity) list \<Rightarrow> bool" where
  "rrf_ok xs \<longleftrightarrow> distinct (map fst xs) \<and> (\<forall>p \<in> set xs. E_ID (SE_Entity (snd p)) = fst p)"

lemma rrf_foldl:
  assumes "rrf_ok acc"
  shows "rrf_ok (foldl (\<lambda>a p. rrf_put (SE_Entity (snd p)) (w p) a) acc ps) \<and>
    fst ` set (foldl (\<lambda>a p. rrf_put (SE_Entity (snd p)) (w p) a) acc ps) =
      fst ` set acc \<union> (\<lambda>p. E_ID (SE_Entity (snd p))) ` set ps"
  using assms
proof (induction ps arbitrary: acc)
  case Nil
  then show ?case by simp
next
  case (Cons p ps)
  have "rrf_ok (rrf_put (SE_Entity (snd p)) (w p) acc)"
    using Cons.prems rrf_put_distinct [of acc] rrf_put_ids [of acc "SE_Entity (snd p)" "w p"]
    by (simp add: rrf_ok_def)
  from Cons.IH [OF this] show ?case by (auto simp: rrf_put_fst)
qed

lemma rrf_list_spec:
  assumes "rrf_ok acc"
  shows "rrf_ok (rrf_list acc xs) \<and>
    fst ` set (rrf_list acc xs) = fst ` set acc \<union> (\<lambda>s. E_ID (SE_Entity s)) ` set xs"
  using rrf_foldl [OF assms, of "\<lambda>p. 1 / (60 + real (fst p))" "enumerate 0 xs"]
  by (simp add: rrf_list_def image_snd_enumerate [of "\<lambda>s. E_ID (SE_Entity s)"])

lemma rrf_lists_spec:
  assumes "rrf_ok acc"
  shows "rrf_ok (foldl rrf_list acc ls) \<and>
    fst ` set (foldl rrf_list acc ls) = fst ` set acc \<union> (\<lambda>s. E_ID (SE_Entity s)) ` (\<Union> (set ` set ls))"
  using assms
proof (induction ls arbitrary: acc)
  case Nil
  then show ?case by simp
next
  case (Cons xs ls)
  from rrf_list_spec [OF Cons.prems, of xs] Cons.IH [of "rrf_list acc xs"] show ?case by auto
qed

lemma rrf_put_sub:
  "p \<in> set (rrf_put e w xs) \<Longrightarrow> SE_Entity (snd p) = e \<or> p \<in> set xs"
  by (induction e w xs rule: rrf_put.induct) (auto split: if_splits)

lemma rrf_list_sub:
  assumes "p \<in> set (rrf_list acc xs)"
  shows "p \<in> set acc \<or> SE_Entity (snd p) \<in> SE_Entity ` set xs"
proof -
  have "p \<in> set (foldl (\<lambda>a p. rrf_put (SE_Entity (snd p)) (w p) a) acc ps) \<Longrightarrow>
      p \<in> set acc \<or> SE_Entity (snd p) \<in> (\<lambda>q. SE_Entity (snd q)) ` set ps" for w ps
  proof (induction ps arbitrary: acc)
    case Nil
    then show ?case by simp
  next
    case (Cons q ps)
    from Cons.IH [of "rrf_put (SE_Entity (snd q)) (w q) acc"] Cons.prems show ?case
      by (auto dest: rrf_put_sub)
  qed
  from this [of "\<lambda>p. 1 / (60 + real (fst p))" "enumerate 0 xs"] assms show ?thesis
    by (simp add: rrf_list_def image_snd_enumerate)
qed

lemma rrf_lists_sub:
  "p \<in> set (foldl rrf_list acc ls) \<Longrightarrow> p \<in> set acc \<or> (\<exists>xs \<in> set ls. SE_Entity (snd p) \<in> SE_Entity ` set xs)"
proof (induction ls arbitrary: acc)
  case Nil
  then show ?case by simp
next
  case (Cons xs ls)
  from Cons.IH [of "rrf_list acc xs"] Cons.prems show ?case by (auto dest: rrf_list_sub)
qed

lemma fuseRRF_sub:
  assumes "s \<in> set (fuseRRF limit ls)"
  shows "\<exists>xs \<in> set ls. SE_Entity s \<in> SE_Entity ` set xs"
proof -
  from assms obtain i where "(i, s) \<in> set (foldl rrf_list [] ls)"
    using set_cap by (fastforce simp: fuseRRF_def)
  from rrf_lists_sub [OF this] show ?thesis by simp
qed

end
