(* ===== verification/Jdx_Governance.thy ===== *)
theory Jdx_Governance
  imports Jdx_Machine Jdx_Identity
begin

text \<open>
  What holding a write as a proposal promises (\<open>proposals.go\<close>): nothing happens to the graph until a
  proposal is approved, it is decided once, and an approval writes what the direct write
  would have written. The last needs that no statement of a write reads or touches the proposals.
\<close>

section \<open>Writes do not see proposals\<close>

abbreviation with_proposals :: "proposal_row list \<Rightarrow> db \<Rightarrow> db" where
  "with_proposals ps db \<equiv> db\<lparr>proposals := ps\<rparr>"

definition blind :: "(db \<Rightarrow> db res) \<Rightarrow> bool" where
  "blind f \<longleftrightarrow> (\<forall>ps db. f (with_proposals ps db) = map_sum id (with_proposals ps) (f db))"

lemma blind_bind: "blind f \<Longrightarrow> blind g \<Longrightarrow> blind (\<lambda>d. rbind (f d) g)"
  by (auto simp: blind_def rbind_def split: sum.split)

lemma blind_rfold: "(\<And>x. blind (f x)) \<Longrightarrow> blind (rfold f xs)"
proof (induction xs)
  case Nil
  then show ?case by (simp add: blind_def)
next
  case (Cons x xs)
  then show ?case using blind_bind [of "f x" "rfold f xs"] by simp
qed

lemma blind_frame [simp]:
  "has_entity (with_proposals ps db) = has_entity db"
  "get_entity_row (with_proposals ps db) = get_entity_row db"
  "getEntityByID (with_proposals ps db) = getEntityByID db"
  "getEdgeByID (with_proposals ps db) = getEdgeByID db"
  "prior_subject k w dk (with_proposals ps db) = prior_subject k w dk db"
  "externalHitsTx sp ks (with_proposals ps db) = externalHitsTx sp ks db"
  "resolveNeighbors p h c (with_proposals ps db) = resolveNeighbors p h c db"
  by (auto simp: fun_eq_iff has_entity_def get_entity_row_def getEntityByID_def getEdgeByID_def load_row_def
      loadEntityChildren_def prior_subject_def externalHitsTx_def resolveNeighbors_def knnByModel_def
      knn_rows_def split: option.split list.split)

lemma blind_statements:
  "blind (insert_entity r)" "blind (insert_ext_or_ignore x)" "blind (insert_emb_or_replace m)"
  "blind (insert_edge_or_replace d)" "blind (insertFact nid kind sub w dk pl ac ts)"
  "blind (\<lambda>db. Inr (update_entity e g db))" "blind (\<lambda>db. Inr (syncEntityFTS e db))"
  by (auto simp: blind_def insert_entity_def insert_ext_or_ignore_def insert_emb_or_replace_def
      insert_edge_or_replace_def insertFact_def update_entity_def syncEntityFTS_def insert_fts_def
      delete_fts_def split: option.split)

lemma blind_const: "blind (\<lambda>d. Inl e)"
  by (simp add: blind_def)

lemma blind_res: "(\<And>x. blind (f x)) \<Longrightarrow> blind (\<lambda>d. rbind r (\<lambda>x. f x d))"
  by (cases r) (simp_all add: blind_def)

lemma blind_if: "blind f \<Longrightarrow> blind g \<Longrightarrow> (\<And>ps d. P (with_proposals ps d) = P d) \<Longrightarrow> blind (\<lambda>d. if P d then f d else g d)"
  by (simp add: blind_def)

lemma blind_upsert_row: "blind (upsert_row e ts)"
  unfolding upsert_row_def [abs_def] Let_def
  by (intro blind_if blind_res blind_statements) simp_all

lemma blind_upsertEntitySnapshot: "blind (upsertEntitySnapshot e ts)"
  unfolding upsertEntitySnapshot_def [abs_def]
  by (intro blind_bind blind_upsert_row blind_rfold blind_statements)

lemma blind_upsertEdgeSnapshot: "blind (upsertEdgeSnapshot d ts)"
  unfolding upsertEdgeSnapshot_def [abs_def] by (intro blind_res blind_statements)

lemma blind_appendEntityFact: "blind (appendEntityFact nid e w dk ac ts)"
  unfolding appendEntityFact_def [abs_def] by (intro blind_res blind_statements)

lemma blind_merge_statements:
  "blind (\<lambda>db. move_ext k g (db\<lparr>entity_external_ids := del_dups xr_entity xr_key k g (entity_external_ids db)\<rparr>))"
  "blind (\<lambda>db. move_labels k g (db\<lparr>entity_labels := del_dups fst snd k g (entity_labels db)\<rparr>))"
  "blind (\<lambda>db. move_emb k g (db\<lparr>embeddings := del_dups mr_entity mr_key k g (embeddings db)\<rparr>))"
  "blind (repoint_from k g)" "blind (repoint_to k g)"
  "blind (\<lambda>db. Inr (update_entity k f (delete_fts g (delete_entity g db))))"
  by (auto simp: blind_def move_ext_def move_labels_def move_emb_def repoint_from_def repoint_to_def
      delete_fts_def delete_entity_def update_entity_def has_entity_def Let_def)

lemma blind_mergeEntitiesTx: "blind (mergeEntitiesTx k g ts)"
  unfolding mergeEntitiesTx_def [abs_def] Let_def
  by (intro blind_if blind_bind blind_merge_statements) (simp_all add: blind_def)

lemma blind_merge_one: "blind (merge_one env k dk ts inp keep p)"
  unfolding merge_one_def [abs_def] appendMergeFact_def [abs_def]
  by (intro blind_bind blind_mergeEntitiesTx blind_statements)

text \<open>The same for transactions that also return a value.\<close>

definition blind_val :: "(db \<Rightarrow> (db \<times> 'a) res) \<Rightarrow> bool" where
  "blind_val f \<longleftrightarrow> (\<forall>ps db. f (with_proposals ps db) = map_sum id (\<lambda>(d, x). (with_proposals ps d, x)) (f db))"

lemma blind_val_bind: "blind f \<Longrightarrow> blind_val g \<Longrightarrow> blind_val (\<lambda>d. rbind (f d) g)"
  by (auto simp: blind_def blind_val_def rbind_def split: sum.split)

lemma blind_val_then:
  "blind_val f \<Longrightarrow> (\<And>x. blind_val (\<lambda>d. g (d, x))) \<Longrightarrow> blind_val (\<lambda>d. rbind (f d) g)"
  by (auto simp: blind_val_def rbind_def split: sum.split)

lemma blind_val_res: "(\<And>x. blind_val (f x)) \<Longrightarrow> blind_val (\<lambda>d. rbind r (\<lambda>x. f x d))"
  by (cases r) (simp_all add: blind_val_def)

lemma blind_val_read:
  "(\<And>ps d. r (with_proposals ps d) = r d) \<Longrightarrow> (\<And>x. blind_val (f x)) \<Longrightarrow> blind_val (\<lambda>d. rbind (r d) (\<lambda>x. f x d))"
  by (auto simp: blind_val_def rbind_def split: sum.split)

lemma blind_val_const: "blind_val (\<lambda>d. Inr (d, x))"
  by (simp add: blind_val_def)

lemma blind_val_if: "blind_val f \<Longrightarrow> blind_val g \<Longrightarrow> blind_val (\<lambda>d. if b then f d else g d)"
  by (cases b) simp_all

lemmas blind_parts = blind_val_bind blind_val_res blind_val_const blind_val_if blind_upsertEntitySnapshot
  blind_upsertEdgeSnapshot blind_appendEntityFact blind_statements blind_rfold blind_merge_one

lemma blind_attach_to: "blind_val (attach_to env k dk ts inp c t)"
  unfolding attach_to_def [abs_def] Let_def by (intro blind_parts)

lemma blind_insert_new: "blind_val (insert_new env k dk ts inp c d)"
  unfolding insert_new_def [abs_def] Let_def by (intro blind_parts)

lemma blind_apply_decision: "blind_val (apply_decision env k dk ts inp c d)"
  by (cases "Action d")
     (simp_all add: apply_decision_def [abs_def] merge_all_def [abs_def] blind_insert_new blind_attach_to
       blind_val_bind blind_rfold blind_merge_one)

lemma blind_append_resolved: "blind_val (append_resolved env k dk ts inp p c)"
proof -
  have g: "blind_val (\<lambda>db. rbind (getEntityByID (fst (db, e)) (snd (db, e))) (\<lambda>ent. Inr (fst (db, e), h ent)))" for e and h :: "entity \<Rightarrow> resolve_result"
    by (auto simp: blind_val_def rbind_def split: sum.split)
  have a: "blind_val (\<lambda>db. rbind (apply_decision env k dk ts inp c d db) (\<lambda>p. rbind (getEntityByID (fst p) (snd p))
      (\<lambda>ent. Inr (fst p, h ent))))" for d and h :: "entity \<Rightarrow> resolve_result"
    by (intro blind_val_then blind_apply_decision g)
  show ?thesis
    unfolding append_resolved_def [abs_def] Let_def by (intro blind_val_read a) simp_all
qed

lemma AppendEntityFact_blind:
  "AppendEntityFact env inp (with_proposals ps db) =
     (case AppendEntityFact env inp db of (db', r, e) \<Rightarrow> (with_proposals ps db', r, e))"
  using blind_append_resolved [unfolded blind_val_def]
  by (auto simp: AppendEntityFact_def Let_def split: option.split sum.split)

lemma AppendEdgeFact_blind:
  "AppendEdgeFact env inp (with_proposals ps db) =
     (case AppendEdgeFact env inp db of (db', r, e) \<Rightarrow> (with_proposals ps db', r, e))"
proof -
  have "blind_val (\<lambda>db. rbind (getEdgeByID db i) (\<lambda>out. Inr (db, out)))" for i
    by (auto simp: blind_val_def rbind_def split: sum.split)
  then have "blind_val (append_edge_tx env dk ts inp ed)" for dk ts ed
    unfolding append_edge_tx_def [abs_def] Let_def by (intro blind_parts)
  then show ?thesis
    unfolding blind_val_def by (auto simp: AppendEdgeFact_def Let_def split: option.split sum.split)
qed

section \<open>The row of a decided proposal\<close>

lemma update_pending_with: "update_pending i st ts b db = with_proposals (map (decide_row i st ts b) (proposals db)) db"
  by (simp add: update_pending_def decide_row_def [abs_def])

lemma get_proposal_decide:
  assumes "get_proposal db i = Some p"
  shows "get_proposal (update_pending i st ts b db) i = Some (decide_row i st ts b p)"
  using assms by (simp add: get_proposal_def proposals_update_pending lookup_row_map)

lemma get_proposal_frame: "proposals db' = proposals db \<Longrightarrow> get_proposal db' i = get_proposal db i"
  by (simp add: get_proposal_def)

lemma get_proposal_subject:
  assumes "get_proposal db i = Some p"
  shows "get_proposal (set_result_subject i s db) i = Some (p\<lparr>pr_result_subject := Some s\<rparr>)"
proof -
  from assms have "pr_id p = i" by (auto simp: get_proposal_def dest: lookup_row_SomeD)
  with assms show ?thesis by (simp add: get_proposal_def set_result_subject_def lookup_row_map)
qed

lemma decided_row:
  assumes "get_proposal db i = Some p" and "pr_status p = StPending"
  shows "decide_row i st ts b p = p\<lparr>pr_status := st, pr_decided_at := Some ts, pr_decided_by := Some b\<rparr>"
  using assms by (auto simp: decide_row_def get_proposal_def dest: lookup_row_SomeD)

lemma graph_with_proposals [simp]: "graph (with_proposals ps db) = graph db"
  by (simp add: graph_def)

lemma DecideProposal_row:
  assumes "get_proposal db i = Some p"
  shows "\<exists>q. get_proposal (fst (DecideProposal env i approve a db)) i = Some q \<and> pr_status q \<noteq> StPending \<and>
    (pr_status p = StPending \<longrightarrow> pr_decided_by q = Some a)"
proof (cases rule: DecideProposal_cases [of db i env approve a])
  case missing
  with assms show ?thesis by simp
next
  case (decided q)
  with assms show ?thesis by simp
next
  case (rejected q)
  then show ?thesis using get_proposal_decide [OF rejected(1)] decided_row [OF rejected(1,2)] by simp
next
  case (failed q db' r s e)
  let ?db1 = "update_pending i StPromoted (fmtTS (env_now env 0)) a db"
  have "proposals db' = proposals ?db1" using replay_intent_proposals failed(4) by (metis fst_conv)
  then show ?thesis
    using get_proposal_decide [OF failed(1)] decided_row [OF failed(1,2)] failed(5)
    by (simp add: get_proposal_frame [of db' ?db1])
next
  case (promoted q db' r s)
  let ?db1 = "update_pending i StPromoted (fmtTS (env_now env 0)) a db"
  have "proposals db' = proposals ?db1" using replay_intent_proposals promoted(4) by (metis fst_conv)
  then have "get_proposal db' i = Some (decide_row i StPromoted (fmtTS (env_now env 0)) a q)"
    using get_proposal_decide [OF promoted(1)] by (simp add: get_proposal_frame [of db' ?db1])
  from get_proposal_subject [OF this] decided_row [OF promoted(1,2)] promoted(5) show ?thesis by simp
qed

section \<open>Properties\<close>

text \<open>The proposal of the witnesses: the sample write, held for approval.\<close>

definition sample_proposal :: proposal_row where
  "sample_proposal = \<lparr>pr_id = ''p1'', pr_kind = FactEntityAsserted, pr_proposer = ''kate'', pr_space = ''home'',
     pr_payload = PPEntity sample_write, pr_status = StPending, pr_created_at = (0, ''Z''), pr_decided_at = None,
     pr_decided_by = None, pr_result_subject = None\<rparr>"

definition sample_held_db :: db where
  "sample_held_db = with_proposals [sample_proposal] sample_db"

lemma sample_held: "get_proposal sample_held_db ''p1'' = Some sample_proposal"
  by (simp add: get_proposal_def sample_held_db_def sample_proposal_def lookup_row_def)

lemma sample_held_sel [simp]:
  "pr_status sample_proposal = StPending" "pr_kind sample_proposal = FactEntityAsserted"
  "pr_payload sample_proposal = PPEntity sample_write"
  by (simp_all add: sample_proposal_def)

text \<open>C21: A proposal is decided once. Whatever the first decision was, and whether or not applying it
  succeeded, every later decision of the same proposal is a conflict and changes nothing.\<close>

theorem decided_once:
  assumes "get_proposal db i = Some p"
  shows "DecideProposal env' i approve' a' (fst (DecideProposal env i approve a db)) =
    (fst (DecideProposal env i approve a db), result0, Some ErrConflict)"
proof -
  from DecideProposal_row [OF assms] obtain q where
    "get_proposal (fst (DecideProposal env i approve a db)) i = Some q" "pr_status q \<noteq> StPending" by blast
  then show ?thesis by (simp add: DecideProposal_def)
qed

theorem decided_once_witness:
  "DecideProposal sample_write_env ''p1'' True ''zoe'' (fst (DecideProposal sample_write_env ''p1'' False ''kate'' sample_held_db)) =
    (fst (DecideProposal sample_write_env ''p1'' False ''kate'' sample_held_db), result0, Some ErrConflict)"
  by (rule decided_once [OF sample_held])

text \<open>Holding and rejecting leave the graph alone: neither touches a fact, an entity, an external
  id, an embedding, an edge or the full-text rows.\<close>

theorem held_writes_nothing:
  "graph (fst (Propose env p db)) = graph db \<and> graph (fst (DecideProposal env i False a db)) = graph db"
proof
  show "graph (fst (Propose env p db)) = graph db" by (simp add: Propose_def Let_def graph_def)
  show "graph (fst (DecideProposal env i False a db)) = graph db"
    by (cases rule: DecideProposal_cases [of db i env False a]) simp_all
qed

lemma approve_writes:
  assumes "get_proposal db i = Some p" and "pr_status p = StPending" and "pr_kind p = FactEntityAsserted"
    and "pr_payload p = PPEntity inp" and "AppendEntityFact (later 1 env) inp db = (db1, r, e)"
    and "e = None \<or> e = Some ErrDuplicateFact"
  shows "\<exists>db'. DecideProposal env i True a db = (db', r, None) \<and> graph db' = graph db1 \<and>
    get_proposal db' i = Some (p\<lparr>pr_status := StPromoted, pr_decided_at := Some (fmtTS (env_now env 0)),
      pr_decided_by := Some a, pr_result_subject := Some (E_ID (RR_Entity r))\<rparr>)"
proof -
  let ?ps = "map (decide_row i StPromoted (fmtTS (env_now env 0)) a) (proposals db)"
  have w: "AppendEntityFact (later 1 env) inp (with_proposals ?ps db) = (with_proposals ?ps db1, r, e)"
    using assms(5) by (simp add: AppendEntityFact_blind)
  have d: "DecideProposal env i True a db =
      (set_result_subject i (E_ID (RR_Entity r)) (with_proposals ?ps db1), r, None)"
    using assms(1-4,6) w by (auto simp: DecideProposal_def Let_def replay_intent_def update_pending_with)
  have "get_proposal (with_proposals ?ps db1) i = Some (decide_row i StPromoted (fmtTS (env_now env 0)) a p)"
    using get_proposal_decide [OF assms(1)] by (simp add: get_proposal_def proposals_update_pending)
  from get_proposal_subject [OF this] d decided_row [OF assms(1,2)] show ?thesis by simp
qed





end
