(* ===== verification/Jdx_History.thy ===== *)
theory Jdx_History
  imports Jdx_Governance
begin

text \<open>
  What holds of every history of the store: the tables stay consistent, the log only grows and
  says who wrote what, and the projection can be rebuilt from it.
\<close>

section \<open>Who wrote the new facts\<close>

definition attributed :: "writer_id \<Rightarrow> principal_id \<Rightarrow> db \<Rightarrow> db \<Rightarrow> bool" where
  "attributed w a db db' \<longleftrightarrow>
     (\<exists>new. facts db' = facts db @ new \<and> (\<forall>f \<in> set new. f_writer f = w \<and> f_actor f = a))"

lemma attributed_same: "facts db' = facts db \<Longrightarrow> attributed w a db db'"
  by (simp add: attributed_def)

lemma attributed_trans: "attributed w a db db1 \<Longrightarrow> attributed w a db1 db2 \<Longrightarrow> attributed w a db db2"
  by (fastforce simp: attributed_def)

lemma attributed_insertFact:
  assumes "insertFact nid kind sub w dk pl a ts db1 = Inr db'" and "facts db1 = facts db"
  shows "attributed w a db db'"
  using assms(1) by (rule insertFactE) (auto simp: attributed_def assms(2))

lemma attributed_entity:
  assumes "upsertEntitySnapshot e ts db = Inr db1" and "appendEntityFact nid e w dk a ts db1 = Inr db'"
  shows "attributed w a db db'"
  using assms(2)
  by (rule appendEntityFactE)
     (erule attributed_insertFact, simp add: upsertEntitySnapshot_proposals [OF assms(1)])

lemma attributed_edge:
  assumes "upsertEdgeSnapshot ed ts db = Inr db1" and "insertFact nid FactEdgeAsserted sub w dk pl a ts db1 = Inr db'"
  shows "attributed w a db db'"
  using assms(2) by (rule attributed_insertFact) (simp add: upsertEdgeSnapshot_proposals [OF assms(1)])

lemma attributed_insert_new:
  assumes "insert_new env k dk ts inp cand0 d db = Inr (db', eid)"
  shows "attributed (AE_Writer inp) (AE_Actor inp) db db'"
  using assms
proof (cases rule: insert_newE)
  case (plain db1)
  from plain(2,3) show ?thesis by (rule attributed_entity)
next
  case (flagged db1 db2 db3 ed pl)
  from attributed_entity [OF flagged(2,3)] attributed_edge [OF flagged(7,9)] show ?thesis
    by (rule attributed_trans)
qed

lemma attributed_attach_to:
  assumes "attach_to env k dk ts inp cand0 target db = Inr (db', eid)"
  shows "attributed (AE_Writer inp) (AE_Actor inp) db db'"
  using assms by (rule attach_toE) (rule attributed_entity)

lemma attributed_merge_all:
  assumes "merge_all env k dk ts inp cand0 keep targets db = Inr (db', eid)"
  shows "attributed (AE_Writer inp) (AE_Actor inp) db db'"
proof -
  from assms obtain db1 where
    m: "rfold (merge_one env k dk ts inp keep) (enumerate 0 (drop 1 targets)) db = Inr db1" and
    a: "attach_to env (k + length (drop 1 targets)) dk ts inp cand0 keep db1 = Inr (db', eid)"
    by (auto simp: merge_all_def elim!: rbindE)
  have "attributed (AE_Writer inp) (AE_Actor inp) db db1"
  proof (rule rfold_invariant [OF m])
    show "attributed (AE_Writer inp) (AE_Actor inp) db db" by (simp add: attributed_same)
    fix p s t
    assume s: "attributed (AE_Writer inp) (AE_Actor inp) db s" and "merge_one env k dk ts inp keep p s = Inr t"
    then have "attributed (AE_Writer inp) (AE_Actor inp) s t"
      by (auto simp: merge_one_def appendMergeFact_def mergeEntitiesTx_proposals elim!: rbindE
          intro: attributed_insertFact)
    with s show "attributed (AE_Writer inp) (AE_Actor inp) db t" by (rule attributed_trans)
  qed
  then show ?thesis using attributed_attach_to [OF a] by (rule attributed_trans)
qed

lemma attributed_AppendEntityFact:
  "attributed (AE_Writer inp) (AE_Actor inp) db (fst (AppendEntityFact env inp db))"
proof (cases rule: AppendEntityFact_cases [of env inp db])
  case (unchanged r e)
  then show ?thesis by (simp add: attributed_same)
next
  case (appended db' r cand)
  from appended(3) have "attributed (AE_Writer inp) (AE_Actor inp) db db'"
  proof (rule append_resolvedE)
    fix d eid ent
    assume "apply_decision env (snd (entity_dedupe_key env inp)) (fst (entity_dedupe_key env inp)) (env_now env 1)
      inp cand d db = Inr (db', eid)"
    then show ?thesis
      by (cases "Action d")
         (auto simp: apply_decision_def intro: attributed_insert_new attributed_attach_to attributed_merge_all)
  qed
  with appended(1) show ?thesis by simp
qed

lemma attributed_AppendEdgeFact:
  "attributed (AD_Writer inp) (AD_Actor inp) db (fst (AppendEdgeFact env inp db))"
proof (cases rule: AppendEdgeFact_cases [of env inp db])
  case (unchanged r e)
  then show ?thesis by (simp add: attributed_same)
next
  case (appended db' out ed)
  from appended(3) show ?thesis
    by (rule append_edge_txE) (use appended(1) in \<open>auto intro: attributed_edge\<close>)
qed

section \<open>The log only grows\<close>

definition grows :: "db \<Rightarrow> db \<Rightarrow> bool" where
  "grows db db' \<longleftrightarrow> (\<exists>new. facts db' = facts db @ new)"

lemma grows_same: "facts db' = facts db \<Longrightarrow> grows db db'"
  by (simp add: grows_def)

lemma grows_trans: "grows a b \<Longrightarrow> grows b c \<Longrightarrow> grows a c"
  by (fastforce simp: grows_def)

lemma grows_attributed: "attributed w a db db' \<Longrightarrow> grows db db'"
  by (auto simp: attributed_def grows_def)

lemma grows_extends: "extends db db' \<Longrightarrow> grows db db'"
  by (auto simp: extends_def grows_def)

lemma grows_replay_intent: "grows db (fst (replay_intent env kind pl db))"
  using grows_attributed [OF attributed_AppendEntityFact, of db env]
    grows_attributed [OF attributed_AppendEdgeFact, of db env] grows_same [of db db]
  by (auto simp: replay_intent_def Let_def case_prod_beta split: fact_kind.split proposal_payload.split)

lemma grows_DecideProposal: "grows db (fst (DecideProposal env i approve a db))"
proof (cases rule: DecideProposal_cases [of db i env approve a])
  case (failed p db' r s e)
  with grows_replay_intent [of "update_pending i StPromoted (fmtTS (env_now env 0)) a db" "later 1 env" "pr_kind p" "pr_payload p"]
  show ?thesis by (simp add: grows_def)
next
  case (promoted p db' r s)
  with grows_replay_intent [of "update_pending i StPromoted (fmtTS (env_now env 0)) a db" "later 1 env" "pr_kind p" "pr_payload p"]
  show ?thesis by (simp add: grows_def)
qed (simp_all add: grows_same)

lemma grows_store_step: "store_step ok db db' \<Longrightarrow> grows db db'"
proof (induction rule: store_step.induct)
  case (rebuild db)
  show ?case
    by (rule grows_same) (auto simp: RebuildProjection_def commit_def rebuild_tx_log split: sum.split)
next
  case (propose p db env)
  show ?case by (rule grows_same) (simp add: Propose_def Let_def)
qed (auto intro: grows_attributed [OF attributed_AppendEntityFact] grows_attributed [OF attributed_AppendEdgeFact]
     grows_extends extends_MergeEntities extends_RetractEntity extends_RetractEdge grows_DecideProposal)

lemma foldl_max_upt: "foldl max 0 [1..<Suc n] = n"
  by (induction n) (auto simp: foldl_append)

lemma ProjectionHead_length: "wf_db db \<Longrightarrow> ProjectionHead db = length (facts db)"
  unfolding ProjectionHead_def using foldl_max_upt [of "length (facts db)"]
  by (simp add: wf_db_def wf_tables_def log_ok_def del: upt_Suc)

section \<open>Properties\<close>

text \<open>The history of the witnesses: one assertion with properties, on the migrated database.\<close>

definition history_write :: append_entity_input where
  "history_write = sample_write\<lparr>AE_Candidate := (AE_Candidate sample_write)\<lparr>E_Props := RawDoc (JObj [(''name'', JStr ''Alien'')])\<rparr>\<rparr>"

lemma history_write_doc: "doc_props (AE_Candidate history_write)"
  by (simp add: history_write_def doc_props_def)

lemma history_write_plain:
  "AppendEntityFact sample_write_env history_write db = append_plain sample_write_env history_write db"
  by (rule AppendEntityFact_plain) (simp add: history_write_def sample_write_def sample_cand_def)

lemma history_step:
  "store_step (\<lambda>inp. doc_props (AE_Candidate inp)) empty_db (fst (append_plain sample_write_env history_write empty_db))"
  using append_entity [of "\<lambda>inp. doc_props (AE_Candidate inp)" history_write empty_db sample_write_env] history_write_doc
  by (simp add: history_write_plain)

lemma history_reachable:
  "reachable (\<lambda>inp. doc_props (AE_Candidate inp)) (fst (append_plain sample_write_env history_write empty_db))"
  by (rule step [OF opened history_step])

text \<open>C8: The tables of every reachable database are consistent: entity ids are unique; an external id
  names at most one entity of a space; external ids, embeddings and both ends of every edge belong
  to entities that exist; every entity has its current text in the search table; the log is
  numbered without gaps and no writer used a dedupe key twice.\<close>

theorem reachable_consistent:
  assumes "reachable ok db"
  shows "distinct (map er_id (entities db)) \<and>
    distinct (map (\<lambda>x. (xr_space x, xr_key x)) (entity_external_ids db)) \<and>
    xr_entity ` set (entity_external_ids db) \<subseteq> er_id ` set (entities db) \<and>
    mr_entity ` set (embeddings db) \<subseteq> er_id ` set (entities db) \<and>
    dr_from ` set (edges db) \<union> dr_to ` set (edges db) \<subseteq> er_id ` set (entities db) \<and>
    (\<lambda>r. (er_id r, extractSearchText (er_props r) (er_type r))) ` set (entities db) \<subseteq> set (entities_fts db) \<and>
    map f_seq (facts db) = [1..<Suc (length (facts db))] \<and>
    distinct (map (\<lambda>f. (f_writer f, f_dedupe f)) (facts db))"
proof -
  have "wf_db db" by (rule wf_reachable [OF assms])
  then show ?thesis
    by (simp add: fts_row_def [symmetric] wf_db_def wf_tables_def entities_ok_def ext_ok_def emb_ok_def edges_ok_def fts_ok_def log_ok_def ids_def
        image_subset_iff del: upt_Suc)
qed

theorem reachable_consistent_witness:
  "map f_seq (facts (fst (append_plain sample_write_env history_write empty_db))) = [1] \<and>
   length (entity_external_ids (fst (append_plain sample_write_env history_write empty_db))) = 2 \<and>
   (\<lambda>r. (er_id r, extractSearchText (er_props r) (er_type r))) ` set (entities (fst (append_plain sample_write_env history_write empty_db)))
     \<subseteq> set (entities_fts (fst (append_plain sample_write_env history_write empty_db)))"
proof -
  have "length (facts (fst (append_plain sample_write_env history_write empty_db))) = 1 \<and>
    length (entity_external_ids (fst (append_plain sample_write_env history_write empty_db))) = 2" by code_simp
  with reachable_consistent [OF history_reachable] show ?thesis by simp
qed



lemma rebuild_one:
  assumes "facts db = [f]" and "f_created_at f = fmtTS t"
  shows "rebuild_tx db = foldFact (f_kind f) (f_subject f) (f_payload f) t (clear_projection db)"
  using assms by (simp add: rebuild_tx_def fold_row_def rbind_def split: sum.split)

text \<open>Without a property bag the rebuild is not faithful. An entity asserted with no properties is
  stored with the empty object, but its fact says null: after a rebuild the stored properties
  of the same entity are null.\<close>

theorem rebuild_changes_missing_props:
  "\<exists>db db'. reachable (\<lambda>inp. True) db \<and> RebuildProjection db = (db', None) \<and>
     map er_id (entities db') = map er_id (entities db) \<and>
     map er_props (entities db) = [JObj []] \<and> map er_props (entities db') = [JNull]"
proof -
  let ?db = "fst (append_plain sample_write_env sample_write empty_db)"
  have r: "reachable (\<lambda>inp. True) ?db"
    using step [OF opened append_entity [of "\<lambda>inp. True" sample_write empty_db sample_write_env]]
    by (simp add: AppendEntityFact_plain sample_write_def sample_cand_def)
  let ?f = "hd (facts ?db)"
  let ?e = "(AE_Candidate sample_write)\<lparr>E_ID := ''n'', E_Props := RawDoc JNull,
    E_Provenance := normalizeProvenance (E_Provenance (AE_Candidate sample_write)) 7\<rparr>"
  let ?r = "upsertEntitySnapshot ?e 7 (clear_projection ?db)"
  have f: "length (facts ?db) = 1 \<and> f_created_at ?f = fmtTS 7 \<and> f_kind ?f = FactEntityAsserted" by code_simp
  have "f_payload ?f = PEntity ?e" by code_simp
  with f have "rebuild_tx ?db = ?r"
    by (subst rebuild_one [of _ ?f 7]) (cases "facts ?db"; simp add: foldFact_def unmarshal_entity_def)+
  moreover have "case ?r of Inl e \<Rightarrow> False | Inr db' \<Rightarrow> map er_id (entities db') = [''n''] \<and>
      map er_props (entities db') = [JNull]" by code_simp
  moreover have "map er_id (entities ?db) = [''n'']" by code_simp
  moreover have "map er_props (entities ?db) = [JObj []]" by code_simp
  ultimately obtain db' where "rebuild_tx ?db = Inr db'" "map er_id (entities db') = map er_id (entities ?db)"
      "map er_props (entities db') = [JNull]" "map er_props (entities ?db) = [JObj []]"
    by (auto split: sum.splits)
  with r show ?thesis by (intro exI [of _ ?db] exI [of _ db']) (simp add: RebuildProjection_def commit_def)
qed

text \<open>C27: The log is append-only. Whatever operations follow, the facts written so far stay the first
  ones of the log, unchanged, and the projection head is the number of facts.\<close>

theorem log_append_only:
  assumes "reachable ok db" and "(store_step ok)\<^sup>*\<^sup>* db db'"
  shows "take (length (facts db)) (facts db') = facts db \<and> ProjectionHead db' = length (facts db')"
proof -
  from assms(2) have "grows db db' \<and> reachable ok db'"
  proof (induction rule: rtranclp_induct)
    case base
    then show ?case using assms(1) by (simp add: grows_same)
  next
    case (step y z)
    then show ?case using grows_trans [OF _ grows_store_step] reachable.step by blast
  qed
  then show ?thesis by (auto simp: grows_def ProjectionHead_length wf_reachable)
qed

theorem log_append_only_witness:
  "ProjectionHead (fst (append_plain sample_write_env history_write empty_db)) = 1"
proof -
  have "length (facts (fst (append_plain sample_write_env history_write empty_db))) = 1" by code_simp
  with log_append_only [OF opened r_into_rtranclp [of "store_step _", OF history_step]] show ?thesis by simp
qed

text \<open>C28: Every fact says who wrote it. An assertion, its merges and its review flag included, appends
  facts of its own writer and actor only, and so does a link.\<close>

theorem writes_are_attributed:
  "(\<exists>new. facts (fst (AppendEntityFact env inp db)) = facts db @ new \<and>
      (\<forall>f \<in> set new. f_writer f = AE_Writer inp \<and> f_actor f = AE_Actor inp)) \<and>
   (\<exists>new. facts (fst (AppendEdgeFact env einp db)) = facts db @ new \<and>
      (\<forall>f \<in> set new. f_writer f = AD_Writer einp \<and> f_actor f = AD_Actor einp))"
  using attributed_AppendEntityFact [of inp db env] attributed_AppendEdgeFact [of einp db env]
  unfolding attributed_def by (rule conjI)

theorem writes_are_attributed_witness:
  "map f_actor (facts (fst (append_plain sample_write_env history_write empty_db))) = [''kate'']"
proof -
  have a: "AE_Actor history_write = ''kate''" by (simp add: history_write_def sample_write_def)
  have l: "length (facts (fst (append_plain sample_write_env history_write empty_db))) = 1" by code_simp
  from conjunct1 [OF writes_are_attributed [where env = sample_write_env and inp = history_write and db = empty_db], unfolded history_write_plain]
  obtain new where n: "facts (fst (append_plain sample_write_env history_write empty_db)) = new"
    "\<forall>f \<in> set new. f_actor f = ''kate''" by (auto simp: a empty_db_def)
  with l show ?thesis by (cases new) auto
qed

end
