(* ===== verification/Jdx_Boundary.thy ===== *)
theory Jdx_Boundary
  imports Jdx_Service Jdx_History
begin

text \<open>
  What the service guarantees to the outside: who may read, write and approve, end to end from
  the bearer to the rows. The lemmas compose the access model, the service and the adapter.
\<close>

section \<open>Only visible rows leave the store\<close>

lemma rmap_memD: "rmap f xs = Inr ys \<Longrightarrow> y \<in> set ys \<Longrightarrow> \<exists>x \<in> set xs. f x = Inr y"
  by (induction xs arbitrary: ys) (auto elim!: rbindE)

lemma Neighbors_visible:
  assumes "wf_tables db" and "order_only ord" and "Neighbors ord af q db = Inr sg"
  shows "(\<forall>v \<in> set (SG_Entities sg). \<exists>r \<in> set (entities db). node_visible af r \<and> v = load_row db r) \<and>
    (\<forall>e \<in> set (SG_Edges sg). \<exists>d \<in> set (edges db). edge_visible af d \<and> e = scanEdge d)"
proof -
  from assms(3) obtain start s where start: "GetEntity af (NQ_Start q) db = Inr start"
    and s: "hops ord af q db (clamp_hops (NQ_MaxHops q)) [E_ID start]
        \<lparr>b_ents = [start], b_edges = [], b_visited = [E_ID start], b_seen = [], b_next = [], b_done = False\<rparr> = Inr s"
    and sg: "sg = \<lparr>SG_Entities = b_ents s, SG_Edges = b_edges s\<rparr>"
    by (auto simp: Neighbors_def elim!: rbindE)
  note s0 = start_state [OF assms(1) start]
  have "set [E_ID start] \<subseteq> set (b_visited \<lparr>b_ents = [start], b_edges = [], b_visited = [E_ID start],
      b_seen = [], b_next = [], b_done = False\<rparr>)" by simp
  moreover have "vpath af (NQ_Predicates q) db 0 (NQ_Start q) (E_ID start)" using s0(5) by auto
  ultimately have "binv af (NQ_Predicates q) db s"
    using hops_sound [OF assms(1,2) s0(3) _ _ s0(4), of "[E_ID start]" 0 "NQ_Start q" "clamp_hops (NQ_MaxHops q)"] s
    by auto
  then show ?thesis unfolding binv_def sg usable_def by auto
qed

lemma getEntityByID_row:
  assumes "wf_tables db" and "r \<in> set (entities db)"
  shows "getEntityByID db (er_id r) = Inr (load_row db r)"
  using get_entity_row_iff [OF assms(1), of "er_id r" r] assms(2) by (simp add: getEntityByID_def)

lemma SemanticSearch_visible:
  assumes "wf_tables db" and "SemanticSearch af q db = Inr rs" and "s \<in> set rs"
  shows "\<exists>r \<in> set (entities db). node_visible af r \<and> SE_Entity s = load_row db r"
proof -
  let ?ms = "knnByModel (VQ_Model q) (VQ_Type q) (Some af) (VQ_Vector q) (VQ_Limit q) db"
  from assms(2,3) obtain m where "m \<in> set ?ms"
      "rbind (getEntityByID db (SM_ID m)) (\<lambda>e. Inr \<lparr>SE_Entity = e, SE_Score = SM_Score m\<rparr>) = Inr s"
    by (auto simp: SemanticSearch_def dest!: rmap_memD split: if_splits)
  then obtain e where m: "m \<in> set ?ms" "getEntityByID db (SM_ID m) = Inr e" "SE_Entity s = e"
    by (auto elim!: rbindE)
  from knn_sound [OF m(1)] obtain r where "r \<in> set (entities db)" "er_id r = SM_ID m" "node_visible af r" by blast
  with m getEntityByID_row [OF assms(1), of r] show ?thesis by auto
qed

lemma FullTextSearch_visible:
  assumes "wf_tables db" and "\<And>rows. mset (ord rows) = mset rows"
    and "FullTextSearch fm bm ord af q db = Inr rs" and "s \<in> set rs"
  shows "\<exists>r \<in> set (entities db). node_visible af r \<and> SE_Entity s = load_row db r"
proof -
  let ?rank = "\<lambda>p. bm (entities_fts db) (TQ_Text q) (snd p)"
  from assms(3,4) obtain m n where m: "fm (TQ_Text q) = Inr m" and "rmap (\<lambda>p. rbind (getEntityByID db (er_id (fst p)))
      (\<lambda>e. Inr \<lparr>SE_Entity = e, SE_Score = - ?rank p\<rparr>))
      (take n (sort_key ?rank (ord (fts_rows m af (TQ_Type q) db)))) = Inr rs"
    unfolding FullTextSearch_def Let_def by (auto elim!: rbindE split: if_splits)
  from rmap_memD [OF this(2) assms(4)] obtain p e where
    p: "p \<in> set (take n (sort_key ?rank (ord (fts_rows m af (TQ_Type q) db))))"
      "getEntityByID db (er_id (fst p)) = Inr e" "SE_Entity s = e"
    by (auto elim!: rbindE)
  have "set (ord rows) = set rows" for rows using assms(2) mset_eq_setD by blast
  with p(1) have "p \<in> set (fts_rows m af (TQ_Type q) db)" by (auto dest: in_set_takeD)
  then have "fst p \<in> set (entities db)" "node_visible af (fst p)" by (auto simp: fts_rows_def)
  with p getEntityByID_row [OF assms(1), of "fst p"] show ?thesis by auto
qed

lemma svc_semantic_cases:
  assumes "svc_semantic sv af q l ft db = Inr rs"
  shows "rs = ft \<or> (\<exists>xs. rs = fuseRRF l [ft, xs] \<and> (xs = [] \<or> (\<exists>vq. SemanticSearch af vq db = Inr xs)))"
  using assms unfolding svc_semantic_def
  by (auto split: option.splits if_splits sum.splits list.splits)

lemma svc_Search_visible:
  assumes wf: "wf_tables db" and ord: "\<And>rows. mset (fe_ord fe rows) = mset rows"
    and "svc_Search sv fe bearer q db = Inr rs" and "s \<in> set rs"
  shows "\<exists>d r. am_Authenticate (sv_access sv) bearer = Inr d \<and> r \<in> set (entities db) \<and>
    node_visible (am_FilterFor (sv_access sv) d) r \<and> SE_Entity s = load_row db r"
proof -
  let ?L = "if SQ_Limit q \<le> 0 then 20 else SQ_Limit q"
  from assms(3) obtain d where d: "am_Authenticate (sv_access sv) bearer = Inr d"
    by (auto simp: svc_Search_def auth_def elim!: rbindE split: sum.splits)
  let ?af = "am_FilterFor (sv_access sv) d"
  let ?V = "\<lambda>s. \<exists>r \<in> set (entities db). node_visible ?af r \<and> SE_Entity s = load_row db r"
  from assms(3) d obtain ft where ft: "(case FullTextSearch (fe_match fe) (fe_bm25 fe) (fe_ord fe) ?af
      \<lparr>TQ_Text = SQ_Text q, TQ_Type = SQ_Type q, TQ_Limit = ?L\<rparr> db of
        Inl e \<Rightarrow> if e \<noteq> ErrNotImplemented then Inl e else Inr [] | Inr ft \<Rightarrow> Inr ft) = Inr ft"
    and sem: "svc_semantic sv ?af q ?L ft db = Inr rs"
    by (auto simp: svc_Search_def auth_def Let_def elim!: rbindE)
  have vft: "\<forall>s \<in> set ft. ?V s"
    using ft FullTextSearch_visible [OF wf ord] by (auto split: sum.splits if_splits)
  have fuse: "?V s" if "s \<in> set (fuseRRF l [ft, xs])" "\<forall>s \<in> set xs. ?V s" for xs l
  proof -
    from fuseRRF_sub [OF that(1)] obtain s' where "s' \<in> set ft \<union> set xs" "SE_Entity s = SE_Entity s'" by auto
    with vft that(2) show ?thesis by auto
  qed
  have "?V s"
  proof (cases "rs = ft")
    case True
    with vft assms(4) show ?thesis by simp
  next
    case False
    with svc_semantic_cases [OF sem] obtain xs where xs: "rs = fuseRRF ?L [ft, xs]"
      "xs = [] \<or> (\<exists>vq. SemanticSearch ?af vq db = Inr xs)" by blast
    have "\<forall>s \<in> set xs. ?V s" using xs(2) SemanticSearch_visible [OF wf] by auto
    then show ?thesis using assms(4) unfolding xs(1) by (intro fuse)
  qed
  with d show ?thesis by blast
qed

section \<open>Proposals and their deciders\<close>

lemma find_mem: "find P xs = Some x \<Longrightarrow> x \<in> set xs \<and> P x"
  by (auto simp: find_Some_iff)

lemma set_ListProposals: "set (ListProposals sp db) = proposal_of_row `
    {p \<in> set (proposals db). pr_status p = StPending \<and> (sp = [] \<or> pr_space p = sp)}"
  by (auto simp: ListProposals_def)

section \<open>Properties\<close>

text \<open>The service of the witnesses: \<open>kate\<close> may read, write and approve in \<open>home\<close>, \<open>guest\<close> nothing.\<close>

definition sample_starchart :: starchart_model where
  "sample_starchart = \<lparr>byToken = (\<lambda>t. if t = ''tk'' then Some \<lparr>sp_id = ''kate'', sp_spaces = [''home''],
       sp_restricted = False, sp_approverSpaces = [''home'']\<rparr> else None), denyTypes = []\<rparr>"

definition sample_service :: service where
  "sample_service = \<lparr>sv_access = starchart_access (\<lambda>s. s) sample_starchart, sv_embedder = None\<rparr>"

definition kate :: decision where
  "kate = \<lparr>Principal = \<lparr>P_ID = ''kate'', P_Spaces = [''home''], P_WriteSpaces = [''home''],
     P_ApproverSpaces = [''home''], P_Restricted = False\<rparr>, Lenses = [], D_Source = []\<rparr>"

lemma sample_service_kate [simp]:
  "am_Authenticate (sv_access sample_service) ''tk'' = Inr kate"
  "am_CanWrite (sv_access sample_service) kate ''home''"
  "am_CanApprove (sv_access sample_service) kate ''home''"
  "am_FilterFor (sv_access sample_service) kate = member_filter"
  by (simp_all add: sample_service_def starchart_access_def sample_starchart_def Starchart_Authenticate_def kate_def
      Starchart_CanWrite_def Starchart_CanApprove_def Starchart_FilterFor_def member_filter_def)

lemma starchart_access_sel [simp]:
  "am_Authenticate (starchart_access sha m) = Starchart_Authenticate sha m"
  "am_FilterFor (starchart_access sha m) = Starchart_FilterFor m"
  by (simp_all add: starchart_access_def)

lemma starchart_visible: "node_visible (Starchart_FilterFor m d) r = Starchart_CanRead m d (guard_entity r)"
  by (simp add: node_visible_def sc.filter_agrees)



text \<open>A bearer the access model rejects gets nothing and changes nothing, in every operation.\<close>

theorem unauthenticated_has_no_effect:
  assumes "am_Authenticate (sv_access sv) b = Inl x"
  shows "svc_GetEntity sv b e db = Inl ErrUnauthenticated \<and> svc_ResolveByExternalID sv eord b keys db = Inl ErrUnauthenticated \<and>
    svc_Neighbors sv ord b nq db = Inl ErrUnauthenticated \<and> svc_Search sv fe b sq db = Inl ErrUnauthenticated \<and>
    svc_ListProposals sv b sp db = Inl ErrUnauthenticated \<and>
    svc_CreateEntity sv env b ci db = (db, result0, Some ErrUnauthenticated) \<and>
    svc_Link sv env b li db = (db, edge0, Some ErrUnauthenticated) \<and>
    svc_ProposeEntity sv env b ci db = (db, [], Some ErrUnauthenticated) \<and>
    svc_ProposeLink sv env b li db = (db, [], Some ErrUnauthenticated) \<and>
    svc_DecideProposal sv env b i ap db = (db, result0, Some ErrUnauthenticated)"
  by (simp add: auth_def assms svc_GetEntity_def svc_ResolveByExternalID_def svc_Neighbors_def svc_Search_def
      svc_ListProposals_def svc_CreateEntity_def svc_Link_def svc_ProposeEntity_def svc_ProposeLink_def
      svc_DecideProposal_def)

theorem unauthenticated_has_no_effect_witness:
  "svc_DecideProposal sample_service sample_write_env ''wrong'' ''p1'' True sample_held_db =
     (sample_held_db, result0, Some ErrUnauthenticated)"
proof -
  have "am_Authenticate (sv_access sample_service) ''wrong'' = Inl ErrUnauthenticated"
    by (simp add: sample_service_def sample_starchart_def Starchart_Authenticate_def)
  from unauthenticated_has_no_effect [OF this] show ?thesis by blast
qed

text \<open>The link gate. A link by a principal who may write to its space is appended exactly when both
  ends are entities the principal can see; otherwise it fails with one and the same error,
  whether an end is hidden or does not exist, and nothing is written.\<close>

theorem Link_gate:
  assumes "am_Authenticate (sv_access sv) b = Inr d" and "am_CanWrite (sv_access sv) d (LI_Space li)"
  shows "svc_Link sv env b li db =
    (if \<forall>e \<in> {LI_From li, LI_To li}. \<exists>r \<in> set (entities db). er_id r = e \<and> node_visible (am_FilterFor (sv_access sv) d) r
     then AppendEdgeFact env (edgeInput d li) db else (db, edge0, Some ErrEndpointNotFound))"
  using assms by (auto simp: svc_Link_def auth_def sq.endpoint_gate visible_id_def)

theorem Link_gate_witness:
  "svc_Link sample_service sample_write_env ''tk'' \<lparr>LI_Predicate = ''about'', LI_From = ''a'', LI_To = ''c'',
       LI_Props = RawEmpty, LI_Space = ''home'', LI_Visibility = VisSpace, LI_DedupeKey = []\<rparr> sample_db =
     (sample_db, edge0, Some ErrEndpointNotFound)"
proof -
  let ?li = "\<lparr>LI_Predicate = ''about'', LI_From = ''a'', LI_To = ''c'',
       LI_Props = RawEmpty, LI_Space = ''home'', LI_Visibility = VisSpace, LI_DedupeKey = []\<rparr>"
  have "\<not> (\<exists>r \<in> set (entities sample_db). er_id r = ''c'' \<and> node_visible member_filter r)"
    by (simp add: sample_defs node_visible_def accessWhere_iff visible_spec_def member_filter_def guard_entity_def)
  with Link_gate [of sample_service "''tk''" kate ?li sample_write_env sample_db] show ?thesis by simp
qed

definition signed_by :: "decision \<Rightarrow> db \<Rightarrow> db \<Rightarrow> bool" where
  "signed_by d db db' \<longleftrightarrow> take (length (facts db)) (facts db') = facts db \<and>
     (\<forall>f \<in> set (drop (length (facts db)) (facts db')).
        f_actor f = P_ID (Principal d) \<and> f_writer f = ''svc:'' @ P_ID (Principal d))"

lemma signed_by_attributed: "attributed (''svc:'' @ P_ID (Principal d)) (P_ID (Principal d)) db db' \<Longrightarrow> signed_by d db db'"
  by (auto simp: attributed_def signed_by_def)

text \<open>C6: Direct writes need write access and are signed. If creating an entity or a link changes the
  database, the bearer authenticates as a principal who may write to the space, and every fact
  appended names that principal as its actor and the service's writer of that principal.\<close>

theorem direct_writes_authorized:
  "(fst (svc_CreateEntity sv env b ci db) \<noteq> db \<longrightarrow>
      (\<exists>d. am_Authenticate (sv_access sv) b = Inr d \<and> am_CanWrite (sv_access sv) d (CI_Space ci) \<and>
         signed_by d db (fst (svc_CreateEntity sv env b ci db)))) \<and>
   (fst (svc_Link sv env b li db) \<noteq> db \<longrightarrow>
      (\<exists>d. am_Authenticate (sv_access sv) b = Inr d \<and> am_CanWrite (sv_access sv) d (LI_Space li) \<and>
         signed_by d db (fst (svc_Link sv env b li db))))"
proof -
  have "signed_by d db (fst (AppendEntityFact env (entityInput d (autoEmbed sv ci)) db))" for d
    using attributed_AppendEntityFact [of "entityInput d (autoEmbed sv ci)" db env]
    by (intro signed_by_attributed) (simp add: entityInput_def)
  moreover have "signed_by d db (fst (AppendEdgeFact env (edgeInput d li) db))" for d
    using attributed_AppendEdgeFact [of "edgeInput d li" db env]
    by (intro signed_by_attributed) (simp add: edgeInput_def)
  ultimately show ?thesis
    by (auto simp: svc_CreateEntity_def svc_Link_def auth_def sq.endpoint_gate split: sum.split)
qed

theorem direct_writes_authorized_witness:
  "signed_by kate sample_db (fst (svc_Link sample_service sample_write_env ''tk'' \<lparr>LI_Predicate = ''about'', LI_From = ''b'',
     LI_To = ''a'', LI_Props = RawEmpty, LI_Space = ''home'', LI_Visibility = VisSpace, LI_DedupeKey = []\<rparr> sample_db))"
proof -
  let ?li = "\<lparr>LI_Predicate = ''about'', LI_From = ''b'', LI_To = ''a'', LI_Props = RawEmpty,
     LI_Space = ''home'', LI_Visibility = VisSpace, LI_DedupeKey = []\<rparr>"
  have "length (facts (fst (svc_Link sample_service sample_write_env ''tk'' ?li sample_db))) = 1" by code_simp
  then have "fst (svc_Link sample_service sample_write_env ''tk'' ?li sample_db) \<noteq> sample_db"
    by (auto simp: sample_db_def)
  with conjunct2 [OF direct_writes_authorized [of sample_service sample_write_env "''tk''" _ sample_db ?li]]
  show ?thesis by simp
qed

text \<open>C23: Only an approver decides. If deciding a proposal changes the database, the bearer
  authenticates as a principal with approval rights in the space of that proposal, which was
  pending, and the proposal now carries the principal as its decider.\<close>

theorem decisions_need_an_approver:
  assumes "wf_db db" and "fst (svc_DecideProposal sv env b i approve db) \<noteq> db"
  shows "\<exists>d p q. am_Authenticate (sv_access sv) b = Inr d \<and> p \<in> set (proposals db) \<and> pr_id p = i \<and>
    pr_status p = StPending \<and> am_CanApprove (sv_access sv) d (pr_space p) \<and>
    get_proposal (fst (svc_DecideProposal sv env b i approve db)) i = Some q \<and>
    pr_decided_by q = Some (P_ID (Principal d))"
proof -
  from assms(2) obtain d sp where d: "am_Authenticate (sv_access sv) b = Inr d"
    and sp: "proposalSpace i db = Inr sp" and ap: "am_CanApprove (sv_access sv) d sp"
    and r: "svc_DecideProposal sv env b i approve db = DecideProposal env i approve (P_ID (Principal d)) db"
    by (auto simp: svc_DecideProposal_def auth_def split: sum.splits if_splits)
  from sp obtain p where p: "p \<in> set (proposals db)" "pr_id p = i" "pr_status p = StPending" "pr_space p = sp"
    by (auto simp: proposalSpace_def ListProposals_def proposal_of_row_def dest!: find_mem split: option.splits)
  have "distinct (map pr_id (proposals db))" using assms(1) by (simp add: wf_db_def wf_tables_def proposals_ok_def)
  with p(1,2) have g: "get_proposal db i = Some p" by (simp add: get_proposal_def lookup_row_Some_iff)
  from DecideProposal_row [OF g] p(3) obtain q where
    "get_proposal (fst (DecideProposal env i approve (P_ID (Principal d)) db)) i = Some q"
    "pr_decided_by q = Some (P_ID (Principal d))" by blast
  with d p ap r show ?thesis by auto
qed

lemma wf_sample_held: "wf_db sample_held_db"
  using wf_sample wf_db_graph [of sample_db] wf_db_graph [of sample_held_db]
  by (simp add: sample_held_db_def proposals_ok_def proposal_ok_def sample_proposal_def)

theorem decisions_need_an_approver_witness:
  "\<exists>d q. am_Authenticate (sv_access sample_service) ''tk'' = Inr d \<and> am_CanApprove (sv_access sample_service) d ''home'' \<and>
     get_proposal (fst (svc_DecideProposal sample_service sample_write_env ''tk'' ''p1'' False sample_held_db)) ''p1'' = Some q \<and>
     pr_decided_by q = Some (P_ID (Principal d))"
proof -
  have "proposalSpace ''p1'' sample_held_db = Inr ''home''"
    by (simp add: proposalSpace_def ListProposals_def sample_held_db_def sample_proposal_def proposal_of_row_def)
  then have "svc_DecideProposal sample_service sample_write_env ''tk'' ''p1'' False sample_held_db =
      (update_pending ''p1'' StDiscarded (fmtTS (env_now sample_write_env 0)) ''kate'' sample_held_db, result0, None)"
    by (simp add: svc_DecideProposal_def auth_def DecideProposal_def sample_held) (simp add: kate_def)
  then have "map pr_status (proposals (fst (svc_DecideProposal sample_service sample_write_env ''tk'' ''p1'' False sample_held_db)))
      = [StDiscarded]" by (simp add: update_pending_def sample_held_db_def sample_proposal_def)
  then have "fst (svc_DecideProposal sample_service sample_write_env ''tk'' ''p1'' False sample_held_db) \<noteq> sample_held_db"
    by (auto simp: sample_held_db_def)
  from decisions_need_an_approver [OF wf_sample_held this] show ?thesis
    by (auto simp: sample_held_db_def sample_proposal_def)
qed

text \<open>The review queue. An authenticated principal sees the pending proposals of the spaces where it
  may approve, all of them and no others, narrowed to one space if asked.\<close>

theorem ListProposals_exact:
  assumes "am_Authenticate (sv_access sv) b = Inr d"
  shows "\<exists>ps. svc_ListProposals sv b sp db = Inr ps \<and> set ps = proposal_of_row `
    {p \<in> set (proposals db). pr_status p = StPending \<and> (sp = [] \<or> pr_space p = sp) \<and>
       am_CanApprove (sv_access sv) d (pr_space p)}"
  using assms by (auto simp: svc_ListProposals_def auth_def set_ListProposals proposal_of_row_def)

theorem ListProposals_exact_witness:
  "\<exists>ps. svc_ListProposals sample_service ''tk'' [] sample_held_db = Inr ps \<and> set ps = {proposal_of_row sample_proposal}"
proof -
  have "{p \<in> set (proposals sample_held_db). pr_status p = StPending \<and> ([] = [] \<or> pr_space p = []) \<and>
      am_CanApprove (sv_access sample_service) kate (pr_space p)} = {sample_proposal}"
    by (auto simp: sample_held_db_def sample_proposal_def)
  with ListProposals_exact [of sample_service "''tk''" kate "[]" sample_held_db] show ?thesis by auto
qed

text \<open>The score of an id in the fusion: the reciprocal ranks of its occurrences.\<close>

definition rrf_score :: "scored_entity list list \<Rightarrow> entity_id \<Rightarrow> real" where
  "rrf_score ls i = (\<Sum>xs\<leftarrow>ls. \<Sum>p\<leftarrow>enumerate 0 xs. if E_ID (SE_Entity (snd p)) = i then 1 / (60 + real (fst p)) else 0)"

definition score_in :: "(entity_id \<times> scored_entity) list \<Rightarrow> entity_id \<Rightarrow> real" where
  "score_in acc i = (case map_of acc i of None \<Rightarrow> 0 | Some s \<Rightarrow> SE_Score s)"

lemma score_in_put: "score_in (rrf_put e w acc) i = score_in acc i + (if E_ID e = i then w else 0)"
  by (induction e w acc rule: rrf_put.induct) (auto simp: score_in_def)

lemma score_in_list:
  "score_in (rrf_list acc xs) i =
     score_in acc i + (\<Sum>p\<leftarrow>enumerate 0 xs. if E_ID (SE_Entity (snd p)) = i then 1 / (60 + real (fst p)) else 0)"
proof -
  have "score_in (foldl (\<lambda>a p. rrf_put (SE_Entity (snd p)) (w p) a) acc ps) i =
      score_in acc i + (\<Sum>p\<leftarrow>ps. if E_ID (SE_Entity (snd p)) = i then w p else 0)" for w ps
    by (induction ps arbitrary: acc) (simp_all add: score_in_put)
  then show ?thesis by (simp add: rrf_list_def)
qed

lemma score_in_lists: "score_in (foldl rrf_list acc ls) i = score_in acc i + rrf_score ls i"
  by (induction ls arbitrary: acc) (simp_all add: rrf_score_def score_in_list)

lemma score_in_mem: "rrf_ok acc \<Longrightarrow> p \<in> set acc \<Longrightarrow> score_in acc (E_ID (SE_Entity (snd p))) = SE_Score (snd p)"
  by (cases p) (fastforce simp: rrf_ok_def score_in_def)

text \<open>Reciprocal-rank fusion. The fused list names each entity once, scored with the sum of
  1 / (60 + rank) over its occurrences in the input lists, in descending order of score with
  ties by id; without a limit it names every input entity, and with one it is a prefix of that.\<close>

theorem fuseRRF_spec:
  "distinct (map (\<lambda>s. E_ID (SE_Entity s)) (fuseRRF limit ls)) \<and> sorted (map rank_key (fuseRRF limit ls)) \<and>
   (\<forall>s \<in> set (fuseRRF limit ls). SE_Score s = rrf_score ls (E_ID (SE_Entity s)) \<and>
      SE_Entity s \<in> SE_Entity ` (\<Union> (set ` set ls))) \<and>
   (\<exists>rest. fuseRRF 0 ls = fuseRRF limit ls @ rest) \<and>
   (\<lambda>s. E_ID (SE_Entity s)) ` set (fuseRRF 0 ls) = (\<lambda>s. E_ID (SE_Entity s)) ` (\<Union> (set ` set ls))"
proof -
  let ?all = "foldl rrf_list [] ls" and ?id = "\<lambda>s. E_ID (SE_Entity s)"
  let ?sorted = "sort_key rank_key (map snd ?all)"
  have ok: "rrf_ok ?all" and ids: "fst ` set ?all = ?id ` (\<Union> (set ` set ls))"
    using rrf_lists_spec [of "[]" ls] by (simp_all add: rrf_ok_def)
  have m: "map (\<lambda>p. ?id (snd p)) ?all = map fst ?all" using ok by (simp add: rrf_ok_def)
  have full: "fuseRRF 0 ls = ?sorted" by (simp add: fuseRRF_def cap_def)
  obtain rest where rest: "?sorted = fuseRRF limit ls @ rest"
    using cap_prefix [of ?sorted limit] by (auto simp: fuseRRF_def)
  have "mset (map ?id ?sorted) = mset (map (\<lambda>p. ?id (snd p)) ?all)" by (simp add: image_mset.compositionality comp_def)
  then have "mset (map ?id ?sorted) = mset (map fst ?all)" by (simp only: m)
  then have dist: "distinct (map ?id ?sorted)" using ok by (metis mset_eq_imp_distinct_iff rrf_ok_def)
  have "sorted (map rank_key ?sorted)" by simp
  then have srt: "sorted (map rank_key (fuseRRF limit ls))" unfolding rest by (simp add: sorted_append)
  have score: "SE_Score s = rrf_score ls (?id s)" if "s \<in> set (fuseRRF limit ls)" for s
  proof -
    have "s \<in> set ?sorted" using that unfolding rest by simp
    then obtain i where "(i, s) \<in> set ?all" by auto
    from score_in_mem [OF ok this] score_in_lists [of "[]" ls] show ?thesis by (simp add: score_in_def)
  qed
  have sub: "SE_Entity s \<in> SE_Entity ` (\<Union> (set ` set ls))" if "s \<in> set (fuseRRF limit ls)" for s
    using fuseRRF_sub [OF that] by auto
  have "?id ` set (fuseRRF 0 ls) = set (map (\<lambda>p. ?id (snd p)) ?all)" by (simp add: full image_image)
  also have "\<dots> = fst ` set ?all" by (simp only: m set_map)
  also note ids
  finally have all: "?id ` set (fuseRRF 0 ls) = ?id ` (\<Union> (set ` set ls))" .
  have "distinct (map ?id (fuseRRF limit ls))" using dist unfolding rest by simp
  moreover have "\<exists>rest. fuseRRF 0 ls = fuseRRF limit ls @ rest" using full rest by metis
  ultimately show ?thesis by (intro conjI ballI srt score sub all) assumption+
qed

theorem fuseRRF_spec_witness:
  "\<exists>s. fuseRRF 0 [[\<lparr>SE_Entity = entity0, SE_Score = 3\<rparr>], [\<lparr>SE_Entity = entity0, SE_Score = 5\<rparr>]] = [s] \<and> SE_Score s = 2 / 60"
proof -
  let ?ls = "[[\<lparr>SE_Entity = entity0, SE_Score = 3\<rparr>], [\<lparr>SE_Entity = entity0, SE_Score = 5\<rparr>]] :: scored_entity list list"
  have l: "length (fuseRRF 0 ?ls) = 1"
    by (simp add: fuseRRF_def cap_def rrf_list_def)
  then obtain s where s: "fuseRRF 0 ?ls = [s]" by (cases "fuseRRF 0 ?ls") auto
  have "SE_Score s = rrf_score ?ls (E_ID (SE_Entity s))" "SE_Entity s = entity0"
    using fuseRRF_spec [of 0 ?ls] by (simp_all add: s)
  with s show ?thesis by (simp add: rrf_score_def)
qed

lemma ProposeE:
  assumes "Propose env p db = (db1, i, None)"
  obtains row where "db1 = with_proposals (proposals db @ [row]) db" and "pr_id row = i" and "pr_kind row = PP_Kind p"
    and "pr_space row = PP_Space p" and "pr_payload row = PP_Payload p" and "pr_status row = StPending"
proof -
  from assms have "db1 = with_proposals (proposals db @ [\<lparr>pr_id = i, pr_kind = PP_Kind p, pr_proposer = PP_Proposer p,
      pr_space = PP_Space p, pr_payload = PP_Payload p, pr_status = StPending, pr_created_at = fmtTS (env_now env 0),
      pr_decided_at = None, pr_decided_by = None, pr_result_subject = None\<rparr>]) db"
    by (auto simp: Propose_def Let_def split: if_splits)
  then show thesis by (rule that) simp_all
qed

lemma pending_found:
  assumes "wf_db db" and "p \<in> set (proposals db)" and "pr_status p = StPending"
  shows "get_proposal db (pr_id p) = Some p" and "proposalSpace (pr_id p) db = Inr (pr_space p)"
proof -
  have dist: "distinct (map pr_id (proposals db))" using assms(1) by (simp add: wf_db_def wf_tables_def proposals_ok_def)
  with assms(2) show "get_proposal db (pr_id p) = Some p" by (simp add: get_proposal_def lookup_row_Some_iff)
  have mem: "proposal_of_row p \<in> set (ListProposals [] db)" using assms(2,3) by (simp add: set_ListProposals)
  then obtain x where x: "find (\<lambda>q. PP_ID q = pr_id p) (ListProposals [] db) = Some x"
    by (cases "find (\<lambda>q. PP_ID q = pr_id p) (ListProposals [] db)") (auto simp: find_None_iff proposal_of_row_def)
  from find_mem [OF x] obtain q where "q \<in> set (proposals db)" "x = proposal_of_row q" "pr_id q = pr_id p"
    by (auto simp: set_ListProposals proposal_of_row_def)
  with dist assms(2) have "x = proposal_of_row p" using distinct_map_inj_on [of pr_id "proposals db" q p] by simp
  with x show "proposalSpace (pr_id p) db = Inr (pr_space p)" by (simp add: proposalSpace_def proposal_of_row_def)
qed

lemma marshal_entity_input_doc:
  assumes "doc_props (AE_Candidate inp)" and "marshal_entity_input inp = Inr pl"
  shows "pl = PPEntity inp"
  using assms marshal_doc [OF assms(1)]
  by (auto simp: marshal_entity_input_def unmarshal_entity_def elim!: rbindE)


definition sample_create :: create_input where
  "sample_create = \<lparr>CI_Type = ''Movie'', CI_Props = RawDoc (JObj [(''name'', JStr ''Alien'')]),
     CI_ExternalIDs = [\<lparr>Scheme = ''tmdb'', Value = ''348''\<rparr>], CI_Space = ''home'', CI_Visibility = VisSpace,
     CI_Embeddings = [], CI_Policy = ResolveAuto, CI_DedupeKey = ''k1''\<rparr>"


end
