(* ===== verification/Jdx_PgParity.thy ===== *)
theory Jdx_PgParity
  imports Jdx_PgRefine Jdx_Boundary
begin

text \<open>
  What the Postgres adapter promises: a history of writes it accepts is one the SQLite adapter
  accepts with the same answers and a database alike (a forward simulation); its searches
  return only what the caller may read; and where it differs: two writers at once, and the attach
  of nested or null properties.
\<close>

section \<open>Histories\<close>

text \<open>A forward simulation, for any two machines that answer each write.\<close>

primrec run_writes :: "('w \<Rightarrow> 's \<Rightarrow> 's \<times> 'o) \<Rightarrow> 'w list \<Rightarrow> 's \<Rightarrow> 's \<times> 'o list" where
  "run_writes f [] s = (s, [])"
| "run_writes f (w # ws) s = (let (s1, o1) = f w s; (s2, os) = run_writes f ws s1 in (s2, o1 # os))"

primrec permitted_run :: "('w \<Rightarrow> 's \<Rightarrow> 's \<times> 'o) \<Rightarrow> ('w \<Rightarrow> 's \<Rightarrow> bool) \<Rightarrow> 'w list \<Rightarrow> 's \<Rightarrow> bool" where
  "permitted_run f ok [] s \<longleftrightarrow> True"
| "permitted_run f ok (w # ws) s \<longleftrightarrow> ok w s \<and> permitted_run f ok ws (fst (f w s))"

locale forward_simulation =
  fixes abs_step :: "'w \<Rightarrow> 'a \<Rightarrow> 'a \<times> 'o" and conc_step :: "'w \<Rightarrow> 'c \<Rightarrow> 'c \<times> 'o"
    and rel :: "'a \<Rightarrow> 'c \<Rightarrow> bool" and ok :: "'w \<Rightarrow> 'c \<Rightarrow> bool"
  assumes simulates: "rel a c \<Longrightarrow> ok w c \<Longrightarrow>
    rel (fst (abs_step w a)) (fst (conc_step w c)) \<and> snd (abs_step w a) = snd (conc_step w c)"
begin

lemma simulates_run:
  "rel a c \<Longrightarrow> permitted_run conc_step ok ws c \<Longrightarrow>
     rel (fst (run_writes abs_step ws a)) (fst (run_writes conc_step ws c)) \<and>
     snd (run_writes abs_step ws a) = snd (run_writes conc_step ws c)"
proof (induction ws arbitrary: a c)
  case Nil
  then show ?case by simp
next
  case (Cons w ws)
  from Cons.prems have "rel (fst (abs_step w a)) (fst (conc_step w c)) \<and> snd (abs_step w a) = snd (conc_step w c)"
    by (intro simulates) simp_all
  with Cons.IH [of "fst (abs_step w a)" "fst (conc_step w c)"] Cons.prems(2) show ?case
    by (simp add: Let_def case_prod_beta)
qed

end

text \<open>The writes of the store interface, and what a write answers: the id it returns and its error.\<close>

datatype store_write = WEntity env append_entity_input | WEdge env append_edge_input
  | WMerge env entity_id entity_id principal_id string | WRetractEntity env entity_id principal_id string
  | WRetractEdge env edge_id principal_id string

type_synonym answer = "string \<times> gerr option"

fun sqlite_write :: "store_write \<Rightarrow> db \<Rightarrow> db \<times> answer" where
  "sqlite_write (WEntity env inp) db = (let (d, r, e) = AppendEntityFact env inp db in (d, E_ID (RR_Entity r), e))"
| "sqlite_write (WEdge env inp) db = (let (d, r, e) = AppendEdgeFact env inp db in (d, D_ID r, e))"
| "sqlite_write (WMerge env keep gone actor dk) db = (let (d, e) = MergeEntities env keep gone actor dk db in (d, [], e))"
| "sqlite_write (WRetractEntity env i actor dk) db = (let (d, e) = RetractEntity env i actor dk db in (d, [], e))"
| "sqlite_write (WRetractEdge env i actor dk) db = (let (d, e) = RetractEdge env i actor dk db in (d, [], e))"

fun postgres_write :: "pgparam \<Rightarrow> store_write \<Rightarrow> db \<Rightarrow> db \<times> answer" where
  "postgres_write pg (WEntity env inp) db = (let (d, r, e) = pg_AppendEntityFact pg env inp db in (d, E_ID (RR_Entity r), e))"
| "postgres_write pg (WEdge env inp) db = (let (d, r, e) = pg_AppendEdgeFact pg env inp db in (d, D_ID r, e))"
| "postgres_write pg (WMerge env keep gone actor dk) db = (let (d, e) = pg_MergeEntities pg env keep gone actor dk db in (d, [], e))"
| "postgres_write pg (WRetractEntity env i actor dk) db = (let (d, e) = pg_RetractEntity pg env i actor dk db in (d, [], e))"
| "postgres_write pg (WRetractEdge env i actor dk) db = (let (d, e) = pg_RetractEdge pg env i actor dk db in (d, [], e))"

text \<open>The writes the two adapters must agree on: Postgres succeeds or reports a duplicate, the resolver
  asks for no vector neighbours, and the id drawn for an edge is new.\<close>

definition agreed :: "pgparam \<Rightarrow> store_write \<Rightarrow> db \<Rightarrow> bool" where
  "agreed pg w db \<longleftrightarrow> snd (snd (postgres_write pg w db)) \<in> {None, Some ErrDuplicateFact} \<and>
     (case w of WEntity env inp \<Rightarrow> quiet inp db | WEdge env inp \<Rightarrow> env_newID env 0 \<notin> dr_id ` set (edges db) | _ \<Rightarrow> True)"

lemma commit_mirrored:
  assumes "mirrors f g" and "alike a b" and "snd (commit (f b) b) \<in> {None, Some ErrDuplicateFact}"
  shows "alike (fst (commit (g a) a)) (fst (commit (f b) b)) \<and> snd (commit (g a) a) = snd (commit (f b) b)"
proof (cases "f b")
  case (Inl e)
  with assms(3) have "e = ErrDuplicateFact" by (simp add: commit_def)
  with mirrorsD(2) [OF assms(1,2)] Inl assms(2) show ?thesis by (simp add: commit_def)
next
  case (Inr b')
  from mirrorsD(1) [OF assms(1,2) Inr] Inr show ?thesis by (auto simp: commit_def)
qed

lemma mirrors_present:
  "mirrors (\<lambda>d. if has_entity d e then Inr d else Inl ErrNotFound) (\<lambda>d. if has_entity d e then Inr d else Inl ErrNotFound)"
  by (auto simp: mirrors_def dest: alike_has)

lemma MergeEntities_mirrored:
  assumes "alike a b" and "snd (pg_MergeEntities pg env keep gone actor dk b) \<in> {None, Some ErrDuplicateFact}"
  shows "alike (fst (MergeEntities env keep gone actor dk a)) (fst (pg_MergeEntities pg env keep gone actor dk b)) \<and>
    snd (MergeEntities env keep gone actor dk a) = snd (pg_MergeEntities pg env keep gone actor dk b)"
proof -
  let ?dk = "if dk = [] then keep @ ''|merge|'' @ gone else dk"
  have "mirrors
     (\<lambda>b. rbind (rfold (\<lambda>e d. if has_entity d e then Inr d else Inl ErrNotFound) [keep, gone] b) (\<lambda>db0.
        rbind (pg_mergeEntitiesTx keep gone (env_now env 0) db0) (pg_appendMergeFact pg env 0 keep gone actor ?dk actor (env_now env 0))))
     (merge_entities_tx env keep gone actor dk)"
    unfolding merge_entities_tx_def Let_def
    by (intro mirrors_bind mirrors_rfold mirrors_present mirrors_mergeEntitiesTx mirrors_appendMergeFact)
  from commit_mirrored [OF this assms(1)] assms(2) show ?thesis
    by (simp add: MergeEntities_def pg_MergeEntities_def Let_def)
qed

lemma RetractEntity_mirrored:
  assumes "alike a b" and "snd (pg_RetractEntity pg env i actor dk b) \<in> {None, Some ErrDuplicateFact}"
  shows "alike (fst (RetractEntity env i actor dk a)) (fst (pg_RetractEntity pg env i actor dk b)) \<and>
    snd (RetractEntity env i actor dk a) = snd (pg_RetractEntity pg env i actor dk b)"
proof -
  let ?dk = "if dk = [] then i @ ''|retract'' else dk"
  have "mirrors (\<lambda>b. pg_insertFact pg env 0 FactEntityRetracted i actor ?dk PEmpty actor (env_now env 0) (pg_delete_entity i b))
      (retract_entity_tx env i actor dk)"
    unfolding retract_entity_tx_def Let_def
    by (rule mirrors_pre [OF _ mirrors_insertFact]) (simp add: pg_delete_entity_def alike_delete_entity)
  from commit_mirrored [OF this assms(1)] assms(2) show ?thesis
    by (simp add: RetractEntity_def pg_RetractEntity_def Let_def)
qed

lemma RetractEdge_mirrored:
  assumes "alike a b" and "snd (pg_RetractEdge pg env i actor dk b) \<in> {None, Some ErrDuplicateFact}"
  shows "alike (fst (RetractEdge env i actor dk a)) (fst (pg_RetractEdge pg env i actor dk b)) \<and>
    snd (RetractEdge env i actor dk a) = snd (pg_RetractEdge pg env i actor dk b)"
proof -
  let ?dk = "if dk = [] then i @ ''|retract'' else dk"
  have "mirrors (\<lambda>b. pg_insertFact pg env 0 FactEdgeRetracted i actor ?dk PEmpty actor (env_now env 0) (delete_edge i b))
      (retract_edge_tx env i actor dk)"
    unfolding retract_edge_tx_def Let_def
    by (rule mirrors_pre [OF _ mirrors_insertFact]) (rule alike_delete_edge)
  from commit_mirrored [OF this assms(1)] assms(2) show ?thesis
    by (simp add: RetractEdge_def pg_RetractEdge_def Let_def)
qed

interpretation pg_sim: forward_simulation sqlite_write "postgres_write pg" alike "agreed pg" for pg
proof
  fix a b w assume ab: "alike a b" and ok: "agreed pg w b"
  show "alike (fst (sqlite_write w a)) (fst (postgres_write pg w b)) \<and> snd (sqlite_write w a) = snd (postgres_write pg w b)"
  proof (cases w)
    case (WEntity env inp)
    obtain b' s e where o: "pg_AppendEntityFact pg env inp b = (b', s, e)" by (cases "pg_AppendEntityFact pg env inp b") auto
    with ok WEntity have "quiet inp b" "e = None \<or> e = Some ErrDuplicateFact" by (auto simp: agreed_def)
    from append_entity_mirrored [OF ab this(1) o this(2)] o WEntity show ?thesis by auto
  next
    case (WEdge env inp)
    obtain b' s e where o: "pg_AppendEdgeFact pg env inp b = (b', s, e)" by (cases "pg_AppendEdgeFact pg env inp b") auto
    with ok WEdge have "env_newID env 0 \<notin> dr_id ` set (edges b)" "e = None \<or> e = Some ErrDuplicateFact" by (auto simp: agreed_def)
    from append_edge_mirrored [OF ab this(1) o this(2)] o WEdge show ?thesis by auto
  next
    case (WMerge env keep gone actor dk)
    with ok MergeEntities_mirrored [OF ab, of pg env keep gone actor dk] show ?thesis
      by (simp add: agreed_def case_prod_beta Let_def)
  next
    case (WRetractEntity env i actor dk)
    with ok RetractEntity_mirrored [OF ab, of pg env i actor dk] show ?thesis
      by (simp add: agreed_def case_prod_beta Let_def)
  next
    case (WRetractEdge env i actor dk)
    with ok RetractEdge_mirrored [OF ab, of pg env i actor dk] show ?thesis
      by (simp add: agreed_def case_prod_beta Let_def)
  qed
qed

section \<open>Refinement\<close>

definition sample_pg :: pgparam where
  "sample_pg = \<lparr>PG_nextval = (\<lambda>fs k. 10 * length fs + k + 1), PG_numeric = (\<lambda>s. s), PG_dist = (\<lambda>_ _. None)\<rparr>"

definition sample_edge_write :: append_edge_input where
  "sample_edge_write = \<lparr>AD_Edge = edge0\<lparr>D_Predicate := ''about'', D_From := ''a'', D_To := ''c'', D_Space := ''home'',
     D_Owner := ''kate'', D_Visibility := VisSpace\<rparr>, AD_Writer = ''w'', AD_DedupeKey = [], AD_Actor = ''kate''\<rparr>"

definition sample_history :: "store_write list" where
  "sample_history = [WEntity sample_write_env sample_write, WEdge sample_write_env sample_edge_write,
     WEntity sample_write_env sample_write, WRetractEntity sample_write_env ''c'' ''kate'' []]"

lemma alike_sample: "alike sample_db sample_db"
  by (simp add: alike_def keyed_def has_entity_def sample_defs mr_key_def)

lemma sample_history_agreed: "permitted_run (postgres_write sample_pg) (agreed sample_pg) sample_history sample_db"
  by code_simp



section \<open>Searches\<close>

lemma pg_knn_sound:
  assumes "pg_knnByModel pg model typ af query limit db = Inr ms" and "m \<in> set ms"
  shows "\<exists>p \<in> set (pg_knn_rows model typ af db). er_id (snd p) = SM_ID m" and "0 \<le> SM_Score m \<and> SM_Score m \<le> 1"
proof -
  obtain ds where ds: "rmap (\<lambda>p. case PG_dist pg (decodeVec (mr_vector (fst p))) query of
        None \<Rightarrow> Inl ErrSQL | Some d \<Rightarrow> Inr (er_id (snd p), d)) (pg_knn_rows model typ af db) = Inr ds"
    and ms: "ms = map (\<lambda>p. \<lparr>SM_ID = snd p, SM_Score = pg_score (fst p)\<rparr>)
      (let sorted = sort_key (\<lambda>p. p) (map (\<lambda>i. (min_list (map snd (filter (\<lambda>p. fst p = i) ds)), i)) (remdups (map fst ds)))
       in if limit > 0 then take (nat limit) sorted else sorted)"
    using assms(1) by (auto simp: pg_knnByModel_def Let_def elim!: rbindE split: if_splits)
  from assms(2) have "SM_ID m \<in> fst ` set ds \<and> (\<exists>d. SM_Score m = pg_score d)"
    unfolding ms Let_def by (force split: if_splits dest: in_set_takeD)
  then obtain q d where q: "q \<in> set ds" "fst q = SM_ID m" and d: "SM_Score m = pg_score d" by auto
  from rmap_memD [OF ds q(1)] q(2) show "\<exists>p \<in> set (pg_knn_rows model typ af db). er_id (snd p) = SM_ID m"
    by (force split: option.splits)
  show "0 \<le> SM_Score m \<and> SM_Score m \<le> 1" by (simp add: d pg_score_def Let_def)
qed

lemma pg_node_visible: "(let (w, vals) = pg_accessWhere af ab in pg_eval vals (guard_entity r) w) = node_visible af r"
  using pg_accessWhere_eval(1) [of af ab _ _ "[]"] by (auto simp: node_visible_def split: prod.split)

lemma pg_SemanticSearch_visible:
  assumes "wf_tables db" and "pg_SemanticSearch pg af q db = Inr rs" and "s \<in> set rs"
  shows "(\<exists>r \<in> set (entities db). node_visible af r \<and> SE_Entity s = load_row db r) \<and> 0 \<le> SE_Score s \<and> SE_Score s \<le> 1"
proof -
  from assms(2,3) obtain ms where ms: "pg_knnByModel pg (VQ_Model q) (VQ_Type q) (Some af) (VQ_Vector q) (VQ_Limit q) db = Inr ms"
    and rs: "rmap (\<lambda>m. rbind (getEntityByID db (SM_ID m)) (\<lambda>e. Inr \<lparr>SE_Entity = e, SE_Score = SM_Score m\<rparr>)) ms = Inr rs"
    by (auto simp: pg_SemanticSearch_def pg_getEntityByID_eq elim!: rbindE split: if_splits)
  from rmap_memD [OF rs assms(3)] obtain m e where m: "m \<in> set ms" "getEntityByID db (SM_ID m) = Inr e"
    "s = \<lparr>SE_Entity = e, SE_Score = SM_Score m\<rparr>" by (auto elim!: rbindE)
  from pg_knn_sound(1) [OF ms m(1)] obtain r where "r \<in> set (entities db)" "er_id r = SM_ID m" "node_visible af r"
    using pg_node_visible [of af "[]"] by (auto simp: pg_knn_rows_def)
  with m getEntityByID_row [OF assms(1), of r] pg_knn_sound(2) [OF ms m(1)] show ?thesis by auto
qed

lemma pg_FullTextSearch_visible:
  assumes "wf_tables db" and "pg_FullTextSearch tm tr af q db = Inr rs" and "s \<in> set rs"
  shows "\<exists>r \<in> set (entities db). node_visible af r \<and> SE_Entity s = load_row db r"
proof -
  obtain n ab where a: "arg_add (TQ_Text q) [] = (n, ab)" by (cases "arg_add (TQ_Text q) []")
  obtain w vals where f: "pg_accessWhere af ab = (w, vals)" by (cases "pg_accessWhere af ab")
  have vis: "pg_eval vals (guard_entity r) w = node_visible af r" for r
    using pg_node_visible [of af ab r] by (simp add: f)
  define txt1 where "txt1 = vals ! (n - 1)"
  define rows where "rows = concat (map (\<lambda>e. map (\<lambda>t. (e, snd t)) (filter (\<lambda>t. fst t = er_id e \<and> tm txt1 (snd t) \<and>
    node_visible af e \<and> (TQ_Type q = [] \<or> er_type e = TQ_Type q)) (entities_fts db))) (entities db))"
  define ps where "ps = take (nat (if TQ_Limit q \<le> 0 then 20 else TQ_Limit q)) (sort_key (\<lambda>p. (- tr txt1 (snd p), er_id (fst p))) rows)"
  have "pg_FullTextSearch tm tr af q db = (if TrimSpace (TQ_Text q) = [] then Inr [] else
      rmap (\<lambda>p. rbind (getEntityByID db (er_id (fst p))) (\<lambda>e. Inr \<lparr>SE_Entity = e, SE_Score = tr txt1 (snd p)\<rparr>)) ps)"
    unfolding pg_FullTextSearch_def a f prod.case Let_def vis pg_getEntityByID_eq ps_def rows_def txt1_def ..
  with assms(2,3) have rs: "rmap (\<lambda>p. rbind (getEntityByID db (er_id (fst p)))
      (\<lambda>e. Inr \<lparr>SE_Entity = e, SE_Score = tr txt1 (snd p)\<rparr>)) ps = Inr rs" by (auto split: if_splits)
  have ps: "\<forall>p \<in> set ps. fst p \<in> set (entities db) \<and> node_visible af (fst p)"
    unfolding ps_def by (auto simp: rows_def dest!: in_set_takeD)
  from rmap_memD [OF rs assms(3)] obtain p e where "p \<in> set ps" "getEntityByID db (er_id (fst p)) = Inr e" "SE_Entity s = e"
    by (auto elim!: rbindE)
  with ps getEntityByID_row [OF assms(1), of "fst p"] show ?thesis by auto
qed

text \<open>C30: What a search on Postgres returns, by vectors or by words, is a stored entity the principal of the
  filter may read, whatever distance the vector extension computes and however full-text search
  matches and ranks.\<close>

theorem postgres_search_readable:
  assumes "wf_tables db" and "pg_SemanticSearch pg (Starchart_FilterFor m d) vq db = Inr vs"
    and "pg_FullTextSearch tm tr (Starchart_FilterFor m d) tq db = Inr ts"
  shows "\<forall>s \<in> set vs \<union> set ts. \<exists>r \<in> set (entities db). Starchart_CanRead m d (guard_entity r) \<and> SE_Entity s = load_row db r"
  using pg_SemanticSearch_visible [OF assms(1,2)] pg_FullTextSearch_visible [OF assms(1,3)]
  by (auto simp: starchart_visible)

theorem postgres_search_readable_witness:
  "\<exists>vs ts. pg_SemanticSearch (sample_pg\<lparr>PG_dist := (\<lambda>a b. if length a = length b then Some 0 else None)\<rparr>)
       (Starchart_FilterFor sample_starchart kate)
       \<lparr>VQ_Vector = [1065353216], VQ_Model = ''m'', VQ_Type = [], VQ_Limit = 5\<rparr> sample_db = Inr vs \<and> length vs = 1 \<and>
     pg_FullTextSearch (\<lambda>_ _. True) (\<lambda>_ _. 0) (Starchart_FilterFor sample_starchart kate)
       \<lparr>TQ_Text = ''x'', TQ_Type = [], TQ_Limit = 0\<rparr> sample_db = Inr ts \<and> length ts = 2 \<and>
     (\<forall>s \<in> set vs \<union> set ts. \<exists>r \<in> set (entities sample_db). Starchart_CanRead sample_starchart kate (guard_entity r) \<and>
        SE_Entity s = load_row sample_db r)"
proof -
  let ?pg = "sample_pg\<lparr>PG_dist := (\<lambda>a b. if length a = length b then Some 0 else None)\<rparr>"
  let ?f = "Starchart_FilterFor sample_starchart kate"
  have "case pg_SemanticSearch ?pg ?f \<lparr>VQ_Vector = [1065353216], VQ_Model = ''m'', VQ_Type = [], VQ_Limit = 5\<rparr> sample_db
      of Inl _ \<Rightarrow> False | Inr vs \<Rightarrow> length vs = 1" by code_simp
  then obtain vs where vs: "pg_SemanticSearch ?pg ?f \<lparr>VQ_Vector = [1065353216], VQ_Model = ''m'', VQ_Type = [], VQ_Limit = 5\<rparr> sample_db = Inr vs"
    "length vs = 1" by (auto split: sum.splits)
  have "case pg_FullTextSearch (\<lambda>_ _. True) (\<lambda>_ _. 0) ?f \<lparr>TQ_Text = ''x'', TQ_Type = [], TQ_Limit = 0\<rparr> sample_db
      of Inl _ \<Rightarrow> False | Inr ts \<Rightarrow> length ts = 2" by code_simp
  then obtain ts where ts: "pg_FullTextSearch (\<lambda>_ _. True) (\<lambda>_ _. 0) ?f \<lparr>TQ_Text = ''x'', TQ_Type = [], TQ_Limit = 0\<rparr> sample_db = Inr ts"
    "length ts = 2" by (auto split: sum.splits)
  have "wf_tables sample_db" using wf_sample by (simp add: wf_db_def)
  from postgres_search_readable [OF this vs(1) ts(1)] vs ts show ?thesis by blast
qed

section \<open>Two writers at once\<close>

text \<open>Two writers assert the film \<open>tmdb:603\<close>; the keys of their advisory locks differ.\<close>

definition rival :: "writer_id \<Rightarrow> append_entity_input" where
  "rival w = \<lparr>AE_Candidate = sample_cand\<lparr>E_ExternalIDs := [\<lparr>Scheme = ''tmdb'', Value = ''603''\<rparr>]\<rparr>,
     AE_Writer = w, AE_DedupeKey = ''k'', AE_Actor = ''kate'', AE_Policy = ResolveAuto\<rparr>"

definition rival_env :: "string \<Rightarrow> env" where
  "rival_env s = \<lparr>env_now = (\<lambda>k. 7), env_newID = (\<lambda>k. s @ replicate k CHR ''+''),
     env_th = \<lparr>AutoMerge = 0.94, Review = 0.86\<rparr>, env_sha = (\<lambda>s. s)\<rparr>"


section \<open>The properties of an attach\<close>

lemma obj_norm_simps:
  "obj_norm [] = []"
  "obj_norm ((k, v) # kvs) = (if k \<in> fst ` set (obj_norm kvs) then obj_norm kvs else (k, v) # obj_norm kvs)"
  by (simp_all add: obj_norm_def)

lemma obj_norm_keys: "fst ` set (obj_norm kvs) = fst ` set kvs"
proof (induction kvs)
  case (Cons p kvs)
  then show ?case by (cases p; cases "fst p \<in> fst ` set kvs") (simp_all add: obj_norm_simps insert_absorb)
qed (simp add: obj_norm_simps)

lemma obj_norm_distinct: "distinct (map fst (obj_norm kvs))"
proof (induction kvs)
  case (Cons p kvs)
  then show ?case by (cases p) (simp add: obj_norm_simps)
qed (simp add: obj_norm_simps)

lemma map_of_obj_norm: "map_of (obj_norm kvs) x = obj_get kvs x"
proof (induction kvs)
  case Nil
  then show ?case by (simp add: obj_norm_simps obj_get_def)
next
  case (Cons p kvs)
  obtain k v where p: "p = (k, v)" by (cases p)
  have cons: "obj_get ((k, v) # kvs) x = (case obj_get kvs x of None \<Rightarrow> if x = k then Some v else None | Some w \<Rightarrow> Some w)"
    by (simp add: obj_get_def map_add_def split: option.split)
  have "map_of (obj_norm ((k, v) # kvs)) x = obj_get ((k, v) # kvs) x"
  proof (cases "k \<in> fst ` set kvs")
    case True
    then have "map_of (obj_norm kvs) k \<noteq> None" unfolding map_of_eq_None_iff obj_norm_keys by simp
    with True Cons.IH cons show ?thesis by (cases "x = k") (auto simp: obj_norm_simps obj_norm_keys split: option.split)
  next
    case False
    then have "map_of (obj_norm kvs) k = None" unfolding map_of_eq_None_iff obj_norm_keys .
    with False Cons.IH cons show ?thesis by (cases "x = k") (auto simp: obj_norm_simps obj_norm_keys split: option.split)
  qed
  then show ?case by (simp add: p)
qed

lemma members_jsonb_obj: "map_of (members (jsonb_obj kvs)) x = obj_get kvs x"
proof -
  let ?sorted = "sort_key (\<lambda>p. (length (fst p), fst p)) (obj_norm kvs)"
  have "distinct (map fst ?sorted)"
    using obj_norm_distinct [of kvs] unfolding distinct_map by (simp only: set_sort distinct_sort)
  then have "map_of ?sorted = map_of (obj_norm kvs)" by (rule map_of_inject_set [THEN iffD2, OF _ obj_norm_distinct]) (simp only: set_sort)
  then show ?thesis by (simp add: members_def jsonb_obj_def map_of_obj_norm)
qed

lemma obj_get_distinct: "distinct (map fst kvs) \<Longrightarrow> obj_get kvs x = map_of kvs x"
  unfolding obj_get_def by (metis distinct_rev map_of_inject_set rev_map set_rev)

lemma members_concat:
  "map_of (members (jsonb_concat (JObj cand) (JObj stored))) x =
     (case obj_get stored x of None \<Rightarrow> obj_get cand x | Some v \<Rightarrow> Some v)"
  by (simp add: jsonb_concat_def members_jsonb_obj obj_get_def map_add_def split: option.split)

text \<open>An attach unites properties alike in both adapters, key by key, as long as the stored value
  is neither null nor an object: the stored value wins, and a key the entity lacks comes from the
  candidate.\<close>

theorem attach_parity:
  assumes "distinct (map fst cand)" and "distinct (map fst stored)"
    and "\<forall>v. map_of stored k = Some v \<longrightarrow> v \<noteq> JNull \<and> (\<forall>kvs. v \<noteq> JObj kvs)"
  shows "map_of (members (jsonb_concat (JObj cand) (JObj stored))) k = (case map_of stored k of None \<Rightarrow> map_of cand k | Some v \<Rightarrow> Some v) \<and>
    map_of (members (json_patch (JObj cand) (JObj stored))) k = (case map_of stored k of None \<Rightarrow> map_of cand k | Some v \<Rightarrow> Some v)"
proof
  show "map_of (members (jsonb_concat (JObj cand) (JObj stored))) k = (case map_of stored k of None \<Rightarrow> map_of cand k | Some v \<Rightarrow> Some v)"
    by (simp add: members_concat obj_get_distinct assms(1,2) split: option.split)
  have scalar: "json_patch t v = v" if "\<forall>kvs. v \<noteq> JObj kvs" for t v using that by (cases v) simp_all
  show "map_of (members (json_patch (JObj cand) (JObj stored))) k = (case map_of stored k of None \<Rightarrow> map_of cand k | Some v \<Rightarrow> Some v)"
    using patch_members_map_of [OF assms(2), of cand k] assms(3) scalar by (auto simp: members_def split: option.split)
qed

theorem attach_parity_witness:
  "map_of (members (jsonb_concat (JObj [(''name'', JStr ''New''), (''year'', JNum ''1999'')]) (JObj [(''name'', JStr ''Old'')]))) ''name'' =
     Some (JStr ''Old'')"
  using attach_parity [of "[(''name'', JStr ''New''), (''year'', JNum ''1999'')]" "[(''name'', JStr ''Old'')]" "''name''"]
  by simp

text \<open>On a stored object or null the two dialects differ: SQLite unites the objects and drops the null,
  Postgres keeps both as they were stored.\<close>

theorem attach_semantics_differ:
  "json_patch (JObj [(''k'', JObj [(''x'', JNum ''1'')])]) (JObj [(''k'', JObj [(''y'', JNum ''2'')])]) =
     JObj [(''k'', JObj [(''x'', JNum ''1''), (''y'', JNum ''2'')])] \<and>
   jsonb_concat (JObj [(''k'', JObj [(''x'', JNum ''1'')])]) (JObj [(''k'', JObj [(''y'', JNum ''2'')])]) =
     JObj [(''k'', JObj [(''y'', JNum ''2'')])] \<and>
   json_patch (JObj [(''k'', JNum ''1'')]) (JObj [(''k'', JNull)]) = JObj [] \<and>
   jsonb_concat (JObj [(''k'', JNum ''1'')]) (JObj [(''k'', JNull)]) = JObj [(''k'', JNull)]"
  by (simp add: jsonb_concat_def jsonb_obj_def obj_norm_def members_def obj_put_def obj_del_def)

text \<open>Two assertions of one film, the second without properties.\<close>

definition named_film :: append_entity_input where
  "named_film = (rival ''w1'')\<lparr>AE_Candidate := (AE_Candidate (rival ''w1''))\<lparr>E_Props := RawDoc (JObj [(''name'', JStr ''Solaris'')])\<rparr>\<rparr>"

definition film_log :: db where
  "film_log = fst (pg_AppendEntityFact sample_pg (rival_env ''y'') (rival ''w2'')
     (fst (pg_AppendEntityFact sample_pg (rival_env ''x'') named_film empty_db)))"

definition logged_film :: "json \<Rightarrow> entity" where
  "logged_film props = sample_cand\<lparr>E_ID := ''x'', E_ExternalIDs := [\<lparr>Scheme = ''tmdb'', Value = ''603''\<rparr>],
     E_Props := RawDoc props, E_Provenance := (E_Provenance sample_cand)\<lparr>AssertedAt := 7\<rparr>\<rparr>"

definition film_view :: "db \<Rightarrow> (fact_kind \<times> payload \<times> nat \<times> int \<times> string) list \<times> json list" where
  "film_view db = (map (\<lambda>f. (f_kind f, f_payload f, f_seq f, f_created_at f)) (facts db), map er_props (entities db))"

lemma film_log_view: "film_view film_log =
   ([(FactEntityAsserted, PEntity (logged_film (JObj [(''name'', JStr ''Solaris'')])), 2, fmtTS 7),
     (FactEntityAsserted, PEntity (logged_film JNull), 11, fmtTS 7)], [JObj [(''name'', JStr ''Solaris'')]])"
  by code_simp

lemma pg_foldFact_entity: "pg_foldFact pg FactEntityAsserted s (PEntity e) ts db = pg_upsertEntitySnapshot pg e ts db"
  by (simp add: pg_foldFact_def unmarshal_entity_def)

lemma pg_rebuild_two:
  assumes "fst (film_view db) = [(FactEntityAsserted, PEntity e, m, fmtTS t), (FactEntityAsserted, PEntity e', n, fmtTS t')]"
    and "m < n"
  shows "pg_RebuildProjection pg db =
    commit (rbind (pg_upsertEntitySnapshot pg e t (pg_clear db)) (pg_upsertEntitySnapshot pg e' t')) db"
proof -
  from assms(1) obtain f g where fs: "facts db = [f, g]" by (auto simp: film_view_def)
  with assms show ?thesis
    by (auto simp: film_view_def pg_RebuildProjection_def pg_rebuild_tx_def pg_foldFact_entity rbind_def split: sum.split)
qed

text \<open>Rebuilding the Postgres projection does not reproduce it. An assertion without properties is logged
  with the properties null; folding that fact onto the stored object concatenates the two into an
  array, whereas the write itself had left the object as it was.\<close>

theorem pg_rebuild_breaks_props:
  "map er_props (entities film_log) = [JObj [(''name'', JStr ''Solaris'')]] \<and>
   snd (pg_RebuildProjection sample_pg film_log) = None \<and>
   map er_props (entities (fst (pg_RebuildProjection sample_pg film_log))) = [JArr [JNull, JObj [(''name'', JStr ''Solaris'')]]]"
proof -
  let ?again = "commit (rbind (pg_upsertEntitySnapshot sample_pg (logged_film (JObj [(''name'', JStr ''Solaris'')])) 7 (pg_clear film_log))
      (pg_upsertEntitySnapshot sample_pg (logged_film JNull) 7)) film_log"
  have "pg_RebuildProjection sample_pg film_log = ?again"
    by (rule pg_rebuild_two [where m = 2 and n = 11]) (simp_all add: film_log_view)
  moreover have "case ?again of (d, e) \<Rightarrow> e = None \<and> map er_props (entities d) = [JArr [JNull, JObj [(''name'', JStr ''Solaris'')]]]"
    by code_simp
  moreover have "map er_props (entities film_log) = [JObj [(''name'', JStr ''Solaris'')]]"
    using film_log_view by (simp add: film_view_def)
  ultimately show ?thesis by (simp add: case_prod_beta)
qed

end
