(* ===== verification/Jdx_Golib.thy ===== *)
theory Jdx_Golib
  imports Jdx_Codec
begin

text \<open>
  The parts of Go's standard library that the identity, configuration and transport packages use
  beyond \<open>Jdx_Prelude\<close>: functions of \<open>strings\<close> and \<open>strconv\<close>, unpadded base64url, and how
  \<open>encoding/json\<close> stores a decoded JSON value into a struct. Text is ASCII.
\<close>

section \<open>strings and strconv\<close>

text \<open>\<open>strings.Split(s, sep)\<close> with a one-byte separator.\<close>

fun Split :: "char \<Rightarrow> string \<Rightarrow> string list" where
  "Split sep [] = [[]]"
| "Split sep (c # cs) =
     (if c = sep then [] # Split sep cs
      else (case Split sep cs of [] \<Rightarrow> [[c]] | w # ws \<Rightarrow> (c # w) # ws))"

definition HasPrefix :: "string \<Rightarrow> string \<Rightarrow> bool" where
  "HasPrefix s p \<longleftrightarrow> take (length p) s = p"

definition HasSuffix :: "string \<Rightarrow> string \<Rightarrow> bool" where
  "HasSuffix s p \<longleftrightarrow> length p \<le> length s \<and> drop (length s - length p) s = p"

definition TrimPrefix :: "string \<Rightarrow> string \<Rightarrow> string" where
  "TrimPrefix s p = (if HasPrefix s p then drop (length p) s else s)"

definition TrimSuffix :: "string \<Rightarrow> string \<Rightarrow> string" where
  "TrimSuffix s p = (if HasSuffix s p then take (length s - length p) s else s)"

definition TrimRight :: "string \<Rightarrow> char set \<Rightarrow> string" where
  "TrimRight s cutset = rev (dropWhile (\<lambda>c. c \<in> cutset) (rev s))"

definition Trim :: "string \<Rightarrow> char set \<Rightarrow> string" where
  "Trim s cutset = TrimRight (dropWhile (\<lambda>c. c \<in> cutset) s) cutset"

text \<open>\<open>strings.Cut(s, sep)\<close> with a one-byte separator: the text before and after its first
  occurrence, if there is one.\<close>

definition Cut :: "string \<Rightarrow> char \<Rightarrow> (string \<times> string) option" where
  "Cut s sep = (if sep \<in> set s
     then Some (takeWhile (\<lambda>c. c \<noteq> sep) s, tl (dropWhile (\<lambda>c. c \<noteq> sep) s)) else None)"

text \<open>The text before the last occurrence, as \<open>addr[:strings.LastIndex(addr, sep)]\<close> reads it.\<close>

definition before_last :: "string \<Rightarrow> char \<Rightarrow> string" where
  "before_last s sep = (if sep \<in> set s then rev (tl (dropWhile (\<lambda>c. c \<noteq> sep) (rev s))) else s)"

definition EqualFold :: "string \<Rightarrow> string \<Rightarrow> bool" where
  "EqualFold s t \<longleftrightarrow> ToLower s = ToLower t"

definition is_digit :: "char \<Rightarrow> bool" where
  "is_digit c \<longleftrightarrow> 48 \<le> (of_char c :: nat) \<and> (of_char c :: nat) \<le> 57"

definition split_sign :: "string \<Rightarrow> bool \<times> string" where
  "split_sign s = (case s of [] \<Rightarrow> (False, [])
     | c # cs \<Rightarrow> if c = CHR ''-'' then (True, cs) else if c = CHR ''+'' then (False, cs) else (False, s))"

text \<open>\<open>strconv.Atoi\<close>: an optional sign, at least one decimal digit, a value that fits an int64.\<close>

definition Atoi :: "string \<Rightarrow> int option" where
  "Atoi s = (let (neg, ds) = split_sign s in
     if ds = [] \<or> \<not> list_all is_digit ds then None
     else
       let n = int (digits_val (map char_digit ds)); v = (if neg then - n else n) in
       if - (2 ^ 63) \<le> v \<and> v < 2 ^ 63 then Some v else None)"

lemma Split_not_Nil [simp]: "Split sep s \<noteq> []"
  by (induction s) (auto split: list.split)

lemma Join_Split [simp]: "Join (Split sep s) [sep] = s"
proof (induction s)
  case Nil
  then show ?case by simp
next
  case (Cons c cs)
  obtain w ws where w: "Split sep cs = w # ws" by (cases "Split sep cs") simp_all
  show ?case
    using Cons w by (cases ws) auto
qed

lemma Split_no_sep: "w \<in> set (Split sep s) \<Longrightarrow> sep \<notin> set w"
proof (induction s arbitrary: w)
  case Nil
  then show ?case by simp
next
  case (Cons c cs)
  obtain v vs where v: "Split sep cs = v # vs" by (cases "Split sep cs") simp_all
  with Cons show ?case by (auto split: if_splits)
qed

lemma HasSuffix_iff: "HasSuffix s p \<longleftrightarrow> (\<exists>t. s = t @ p)"
proof
  assume h: "HasSuffix s p"
  have "s = take (length s - length p) s @ drop (length s - length p) s" by simp
  with h show "\<exists>t. s = t @ p" unfolding HasSuffix_def by metis
qed (auto simp: HasSuffix_def)

lemma TrimSuffix_append [simp]: "TrimSuffix (t @ p) p = t"
  by (simp add: TrimSuffix_def HasSuffix_def)

lemma Atoi_range: "Atoi s = Some n \<Longrightarrow> - (2 ^ 63) \<le> n \<and> n < 2 ^ 63"
  by (auto simp: Atoi_def Let_def case_prod_beta split: if_splits)

text \<open>\<open>io.LimitReader\<close>: the first \<open>n\<close> bytes.\<close>

fun LimitReader :: "string \<Rightarrow> int \<Rightarrow> string" where
  "LimitReader [] n = []"
| "LimitReader (c # cs) n = (if n \<le> 0 then [] else c # LimitReader cs (n - 1))"

section \<open>base64url without padding\<close>

definition b64_val :: "char \<Rightarrow> nat option" where
  "b64_val c = (let n = (of_char c :: nat) in
     if 65 \<le> n \<and> n \<le> 90 then Some (n - 65)
     else if 97 \<le> n \<and> n \<le> 122 then Some (n - 71)
     else if 48 \<le> n \<and> n \<le> 57 then Some (n + 4)
     else if c = CHR ''-'' then Some 62 else if c = CHR ''_'' then Some 63 else None)"

fun b64_sextets :: "string \<Rightarrow> nat list option" where
  "b64_sextets [] = Some []"
| "b64_sextets (c # cs) = (case b64_val c of None \<Rightarrow> None
     | Some v \<Rightarrow> map_option ((#) v) (b64_sextets cs))"

fun b64_bytes :: "nat list \<Rightarrow> byte list option" where
  "b64_bytes [] = Some []"
| "b64_bytes [a] = None"
| "b64_bytes [a, b] = Some [of_nat (a * 4 + b div 16)]"
| "b64_bytes [a, b, c] = Some [of_nat (a * 4 + b div 16), of_nat (b mod 16 * 16 + c div 4)]"
| "b64_bytes (a # b # c # d # r) = map_option (\<lambda>bs. of_nat (a * 4 + b div 16) #
     of_nat (b mod 16 * 16 + c div 4) # of_nat (c mod 4 * 64 + d) # bs) (b64_bytes r)"

text \<open>\<open>base64.RawURLEncoding.DecodeString\<close>: carriage returns and newlines are skipped, bits of the
  last character that do not fill a byte are ignored.\<close>

definition RawURL_DecodeString :: "string \<Rightarrow> byte list option" where
  "RawURL_DecodeString s =
     Option.bind (b64_sextets (filter (\<lambda>c. c \<noteq> CHR 0x0A \<and> c \<noteq> CHR 0x0D) s)) b64_bytes"

definition bytes_text :: "byte list \<Rightarrow> string" where
  "bytes_text bs = map (\<lambda>b. char_of (unat b)) bs"

text \<open>\<open>new(big.Int).SetBytes\<close>: big-endian.\<close>

definition SetBytes :: "byte list \<Rightarrow> nat" where
  "SetBytes bs = foldl (\<lambda>a b. 256 * a + unat b) 0 bs"

section \<open>Storing JSON values into Go values\<close>

text \<open>
  \<open>null\<close> leaves a Go value of a basic or struct type as it is and makes a pointer or slice nil; a
  value of the wrong kind is an \<open>UnmarshalTypeError\<close>. A member is stored into the field whose
  name it matches up to case, members without a field are skipped, a later member overwrites.
\<close>

definition dec_string :: "json \<Rightarrow> string \<Rightarrow> string res" where
  "dec_string j old = (case j of JStr s \<Rightarrow> Inr s | JNull \<Rightarrow> Inr old | _ \<Rightarrow> Inl ErrUnmarshal)"

definition dec_bool :: "json \<Rightarrow> bool \<Rightarrow> bool res" where
  "dec_bool j old = (case j of JBool b \<Rightarrow> Inr b | JNull \<Rightarrow> Inr old | _ \<Rightarrow> Inl ErrUnmarshal)"

definition dec_int :: "json \<Rightarrow> int \<Rightarrow> int res" where
  "dec_int j old = (case j of
       JNum n \<Rightarrow> (case Atoi n of Some i \<Rightarrow> Inr i | None \<Rightarrow> Inl ErrUnmarshal)
     | JNull \<Rightarrow> Inr old | _ \<Rightarrow> Inl ErrUnmarshal)"

definition dec_slice :: "(json \<Rightarrow> 'a res) \<Rightarrow> json \<Rightarrow> 'a list res" where
  "dec_slice f j = (case j of JArr js \<Rightarrow> rmap f js | JNull \<Rightarrow> Inr [] | _ \<Rightarrow> Inl ErrUnmarshal)"

definition dec_strings :: "json \<Rightarrow> string list res" where
  "dec_strings = dec_slice (\<lambda>j. dec_string j [])"

definition dec_struct :: "(string \<Rightarrow> json \<Rightarrow> 's \<Rightarrow> 's res) \<Rightarrow> json \<Rightarrow> 's \<Rightarrow> 's res" where
  "dec_struct field j s = (case j of
       JObj kvs \<Rightarrow> rfold (\<lambda>(k, v). field (ToLower k) v) kvs s
     | JNull \<Rightarrow> Inr s | _ \<Rightarrow> Inl ErrUnmarshal)"

definition unmarshal_raw :: "(json \<Rightarrow> 'a res) \<Rightarrow> rawmsg \<Rightarrow> 'a res" where
  "unmarshal_raw f r = (case r of RawDoc j \<Rightarrow> f j | _ \<Rightarrow> Inl ErrUnmarshal)"

definition upd :: "('a \<Rightarrow> 's \<Rightarrow> 's) \<Rightarrow> 'a res \<Rightarrow> 's \<Rightarrow> 's res" where
  "upd put r s = rbind r (\<lambda>x. Inr (put x s))"

end
