(* ===== verification/Jdx_Mcp.thy ===== *)
theory Jdx_Mcp
  imports Jdx_Boundary Jdx_Golib
begin

text \<open>
  The MCP server of \<open>internal/mcp\<close>: a JSON-RPC request is decoded, a tool call is dispatched to
  its handler, the handler decodes its arguments and calls the service, and the outcome becomes a
  tool result. The syntax of JSON text is a parameter (\<open>ms_parse\<close>); results are kept as the Go
  values they are built from, with what \<open>json.Marshal\<close> makes of them where the code looks at it.
  Tool descriptions and input schemas are texts for the client and are left out.
\<close>

section \<open>The server\<close>

text \<open>\<open>ms_eord\<close>, \<open>ms_nord\<close> and \<open>ms_fts\<close> stand for what SQLite decides in the service's reads.\<close>

record mcp_server =
  ms_svc :: service
  ms_parse :: "string \<Rightarrow> json option"
  ms_eord :: "entity_row list \<Rightarrow> entity_row list"
  ms_nord :: "entity_id \<Rightarrow> edge_row list \<Rightarrow> edge_row list"
  ms_fts :: fts_engine

datatype tool_value =
    TV_Entity entity | TV_Entities "entity list" | TV_Scored "scored_entity list" | TV_Subgraph subgraph
  | TV_Resolve resolve_result | TV_Edge edge | TV_Proposals "proposal list" | TV_Pending string

type_synonym handlerFunc = "string \<Rightarrow> rawmsg \<Rightarrow> db \<Rightarrow> db \<times> tool_value res"

record rpcRequest =
  RQ_JSONRPC :: string
  RQ_ID :: rawmsg
  RQ_Method :: string
  RQ_Params :: rawmsg

datatype tool_text = TextOf "tool_value option" | TextErr gerr | TextUnknown string

record tool_result =
  TR_Content :: tool_text
  TR_IsError :: bool
  TR_Structured :: "tool_value option"

datatype rpc_result = ResInitialize | ResPong | ResTools "string list" | ResTool tool_result

datatype rpcResponse = RpcOk rawmsg rpc_result | RpcError rawmsg int string

definition codeParse :: int where "codeParse = -32700"
definition codeInvalidRequest :: int where "codeInvalidRequest = -32600"
definition codeMethodNotFound :: int where "codeMethodNotFound = -32601"

section \<open>Decoding arguments\<close>

text \<open>Strings of the wire as the enumerations they are cast to.\<close>

definition vis_of :: "string \<Rightarrow> visibility" where
  "vis_of s = (if s = ''private'' then VisPrivate else if s = ''space'' then VisSpace
     else if s = ''public'' then VisPublic else VisOther s)"

definition policy_of :: "string \<Rightarrow> resolve_policy" where
  "policy_of s = (if s = ''auto'' then ResolveAuto else if s = ''external_only'' then ResolveExternalOnly
     else if s = ''force_new'' then ResolveForceNew else PolicyOther s)"

text \<open>A struct with one string field.\<close>

definition one_string :: "string \<Rightarrow> rawmsg \<Rightarrow> string res" where
  "one_string name = unmarshal_raw (\<lambda>j. dec_struct (\<lambda>k v s. if k = name then dec_string v s else Inr s) j [])"

definition keys_args :: "rawmsg \<Rightarrow> string list res" where
  "keys_args = unmarshal_raw (\<lambda>j. dec_struct (\<lambda>k v ks. if k = ''keys'' then dec_strings v else Inr ks) j [])"

definition neighbors_field :: "string \<Rightarrow> json \<Rightarrow> neighbor_query \<Rightarrow> neighbor_query res" where
  "neighbors_field k v q =
     (if k = ''start'' then upd (\<lambda>x. NQ_Start_update (\<lambda>_. x)) (dec_string v (NQ_Start q)) q
      else if k = ''predicates'' then upd (\<lambda>x. NQ_Predicates_update (\<lambda>_. x)) (dec_strings v) q
      else if k = ''max_hops'' then upd (\<lambda>x. NQ_MaxHops_update (\<lambda>_. x)) (dec_int v (NQ_MaxHops q)) q
      else if k = ''limit'' then upd (\<lambda>x. NQ_Limit_update (\<lambda>_. x)) (dec_int v (NQ_Limit q)) q
      else Inr q)"

definition search_field :: "string \<Rightarrow> json \<Rightarrow> search_query \<Rightarrow> search_query res" where
  "search_field k v q =
     (if k = ''text'' then upd (\<lambda>x. SQ_Text_update (\<lambda>_. x)) (dec_string v (SQ_Text q)) q
      else if k = ''type'' then upd (\<lambda>x. SQ_Type_update (\<lambda>_. x)) (dec_string v (SQ_Type q)) q
      else if k = ''limit'' then upd (\<lambda>x. SQ_Limit_update (\<lambda>_. x)) (dec_int v (SQ_Limit q)) q
      else Inr q)"

definition external_id_field :: "string \<Rightarrow> json \<Rightarrow> external_id \<Rightarrow> external_id res" where
  "external_id_field k v x =
     (if k = ''scheme'' then upd (\<lambda>s. Scheme_update (\<lambda>_. s)) (dec_string v (Scheme x)) x
      else if k = ''value'' then upd (\<lambda>s. Value_update (\<lambda>_. s)) (dec_string v (Value x)) x
      else Inr x)"

record entityArgs =
  EA_Type :: string
  EA_Props :: rawmsg
  EA_ExternalIDs :: "external_id list"
  EA_Space :: string
  EA_Visibility :: string
  EA_Policy :: string
  EA_DedupeKey :: string

definition entity_args_field :: "string \<Rightarrow> json \<Rightarrow> entityArgs \<Rightarrow> entityArgs res" where
  "entity_args_field k v a =
     (if k = ''type'' then upd (\<lambda>x. EA_Type_update (\<lambda>_. x)) (dec_string v (EA_Type a)) a
      else if k = ''props'' then Inr (a\<lparr>EA_Props := RawDoc v\<rparr>)
      else if k = ''external_ids'' then upd (\<lambda>x. EA_ExternalIDs_update (\<lambda>_. x))
        (dec_slice (\<lambda>j. dec_struct external_id_field j \<lparr>Scheme = [], Value = []\<rparr>) v) a
      else if k = ''space'' then upd (\<lambda>x. EA_Space_update (\<lambda>_. x)) (dec_string v (EA_Space a)) a
      else if k = ''visibility'' then upd (\<lambda>x. EA_Visibility_update (\<lambda>_. x)) (dec_string v (EA_Visibility a)) a
      else if k = ''policy'' then upd (\<lambda>x. EA_Policy_update (\<lambda>_. x)) (dec_string v (EA_Policy a)) a
      else if k = ''dedupe_key'' then upd (\<lambda>x. EA_DedupeKey_update (\<lambda>_. x)) (dec_string v (EA_DedupeKey a)) a
      else Inr a)"

definition parseEntity :: "rawmsg \<Rightarrow> create_input res" where
  "parseEntity args =
     rbind (unmarshal_raw (\<lambda>j. dec_struct entity_args_field j \<lparr>EA_Type = [], EA_Props = RawEmpty, EA_ExternalIDs = [],
         EA_Space = [], EA_Visibility = [], EA_Policy = [], EA_DedupeKey = []\<rparr>) args) (\<lambda>a.
     Inr \<lparr>CI_Type = EA_Type a, CI_Props = EA_Props a, CI_ExternalIDs = EA_ExternalIDs a, CI_Space = EA_Space a,
       CI_Visibility = vis_of (EA_Visibility a), CI_Embeddings = [], CI_Policy = policy_of (EA_Policy a),
       CI_DedupeKey = EA_DedupeKey a\<rparr>)"

record linkArgs =
  LA_Predicate :: string
  LA_From :: string
  LA_To :: string
  LA_Props :: rawmsg
  LA_Space :: string
  LA_Visibility :: string
  LA_DedupeKey :: string

definition link_args_field :: "string \<Rightarrow> json \<Rightarrow> linkArgs \<Rightarrow> linkArgs res" where
  "link_args_field k v a =
     (if k = ''predicate'' then upd (\<lambda>x. LA_Predicate_update (\<lambda>_. x)) (dec_string v (LA_Predicate a)) a
      else if k = ''from'' then upd (\<lambda>x. LA_From_update (\<lambda>_. x)) (dec_string v (LA_From a)) a
      else if k = ''to'' then upd (\<lambda>x. LA_To_update (\<lambda>_. x)) (dec_string v (LA_To a)) a
      else if k = ''props'' then Inr (a\<lparr>LA_Props := RawDoc v\<rparr>)
      else if k = ''space'' then upd (\<lambda>x. LA_Space_update (\<lambda>_. x)) (dec_string v (LA_Space a)) a
      else if k = ''visibility'' then upd (\<lambda>x. LA_Visibility_update (\<lambda>_. x)) (dec_string v (LA_Visibility a)) a
      else if k = ''dedupe_key'' then upd (\<lambda>x. LA_DedupeKey_update (\<lambda>_. x)) (dec_string v (LA_DedupeKey a)) a
      else Inr a)"

definition parseLink :: "rawmsg \<Rightarrow> link_input res" where
  "parseLink args =
     rbind (unmarshal_raw (\<lambda>j. dec_struct link_args_field j \<lparr>LA_Predicate = [], LA_From = [], LA_To = [],
         LA_Props = RawEmpty, LA_Space = [], LA_Visibility = [], LA_DedupeKey = []\<rparr>) args) (\<lambda>a.
     Inr \<lparr>LI_Predicate = LA_Predicate a, LI_From = LA_From a, LI_To = LA_To a, LI_Props = LA_Props a,
       LI_Space = LA_Space a, LI_Visibility = vis_of (LA_Visibility a), LI_DedupeKey = LA_DedupeKey a\<rparr>)"

definition decide_field :: "string \<Rightarrow> json \<Rightarrow> string \<times> bool \<Rightarrow> (string \<times> bool) res" where
  "decide_field k v a =
     (if k = ''proposal_id'' then upd (\<lambda>x p. (x, snd p)) (dec_string v (fst a)) a
      else if k = ''approve'' then upd (\<lambda>x p. (fst p, x)) (dec_bool v (snd a)) a
      else Inr a)"

text \<open>\<open>list_proposals\<close> ignores the error: a member of the wrong kind leaves the space as it was.\<close>

definition lax_space :: "rawmsg \<Rightarrow> string" where
  "lax_space args = (case args of
       RawDoc (JObj kvs) \<Rightarrow> foldl (\<lambda>s (k, v). if ToLower k = ''space''
         then (case dec_string v s of Inl _ \<Rightarrow> s | Inr x \<Rightarrow> x) else s) [] kvs
     | _ \<Rightarrow> [])"

section \<open>The tools\<close>

definition reads :: "(db \<Rightarrow> tool_value res) \<Rightarrow> db \<Rightarrow> db \<times> tool_value res" where
  "reads f db = (db, f db)"

text \<open>A Go pair of a result and an error, of which the dispatcher sees the error first.\<close>

definition outcome :: "('a \<Rightarrow> tool_value) \<Rightarrow> db \<times> 'a \<times> gerr option \<Rightarrow> db \<times> tool_value res" where
  "outcome f p = (case p of (db', x, Some e) \<Rightarrow> (db', Inl e) | (db', x, None) \<Rightarrow> (db', Inr (f x)))"

definition with_args :: "'a res \<Rightarrow> ('a \<Rightarrow> db \<Rightarrow> db \<times> tool_value res) \<Rightarrow> db \<Rightarrow> db \<times> tool_value res" where
  "with_args r f db = (case r of Inl e \<Rightarrow> (db, Inl e) | Inr a \<Rightarrow> f a db)"

definition registerTools :: "mcp_server \<Rightarrow> env \<Rightarrow> (string \<times> handlerFunc) list" where
  "registerTools s env = (let sv = ms_svc s in
     [(''get_entity'', \<lambda>b args. with_args (one_string ''id'' args)
         (\<lambda>i. reads (\<lambda>db. rbind (svc_GetEntity sv b i db) (\<lambda>e. Inr (TV_Entity e))))),
      (''resolve_external'', \<lambda>b args. with_args (keys_args args)
         (\<lambda>ks. reads (\<lambda>db. rbind (svc_ResolveByExternalID sv (ms_eord s) b ks db) (\<lambda>es. Inr (TV_Entities es))))),
      (''get_neighbors'', \<lambda>b args. with_args (unmarshal_raw (\<lambda>j. dec_struct neighbors_field j
           \<lparr>NQ_Start = [], NQ_Predicates = [], NQ_MaxHops = 0, NQ_Limit = 0\<rparr>) args)
         (\<lambda>q. reads (\<lambda>db. rbind (svc_Neighbors sv (ms_nord s) b q db) (\<lambda>g. Inr (TV_Subgraph g))))),
      (''search'', \<lambda>b args. with_args (unmarshal_raw (\<lambda>j. dec_struct search_field j
           \<lparr>SQ_Text = [], SQ_Type = [], SQ_Limit = 0\<rparr>) args)
         (\<lambda>q. reads (\<lambda>db. rbind (svc_Search sv (ms_fts s) b q db) (\<lambda>rs. Inr (TV_Scored rs))))),
      (''create_entity'', \<lambda>b args. with_args (parseEntity args)
         (\<lambda>inp db. outcome TV_Resolve (svc_CreateEntity sv env b inp db))),
      (''link'', \<lambda>b args. with_args (parseLink args) (\<lambda>inp db. outcome TV_Edge (svc_Link sv env b inp db))),
      (''propose_entity'', \<lambda>b args. with_args (parseEntity args)
         (\<lambda>inp db. outcome TV_Pending (svc_ProposeEntity sv env b inp db))),
      (''propose_link'', \<lambda>b args. with_args (parseLink args)
         (\<lambda>inp db. outcome TV_Pending (svc_ProposeLink sv env b inp db))),
      (''decide_proposal'', \<lambda>b args. with_args (unmarshal_raw (\<lambda>j. dec_struct decide_field j ([], False)) args)
         (\<lambda>a db. outcome TV_Resolve (svc_DecideProposal sv env b (fst a) (snd a) db))),
      (''list_proposals'', \<lambda>b args.
         reads (\<lambda>db. rbind (svc_ListProposals sv b (lax_space args) db) (\<lambda>ps. Inr (TV_Proposals ps))))])"

definition tool_names :: "mcp_server \<Rightarrow> env \<Rightarrow> string list" where
  "tool_names s env = sort (map fst (registerTools s env))"

section \<open>Results\<close>

definition strip :: "entity \<Rightarrow> entity" where
  "strip e = e\<lparr>E_Embeddings := []\<rparr>"

definition sanitizeForAgent :: "tool_value \<Rightarrow> tool_value" where
  "sanitizeForAgent v = (case v of
       TV_Entity e \<Rightarrow> TV_Entity (strip e)
     | TV_Entities es \<Rightarrow> TV_Entities (map strip es)
     | TV_Scored rs \<Rightarrow> TV_Scored (map (\<lambda>r. r\<lparr>SE_Entity := strip (SE_Entity r)\<rparr>) rs)
     | TV_Subgraph g \<Rightarrow> TV_Subgraph (g\<lparr>SG_Entities := map strip (SG_Entities g)\<rparr>)
     | TV_Resolve r \<Rightarrow> TV_Resolve (r\<lparr>RR_Entity := strip (RR_Entity r)\<rparr>)
     | _ \<Rightarrow> v)"

text \<open>What \<open>json.Marshal\<close> does with a value: it fails on invalid raw JSON or a non-finite float,
  gives an object for a struct or a map, and an array (or null) for a slice.\<close>

definition entity_marshals :: "entity \<Rightarrow> bool" where
  "entity_marshals e \<longleftrightarrow> embeddings_finite (E_Embeddings e) \<and> (case E_Props e of RawBad _ \<Rightarrow> False | _ \<Rightarrow> True)"

definition edge_marshals :: "edge \<Rightarrow> bool" where
  "edge_marshals d \<longleftrightarrow> (case D_Props d of RawBad _ \<Rightarrow> False | _ \<Rightarrow> True)"

definition marshals :: "tool_value \<Rightarrow> bool" where
  "marshals v = (case v of
       TV_Entity e \<Rightarrow> entity_marshals e
     | TV_Entities es \<Rightarrow> list_all entity_marshals es
     | TV_Scored rs \<Rightarrow> list_all (\<lambda>r. entity_marshals (SE_Entity r)) rs
     | TV_Subgraph g \<Rightarrow> list_all entity_marshals (SG_Entities g) \<and> list_all edge_marshals (SG_Edges g)
     | TV_Resolve r \<Rightarrow> entity_marshals (RR_Entity r)
     | TV_Edge d \<Rightarrow> edge_marshals d
     | TV_Proposals ps \<Rightarrow> True
     | TV_Pending i \<Rightarrow> True)"

definition is_object :: "tool_value \<Rightarrow> bool" where
  "is_object v = (case v of TV_Entities _ \<Rightarrow> False | TV_Scored _ \<Rightarrow> False | TV_Proposals _ \<Rightarrow> False | _ \<Rightarrow> True)"

definition toolResult :: "tool_value \<Rightarrow> tool_result" where
  "toolResult v = \<lparr>TR_Content = TextOf (if marshals v then Some v else None), TR_IsError = False,
     TR_Structured = (if marshals v \<and> is_object v then Some v else None)\<rparr>"

definition toolError :: "tool_text \<Rightarrow> tool_result" where
  "toolError msg = \<lparr>TR_Content = msg, TR_IsError = True, TR_Structured = None\<rparr>"

section \<open>Dispatch\<close>

definition request_field :: "string \<Rightarrow> json \<Rightarrow> rpcRequest \<Rightarrow> rpcRequest res" where
  "request_field k v r =
     (if k = ''jsonrpc'' then upd (\<lambda>x. RQ_JSONRPC_update (\<lambda>_. x)) (dec_string v (RQ_JSONRPC r)) r
      else if k = ''id'' then Inr (r\<lparr>RQ_ID := RawDoc v\<rparr>)
      else if k = ''method'' then upd (\<lambda>x. RQ_Method_update (\<lambda>_. x)) (dec_string v (RQ_Method r)) r
      else if k = ''params'' then Inr (r\<lparr>RQ_Params := RawDoc v\<rparr>)
      else Inr r)"

definition unmarshal_text :: "mcp_server \<Rightarrow> (json \<Rightarrow> 'a res) \<Rightarrow> string \<Rightarrow> 'a res" where
  "unmarshal_text s f body = (case ms_parse s body of None \<Rightarrow> Inl ErrUnmarshal | Some j \<Rightarrow> f j)"

definition params_field :: "string \<Rightarrow> json \<Rightarrow> string \<times> rawmsg \<Rightarrow> (string \<times> rawmsg) res" where
  "params_field k v p =
     (if k = ''name'' then upd (\<lambda>x q. (x, snd q)) (dec_string v (fst p)) p
      else if k = ''arguments'' then Inr (fst p, RawDoc v)
      else Inr p)"

definition callTool :: "mcp_server \<Rightarrow> env \<Rightarrow> string \<Rightarrow> rpcRequest \<Rightarrow> db \<Rightarrow> db \<times> rpcResponse" where
  "callTool s env bearer req db =
     (case unmarshal_raw (\<lambda>j. dec_struct params_field j ([], RawEmpty)) (RQ_Params req) of
        Inl e \<Rightarrow> (db, RpcError (RQ_ID req) codeInvalidRequest ''invalid params'')
      | Inr (name, args) \<Rightarrow>
          (case map_of (registerTools s env) name of
             None \<Rightarrow> (db, RpcOk (RQ_ID req) (ResTool (toolError (TextUnknown name))))
           | Some handler \<Rightarrow>
               (case handler bearer args db of
                  (db', Inl e) \<Rightarrow> (db', RpcOk (RQ_ID req) (ResTool (toolError (TextErr e))))
                | (db', Inr v) \<Rightarrow> (db', RpcOk (RQ_ID req) (ResTool (toolResult (sanitizeForAgent v)))))))"

definition Handle :: "mcp_server \<Rightarrow> env \<Rightarrow> string \<Rightarrow> string \<Rightarrow> db \<Rightarrow> db \<times> rpcResponse option" where
  "Handle s env bearer body db =
     (case unmarshal_text s (\<lambda>j. dec_struct request_field j
          \<lparr>RQ_JSONRPC = [], RQ_ID = RawEmpty, RQ_Method = [], RQ_Params = RawEmpty\<rparr>) body of
        Inl e \<Rightarrow> (db, Some (RpcError RawEmpty codeParse ''parse error''))
      | Inr req \<Rightarrow>
          if RQ_JSONRPC req \<noteq> ''2.0'' then
            (db, Some (RpcError (RQ_ID req) codeInvalidRequest ''jsonrpc must be 2.0''))
          else if RQ_Method req = ''initialize'' then (db, Some (RpcOk (RQ_ID req) ResInitialize))
          else if RQ_Method req = ''ping'' then (db, Some (RpcOk (RQ_ID req) ResPong))
          else if RQ_Method req = ''tools/list'' then (db, Some (RpcOk (RQ_ID req) (ResTools (tool_names s env))))
          else if RQ_Method req = ''tools/call'' then
            (let (db', r) = callTool s env bearer req db in (db', Some r))
          else if RQ_Method req = ''notifications/initialized'' then (db, None)
          else (db, Some (RpcError (RQ_ID req) codeMethodNotFound (''unknown method: '' @ RQ_Method req))))"

section \<open>What a tool call can do\<close>

lemma reads_sel [simp]: "fst (reads f db) = db" "snd (reads f db) = f db"
  by (simp_all add: reads_def)

lemma outcome_fst [simp]: "fst (outcome f p) = fst p"
  by (simp add: outcome_def split: prod.split option.split)

lemma with_args_fst: "fst (with_args r f db) = (case r of Inl e \<Rightarrow> db | Inr a \<Rightarrow> fst (f a db))"
  by (simp add: with_args_def split: sum.split)

definition write_tools :: "string set" where
  "write_tools = {''create_entity'', ''link'', ''propose_entity'', ''propose_link'', ''decide_proposal''}"

definition params_of :: "rpcRequest \<Rightarrow> (string \<times> rawmsg) res" where
  "params_of req = unmarshal_raw (\<lambda>j. dec_struct params_field j ([], RawEmpty)) (RQ_Params req)"

definition request_of :: "mcp_server \<Rightarrow> string \<Rightarrow> rpcRequest res" where
  "request_of s body = unmarshal_text s (\<lambda>j. dec_struct request_field j
          \<lparr>RQ_JSONRPC = [], RQ_ID = RawEmpty, RQ_Method = [], RQ_Params = RawEmpty\<rparr>) body"

definition authenticates :: "service \<Rightarrow> string \<Rightarrow> bool" where
  "authenticates sv b \<longleftrightarrow> (\<exists>d. am_Authenticate (sv_access sv) b = Inr d)"

lemma svc_writes_authenticated:
  "\<not> authenticates sv b \<Longrightarrow> fst (svc_CreateEntity sv env b ci db) = db"
  "\<not> authenticates sv b \<Longrightarrow> fst (svc_Link sv env b li db) = db"
  "\<not> authenticates sv b \<Longrightarrow> fst (svc_ProposeEntity sv env b ci db) = db"
  "\<not> authenticates sv b \<Longrightarrow> fst (svc_ProposeLink sv env b li db) = db"
  "\<not> authenticates sv b \<Longrightarrow> fst (svc_DecideProposal sv env b i ap db) = db"
  by (auto simp: authenticates_def auth_def svc_CreateEntity_def svc_Link_def svc_ProposeEntity_def
      svc_ProposeLink_def svc_DecideProposal_def split: sum.split)

lemma tool_changes:
  assumes "map_of (registerTools s env) name = Some h" and "fst (h b args db) \<noteq> db"
  shows "name \<in> write_tools \<and> authenticates (ms_svc s) b"
proof -
  have w: "name \<in> write_tools"
    using assms by (auto simp: registerTools_def write_tools_def Let_def with_args_fst split: if_splits sum.splits)
  moreover have "authenticates (ms_svc s) b"
  proof (rule ccontr)
    assume "\<not> authenticates (ms_svc s) b"
    note un = svc_writes_authenticated [OF this]
    have "fst (h b args db) = db"
      using assms(1) w by (auto simp: registerTools_def write_tools_def Let_def with_args_fst un split: sum.split)
    with assms(2) show False by simp
  qed
  ultimately show ?thesis by blast
qed

lemma Handle_request:
  "Handle s env b body db = (case request_of s body of
     Inl e \<Rightarrow> (db, Some (RpcError RawEmpty codeParse ''parse error''))
   | Inr req \<Rightarrow>
       if RQ_JSONRPC req \<noteq> ''2.0'' then (db, Some (RpcError (RQ_ID req) codeInvalidRequest ''jsonrpc must be 2.0''))
       else if RQ_Method req = ''initialize'' then (db, Some (RpcOk (RQ_ID req) ResInitialize))
       else if RQ_Method req = ''ping'' then (db, Some (RpcOk (RQ_ID req) ResPong))
       else if RQ_Method req = ''tools/list'' then (db, Some (RpcOk (RQ_ID req) (ResTools (tool_names s env))))
       else if RQ_Method req = ''tools/call'' then map_prod id Some (callTool s env b req db)
       else if RQ_Method req = ''notifications/initialized'' then (db, None)
       else (db, Some (RpcError (RQ_ID req) codeMethodNotFound (''unknown method: '' @ RQ_Method req))))"
  by (simp add: Handle_def request_of_def map_prod_def case_prod_beta split: sum.split)

lemma callTool_cases:
  obtains (bad) e where "params_of req = Inl e" and "callTool s env b req db =
      (db, RpcError (RQ_ID req) codeInvalidRequest ''invalid params'')"
  | (unknown) name args where "params_of req = Inr (name, args)" and "map_of (registerTools s env) name = None"
      and "callTool s env b req db = (db, RpcOk (RQ_ID req) (ResTool (toolError (TextUnknown name))))"
  | (failed) name args h db' e where "params_of req = Inr (name, args)" and "map_of (registerTools s env) name = Some h"
      and "h b args db = (db', Inl e)" and "callTool s env b req db = (db', RpcOk (RQ_ID req) (ResTool (toolError (TextErr e))))"
  | (served) name args h db' v where "params_of req = Inr (name, args)" and "map_of (registerTools s env) name = Some h"
      and "h b args db = (db', Inr v)"
      and "callTool s env b req db = (db', RpcOk (RQ_ID req) (ResTool (toolResult (sanitizeForAgent v))))"
proof (cases "params_of req")
  case (Inl e)
  then show thesis by (intro bad) (simp_all add: callTool_def params_of_def)
next
  case (Inr p)
  obtain name args where p: "params_of req = Inr (name, args)" using Inr by (cases p) simp
  show thesis
  proof (cases "map_of (registerTools s env) name")
    case None
    with p show thesis by (intro unknown) (simp_all add: callTool_def params_of_def)
  next
    case (Some h)
    obtain db' r where h: "h b args db = (db', r)" by (cases "h b args db")
    show thesis
    proof (cases r)
      case (Inl e)
      from p Some h Inl show thesis
        by (intro failed [OF p Some h [unfolded Inl]]) (simp add: callTool_def params_of_def)
    next
      case (Inr v)
      from p Some h Inr show thesis
        by (intro served [OF p Some h [unfolded Inr]]) (simp add: callTool_def params_of_def)
    qed
  qed
qed

lemma Handle_rejected:
  assumes "\<nexists>d. am_Authenticate (sv_access (ms_svc s)) b = Inr d"
  shows "fst (Handle s env b body db) = db"
proof -
  have a: "\<not> authenticates (ms_svc s) b" using assms by (simp add: authenticates_def)
  have "fst (callTool s env b req db) = db" for req
    using tool_changes a by (cases rule: callTool_cases [of req s env b db]) (auto, (metis fst_conv)+)
  then show ?thesis by (auto simp: Handle_request split: sum.splits)
qed

section \<open>Properties\<close>

text \<open>The server of the witnesses; its parser knows the JSON values the witnesses send by name.\<close>

definition call_json :: "string \<Rightarrow> (string \<times> json) list \<Rightarrow> json" where
  "call_json name args = JObj [(''jsonrpc'', JStr ''2.0''), (''id'', JNum ''1''), (''method'', JStr ''tools/call''),
     (''params'', JObj [(''name'', JStr name), (''arguments'', JObj args)])]"

definition create_args :: "(string \<times> json) list" where
  "create_args = [(''type'', JStr ''Movie''), (''props'', JObj [(''name'', JStr ''Alien'')]),
     (''external_ids'', JArr [JObj [(''scheme'', JStr ''tmdb''), (''value'', JStr ''348'')]]),
     (''space'', JStr ''home''), (''visibility'', JStr ''space''), (''policy'', JStr ''auto''),
     (''dedupe_key'', JStr ''k1'')]"

definition sample_parse :: "string \<Rightarrow> json option" where
  "sample_parse s = (if s = ''create'' then Some (call_json ''create_entity'' create_args)
     else if s = ''get'' then Some (call_json ''get_entity'' [(''id'', JStr ''a'')])
     else if s = ''note'' then Some (JObj [(''jsonrpc'', JStr ''2.0''), (''method'', JStr ''notifications/initialized'')])
     else None)"

definition sample_mcp :: mcp_server where
  "sample_mcp = \<lparr>ms_svc = sample_service, ms_parse = sample_parse, ms_eord = (\<lambda>rows. rows), ms_nord = (\<lambda>_ rows. rows),
     ms_fts = \<lparr>fe_match = (\<lambda>_. Inl ErrSQL), fe_bm25 = (\<lambda>_ _ _. 0), fe_ord = (\<lambda>rows. rows)\<rparr>\<rparr>"

lemma sample_create_request:
  "\<exists>req. request_of sample_mcp ''create'' = Inr req \<and> RQ_JSONRPC req = ''2.0'' \<and> RQ_Method req = ''tools/call'' \<and>
     RQ_ID req = RawDoc (JNum ''1'') \<and> params_of req = Inr (''create_entity'', RawDoc (JObj create_args))"
proof -
  have "case request_of sample_mcp ''create'' of Inl e \<Rightarrow> False
    | Inr req \<Rightarrow> RQ_JSONRPC req = ''2.0'' \<and> RQ_Method req = ''tools/call'' \<and> RQ_ID req = RawDoc (JNum ''1'') \<and>
        params_of req = Inr (''create_entity'', RawDoc (JObj create_args))" by code_simp
  then show ?thesis by (auto split: sum.splits)
qed

lemma sample_parse_create: "parseEntity (RawDoc (JObj create_args)) = Inr sample_create"
  by code_simp

lemma sample_create_runs:
  "svc_CreateEntity sample_service env ''tk'' sample_create db = append_plain env (entityInput kate sample_create) db"
proof -
  have e: "autoEmbed sample_service sample_create = sample_create" by (simp add: autoEmbed_def sample_service_def)
  have "CI_Space sample_create = ''home''" "E_Embeddings (AE_Candidate (entityInput kate sample_create)) = []"
    by (simp_all add: sample_create_def entityInput_def)
  then show ?thesis by (simp add: svc_CreateEntity_def auth_def e AppendEntityFact_plain)
qed

lemma sample_call:
  "Handle sample_mcp env ''tk'' ''create'' db =
     (case append_plain env (entityInput kate sample_create) db of
        (db', r, None) \<Rightarrow> (db', Some (RpcOk (RawDoc (JNum ''1'')) (ResTool (toolResult (sanitizeForAgent (TV_Resolve r))))))
      | (db', r, Some e) \<Rightarrow> (db', Some (RpcOk (RawDoc (JNum ''1'')) (ResTool (toolError (TextErr e))))))"
proof -
  from sample_create_request obtain req where req: "request_of sample_mcp ''create'' = Inr req" "RQ_JSONRPC req = ''2.0''"
    "RQ_Method req = ''tools/call''" "RQ_ID req = RawDoc (JNum ''1'')"
    "params_of req = Inr (''create_entity'', RawDoc (JObj create_args))" by blast
  have sv: "ms_svc sample_mcp = sample_service" by (simp add: sample_mcp_def)
  show ?thesis
    using req(5) unfolding params_of_def
    by (simp add: Handle_request req(1-4) callTool_def registerTools_def Let_def sv with_args_def sample_parse_create
        outcome_def sample_create_runs split: prod.split option.split)
qed

lemma sample_create_changes: "fst (Handle sample_mcp sample_write_env ''tk'' ''create'' sample_db) \<noteq> sample_db"
proof -
  have "length (facts (fst (append_plain sample_write_env (entityInput kate sample_create) sample_db))) = 1" by code_simp
  moreover have "fst (Handle sample_mcp sample_write_env ''tk'' ''create'' sample_db) =
      fst (append_plain sample_write_env (entityInput kate sample_create) sample_db)"
    by (simp add: sample_call split: prod.split option.split)
  ultimately show ?thesis by (auto simp: sample_db_def)
qed

text \<open>C18: A request changes the database only through a write tool. If handling a request body changes
  anything, the body is a well-formed JSON-RPC 2.0 \<open>tools/call\<close> of one of the five writing tools,
  and the bearer is one the access model accepts.\<close>

theorem mcp_writes_are_tool_calls:
  assumes "fst (Handle s env b body db) \<noteq> db"
  shows "\<exists>req name args d. request_of s body = Inr req \<and> RQ_JSONRPC req = ''2.0'' \<and> RQ_Method req = ''tools/call'' \<and>
    params_of req = Inr (name, args) \<and>
    name \<in> {''create_entity'', ''link'', ''propose_entity'', ''propose_link'', ''decide_proposal''} \<and>
    am_Authenticate (sv_access (ms_svc s)) b = Inr d"
proof -
  from assms obtain req where req: "request_of s body = Inr req" "RQ_JSONRPC req = ''2.0''"
      "RQ_Method req = ''tools/call''" and c: "fst (callTool s env b req db) \<noteq> db"
    by (auto simp: Handle_request split: sum.splits if_splits)
  have "\<exists>name args. params_of req = Inr (name, args) \<and> name \<in> write_tools \<and> authenticates (ms_svc s) b"
  proof (cases rule: callTool_cases [of req s env b db])
    case (failed name args h db' e)
    with c tool_changes [OF failed(2), of b args db] show ?thesis by auto
  next
    case (served name args h db' v)
    with c tool_changes [OF served(2), of b args db] show ?thesis by auto
  qed (use c in simp_all)
  with req show ?thesis by (auto simp: write_tools_def authenticates_def)
qed

theorem mcp_writes_are_tool_calls_witness:
  "\<exists>req name args. request_of sample_mcp ''create'' = Inr req \<and> params_of req = Inr (name, args) \<and>
     RQ_Method req = ''tools/call'' \<and> fst (Handle sample_mcp sample_write_env ''tk'' ''create'' sample_db) \<noteq> sample_db"
proof -
  have "fst (Handle sample_mcp sample_write_env ''tk'' ''create'' sample_db) \<noteq> sample_db"
    using sample_create_changes by simp
  from mcp_writes_are_tool_calls [OF this] this show ?thesis by blast
qed

fun reply_id :: "rpcResponse \<Rightarrow> rawmsg" where
  "reply_id (RpcOk i r) = i" | "reply_id (RpcError i c m) = i"

text \<open>C1: Replies. A request is answered unless it is a well-formed \<open>notifications/initialized\<close>; every
  answer to a body that decodes carries the id of the request, and a body that does not decode
  is answered with the parse error.\<close>

theorem mcp_replies:
  "(snd (Handle s env b body db) = None \<longleftrightarrow> (\<exists>req. request_of s body = Inr req \<and> RQ_JSONRPC req = ''2.0'' \<and>
      RQ_Method req = ''notifications/initialized'')) \<and>
   (\<forall>req r. request_of s body = Inr req \<longrightarrow> snd (Handle s env b body db) = Some r \<longrightarrow> reply_id r = RQ_ID req) \<and>
   (\<forall>e. request_of s body = Inl e \<longrightarrow>
      snd (Handle s env b body db) = Some (RpcError RawEmpty (-32700) ''parse error''))"
proof -
  have "reply_id (snd (callTool s env b req db)) = RQ_ID req" for req
    by (cases rule: callTool_cases [of req s env b db]) simp_all
  then show ?thesis
    by (auto simp: Handle_request codeParse_def split: sum.splits if_splits)
qed

theorem mcp_replies_witness:
  "snd (Handle sample_mcp sample_write_env ''tk'' ''note'' sample_db) = None \<and>
   snd (Handle sample_mcp sample_write_env ''tk'' ''garbage'' sample_db) = Some (RpcError RawEmpty (-32700) ''parse error'')"
proof -
  have "case request_of sample_mcp ''note'' of Inl e \<Rightarrow> False
    | Inr req \<Rightarrow> RQ_JSONRPC req = ''2.0'' \<and> RQ_Method req = ''notifications/initialized''" by code_simp
  moreover have "request_of sample_mcp ''garbage'' = Inl ErrUnmarshal" by code_simp
  ultimately show ?thesis
    using mcp_replies [of sample_mcp sample_write_env "''tk''" "''note''" sample_db]
      mcp_replies [of sample_mcp sample_write_env "''tk''" "''garbage''" sample_db]
    by (auto split: sum.splits)
qed

definition value_entities :: "tool_value \<Rightarrow> entity set" where
  "value_entities v = (case v of TV_Entity e \<Rightarrow> {e} | TV_Entities es \<Rightarrow> set es
     | TV_Scored rs \<Rightarrow> SE_Entity ` set rs | TV_Subgraph g \<Rightarrow> set (SG_Entities g)
     | TV_Resolve r \<Rightarrow> {RR_Entity r} | _ \<Rightarrow> {})"

lemma sanitized: "e \<in> value_entities (sanitizeForAgent v) \<Longrightarrow> E_Embeddings e = []"
  by (cases v) (auto simp: value_entities_def sanitizeForAgent_def strip_def)



lemma tool_unauthenticated:
  assumes "\<not> authenticates (ms_svc s) b" and "map_of (registerTools s env) name = Some h"
  shows "\<exists>e. h b args db = (db, Inl e)"
proof -
  obtain x where x: "am_Authenticate (sv_access (ms_svc s)) b = Inl x"
    using assms(1) by (cases "am_Authenticate (sv_access (ms_svc s)) b") (auto simp: authenticates_def)
  then have a: "auth (ms_svc s) b = Inl ErrUnauthenticated" by (simp add: auth_def)
  have "fst (h b args db) = db" using tool_changes [OF assms(2)] assms(1) by blast
  moreover have "\<exists>e. snd (h b args db) = Inl e"
    using assms(2)
    by (auto simp: registerTools_def Let_def with_args_def outcome_def a svc_GetEntity_def
        svc_ResolveByExternalID_def svc_Neighbors_def svc_Search_def svc_CreateEntity_def svc_Link_def svc_ProposeEntity_def
        svc_ProposeLink_def svc_DecideProposal_def svc_ListProposals_def split: if_splits sum.split)
  ultimately show ?thesis by (metis prod.collapse)
qed

text \<open>A rejected bearer cannot use any tool: whatever it sends, the database stays as it is and a
  tool call is answered with an error result.\<close>

theorem mcp_unauthenticated:
  assumes "\<nexists>d. am_Authenticate (sv_access (ms_svc s)) b = Inr d"
  shows "fst (Handle s env b body db) = db \<and>
    (\<forall>i r. snd (Handle s env b body db) = Some (RpcOk i (ResTool r)) \<longrightarrow> TR_IsError r)"
proof -
  have a: "\<not> authenticates (ms_svc s) b" using assms by (simp add: authenticates_def)
  have "fst (callTool s env b req db) = db \<and>
      (\<forall>i r. snd (callTool s env b req db) = RpcOk i (ResTool r) \<longrightarrow> TR_IsError r)" for req
  proof (cases rule: callTool_cases [of req s env b db])
    case (served name args h db' v)
    with tool_unauthenticated [OF a served(2), of args db] show ?thesis by auto
  next
    case (failed name args h db' e)
    with tool_unauthenticated [OF a failed(2), of args db] show ?thesis by (auto simp: toolError_def)
  qed (auto simp: toolError_def)
  then show ?thesis by (auto simp: Handle_request split: sum.splits if_splits)
qed

theorem mcp_unauthenticated_witness:
  "fst (Handle sample_mcp sample_write_env ''wrong'' ''create'' sample_db) = sample_db"
proof -
  have "\<nexists>d. am_Authenticate (sv_access (ms_svc sample_mcp)) ''wrong'' = Inr d"
    by (simp add: sample_mcp_def sample_service_def sample_starchart_def Starchart_Authenticate_def)
  from mcp_unauthenticated [OF this] show ?thesis by blast
qed

text \<open>C32: A retry is reported as an error. Sending a successful \<open>create_entity\<close> call with a dedupe key
  again changes nothing but is answered with an error result that names the duplicate key and no
  entity: the entity the store returns with \<open>ErrDuplicateFact\<close> does not reach the caller.\<close>

theorem create_retry_is_an_error:
  assumes "wf_db db" and "params_of req = Inr (''create_entity'', args)"
    and "parseEntity args = Inr ci" and "CI_DedupeKey ci \<noteq> []"
    and "callTool s env b req db = (db', RpcOk i (ResTool r))" and "\<not> TR_IsError r"
  shows "callTool s env' b req db' = (db', RpcOk i (ResTool (toolError (TextErr ErrDuplicateFact))))"
proof -
  have c: "callTool s env b req db = (case svc_CreateEntity (ms_svc s) env b ci db of
      (db', r, None) \<Rightarrow> (db', RpcOk (RQ_ID req) (ResTool (toolResult (sanitizeForAgent (TV_Resolve r)))))
    | (db', r, Some e) \<Rightarrow> (db', RpcOk (RQ_ID req) (ResTool (toolError (TextErr e)))))" for env db
    using assms(2) unfolding params_of_def
    by (simp add: callTool_def registerTools_def Let_def with_args_def assms(3) outcome_def split: prod.split option.split)
  from assms(5,6) obtain x where i: "i = RQ_ID req" and x: "svc_CreateEntity (ms_svc s) env b ci db = (db', x, None)"
    by (auto simp: c toolError_def split: prod.splits option.splits)
  from x obtain d where d: "auth (ms_svc s) b = Inr (d, am_FilterFor (sv_access (ms_svc s)) d)"
    and w: "am_CanWrite (sv_access (ms_svc s)) d (CI_Space ci)"
    and ap: "AppendEntityFact env (entityInput d (autoEmbed (ms_svc s) ci)) db = (db', x, None)"
    by (auto simp: svc_CreateEntity_def auth_def split: sum.splits if_splits)
  let ?inp = "entityInput d (autoEmbed (ms_svc s) ci)"
  have "CI_DedupeKey (autoEmbed (ms_svc s) ci) = CI_DedupeKey ci"
    by (simp add: autoEmbed_def Let_def split: option.split sum.split list.split)
  then have k: "fst (entity_dedupe_key env' ?inp) = fst (entity_dedupe_key env ?inp)"
    by (simp add: entity_dedupe_key_def entityInput_def assms(4))
  have "KnownType (E_Type (AE_Candidate ?inp))" "Visibility_Valid (E_Visibility (AE_Candidate ?inp))"
    "Policy_Valid (effective_policy (AE_Policy ?inp))"
    using ap by (auto simp: AppendEntityFact_def Let_def split: if_splits)
  from AppendEntityFact_again [OF assms(1) ap refl k this] obtain y where
    "AppendEntityFact env' ?inp db' = (db', y, Some ErrDuplicateFact)" by blast
  with d w have "svc_CreateEntity (ms_svc s) env' b ci db' = (db', y, Some ErrDuplicateFact)"
    by (simp add: svc_CreateEntity_def)
  then show ?thesis by (simp add: c i)
qed

theorem create_retry_is_an_error_witness:
  "\<exists>req db' i r. request_of sample_mcp ''create'' = Inr req \<and>
     callTool sample_mcp sample_write_env ''tk'' req sample_db = (db', RpcOk i (ResTool r)) \<and> \<not> TR_IsError r \<and>
     callTool sample_mcp sample_write_env ''tk'' req db' = (db', RpcOk i (ResTool (toolError (TextErr ErrDuplicateFact))))"
proof -
  from sample_create_request obtain req where req: "request_of sample_mcp ''create'' = Inr req" "RQ_JSONRPC req = ''2.0''"
    "RQ_Method req = ''tools/call''" "params_of req = Inr (''create_entity'', RawDoc (JObj create_args))" by blast
  have h: "Handle sample_mcp sample_write_env ''tk'' ''create'' sample_db =
      map_prod id Some (callTool sample_mcp sample_write_env ''tk'' req sample_db)"
    by (simp add: Handle_request req)
  have "snd (snd (append_plain sample_write_env (entityInput kate sample_create) sample_db)) = None" by code_simp
  then obtain db' x where "append_plain sample_write_env (entityInput kate sample_create) sample_db = (db', x, None)"
    by (metis prod.collapse)
  then have "Handle sample_mcp sample_write_env ''tk'' ''create'' sample_db =
      (db', Some (RpcOk (RawDoc (JNum ''1'')) (ResTool (toolResult (sanitizeForAgent (TV_Resolve x))))))"
    by (simp add: sample_call)
  with h have c: "callTool sample_mcp sample_write_env ''tk'' req sample_db =
      (db', RpcOk (RawDoc (JNum ''1'')) (ResTool (toolResult (sanitizeForAgent (TV_Resolve x)))))"
    by (cases "callTool sample_mcp sample_write_env ''tk'' req sample_db") simp
  have k: "CI_DedupeKey sample_create \<noteq> []" by (simp add: sample_create_def)
  have n: "\<not> TR_IsError (toolResult (sanitizeForAgent (TV_Resolve x)))" by (simp add: toolResult_def)
  from create_retry_is_an_error [OF wf_sample req(4) sample_parse_create k c n] c n req(1) show ?thesis by blast
qed

end
