(* ===== verification/Jdx_Conformance.thy ===== *)
theory Jdx_Conformance
  imports Jdx_Neighbors Jdx_Proposals Jdx_Mcp
begin

text \<open>
  The acceptance tests of a store (\<open>internal/store/conformance\<close>): the \<open>Store\<close> interface as a record of
  operations over a state, and the suite as predicates on any implementation of it. A test is true
  when it does not fail: \<open>t.Errorf\<close> is a conjunct, \<open>t.Fatalf\<close> ends the test with false, \<open>t.Skip\<close> with
  true. What follows a write is a continuation of the state and the result it returns.
\<close>

section \<open>The interface\<close>

record 's store_api =
  api_AppendEntityFact :: "append_entity_input \<Rightarrow> 's \<Rightarrow> 's \<times> resolve_result \<times> gerr option"
  api_AppendEdgeFact :: "append_edge_input \<Rightarrow> 's \<Rightarrow> 's \<times> edge \<times> gerr option"
  api_MergeEntities :: "entity_id \<Rightarrow> entity_id \<Rightarrow> principal_id \<Rightarrow> string \<Rightarrow> 's \<Rightarrow> 's \<times> gerr option"
  api_RetractEntity :: "entity_id \<Rightarrow> principal_id \<Rightarrow> string \<Rightarrow> 's \<Rightarrow> 's \<times> gerr option"
  api_RetractEdge :: "edge_id \<Rightarrow> principal_id \<Rightarrow> string \<Rightarrow> 's \<Rightarrow> 's \<times> gerr option"
  api_Propose :: "proposal \<Rightarrow> 's \<Rightarrow> 's \<times> string \<times> gerr option"
  api_DecideProposal :: "string \<Rightarrow> bool \<Rightarrow> principal_id \<Rightarrow> 's \<Rightarrow> 's \<times> resolve_result \<times> gerr option"
  api_ListProposals :: "space_id \<Rightarrow> 's \<Rightarrow> proposal list res"
  api_GetEntity :: "acl_filter \<Rightarrow> entity_id \<Rightarrow> 's \<Rightarrow> entity res"
  api_ResolveByExternalID :: "acl_filter \<Rightarrow> string list \<Rightarrow> 's \<Rightarrow> entity list res"
  api_Neighbors :: "acl_filter \<Rightarrow> neighbor_query \<Rightarrow> 's \<Rightarrow> subgraph res"
  api_SemanticSearch :: "acl_filter \<Rightarrow> vector_query \<Rightarrow> 's \<Rightarrow> scored_entity list res"
  api_FullTextSearch :: "acl_filter \<Rightarrow> text_query \<Rightarrow> 's \<Rightarrow> scored_entity list res"
  api_RebuildProjection :: "'s \<Rightarrow> 's \<times> gerr option"
  api_ProjectionHead :: "'s \<Rightarrow> nat res"

section \<open>Helpers\<close>

definition errors_Is :: "gerr option \<Rightarrow> gerr \<Rightarrow> bool" where
  "errors_Is err target = (case err of None \<Rightarrow> False | Some e \<Rightarrow> err_is e target)"

definition fails_with :: "gerr \<Rightarrow> 'a res \<Rightarrow> bool" where
  "fails_with target r = (case r of Inl e \<Rightarrow> err_is e target | Inr _ \<Rightarrow> False)"

definition succeeds :: "'a res \<Rightarrow> bool" where
  "succeeds r = (case r of Inl _ \<Rightarrow> False | Inr _ \<Rightarrow> True)"

text \<open>The value of a call whose error is ignored, the zero value after an error.\<close>

definition or_zero :: "'a \<Rightarrow> 'a res \<Rightarrow> 'a" where
  "or_zero z r = (case r of Inl _ \<Rightarrow> z | Inr x \<Rightarrow> x)"

definition readAF :: "string \<Rightarrow> space_id list \<Rightarrow> acl_filter" where
  "readAF who spaces = \<lparr>F_Principal = who, F_Spaces = spaces, F_Restricted = False, F_DenyTypes = [],
     F_AllowPublic = True\<rparr>"

definition mkEntity :: "string \<Rightarrow> string \<Rightarrow> string \<Rightarrow> string \<Rightarrow> external_id list \<Rightarrow> entity" where
  "mkEntity typ name vis owner ext = entity0\<lparr>E_Type := typ, E_Props := RawDoc (JObj [(''name'', JStr name)]),
     E_Visibility := vis_of vis, E_Owner := owner, E_ExternalIDs := ext\<rparr>"

definition mkEntityProps :: "string \<Rightarrow> json \<Rightarrow> string \<Rightarrow> string \<Rightarrow> external_id list \<Rightarrow> entity" where
  "mkEntityProps typ props vis owner ext = (mkEntity typ [] vis owner ext)\<lparr>E_Props := RawDoc props\<rparr>"

definition mkEntityVec ::
    "string \<Rightarrow> string \<Rightarrow> string \<Rightarrow> string \<Rightarrow> string \<Rightarrow> f32bits list \<Rightarrow> external_id list \<Rightarrow> entity" where
  "mkEntityVec typ name vis owner model vec ext = (mkEntity typ name vis owner ext)\<lparr>E_Embeddings :=
     [\<lparr>Model = model, Field = ''name'', Vector = vec\<rparr>]\<rparr>"

definition parseProps :: "rawmsg \<Rightarrow> string \<Rightarrow> json option" where
  "parseProps p k = (case p of RawDoc (JObj kvs) \<Rightarrow> obj_get kvs k | _ \<Rightarrow> None)"

definition append_input :: "entity \<Rightarrow> string \<Rightarrow> string \<Rightarrow> append_entity_input" where
  "append_input e writer dedupe = \<lparr>AE_Candidate = e, AE_Writer = writer, AE_DedupeKey = dedupe, AE_Actor = writer,
     AE_Policy = ResolveAuto\<rparr>"

definition edge_input :: "string \<Rightarrow> entity_id \<Rightarrow> entity_id \<Rightarrow> space_id \<Rightarrow> string \<Rightarrow> string \<Rightarrow> string \<Rightarrow> string \<Rightarrow> append_edge_input" where
  "edge_input pred x y space vis owner writer dedupe = \<lparr>AD_Edge = edge0\<lparr>D_Predicate := pred, D_From := x, D_To := y,
     D_Space := space, D_Visibility := vis_of vis, D_Owner := owner\<rparr>, AD_Writer = writer, AD_DedupeKey = dedupe, AD_Actor = writer\<rparr>"

definition mustAppend ::
    "'s store_api \<Rightarrow> entity \<Rightarrow> string \<Rightarrow> string \<Rightarrow> 's \<Rightarrow> (resolve_result \<Rightarrow> 's \<Rightarrow> bool) \<Rightarrow> bool" where
  "mustAppend st e writer dedupe s k = (case api_AppendEntityFact st (append_input e writer dedupe) s of
       (s', res, None) \<Rightarrow> k res s'
     | (s', res, Some err) \<Rightarrow> False)"

definition mustEdge ::
    "'s store_api \<Rightarrow> string \<Rightarrow> entity_id \<Rightarrow> entity_id \<Rightarrow> string \<Rightarrow> string \<Rightarrow> string \<Rightarrow> string \<Rightarrow> 's \<Rightarrow> ('s \<Rightarrow> bool) \<Rightarrow> bool" where
  "mustEdge st pred x y vis owner writer dedupe s k =
     (case api_AppendEdgeFact st (edge_input pred x y [] vis owner writer dedupe) s of
        (s', ed, None) \<Rightarrow> k s'
      | (s', ed, Some err) \<Rightarrow> False)"

definition hasEntityNamed :: "subgraph \<Rightarrow> string \<Rightarrow> bool" where
  "hasEntityNamed sub name = list_ex (\<lambda>e. extractName (E_Props e) = name) (SG_Entities sub)"

definition vectorsSupported :: "'s store_api \<Rightarrow> 's \<Rightarrow> bool" where
  "vectorsSupported st s = (\<not> fails_with ErrNotImplemented (api_SemanticSearch st (readAF ''probe'' [])
     \<lparr>VQ_Vector = [1065353216, 0], VQ_Model = ''probe@2'', VQ_Type = [], VQ_Limit = 1\<rparr> s))"

definition fullTextSupported :: "'s store_api \<Rightarrow> 's \<Rightarrow> bool" where
  "fullTextSupported st s = (\<not> fails_with ErrNotImplemented (api_FullTextSearch st (readAF ''probe'' [])
     \<lparr>TQ_Text = ''probe'', TQ_Type = [], TQ_Limit = 1\<rparr> s))"

definition query_from :: "entity_id \<Rightarrow> int \<Rightarrow> neighbor_query" where
  "query_from start max_hops = \<lparr>NQ_Start = start, NQ_Predicates = [], NQ_MaxHops = max_hops, NQ_Limit = 0\<rparr>"

definition resolved_by :: "'s store_api \<Rightarrow> acl_filter \<Rightarrow> external_id \<Rightarrow> 's \<Rightarrow> entity list" where
  "resolved_by st af x s = or_zero [] (api_ResolveByExternalID st af [Key x] s)"

section \<open>The tests\<close>

definition testInsertAndGet :: "'s store_api \<Rightarrow> 's \<Rightarrow> bool" where
  "testInsertAndGet st s =
     mustAppend st (mkEntity ''Movie'' ''Alien'' ''public'' ''kate'' []) ''kate'' ''k1'' s (\<lambda>res s.
       RR_Action res = Some ActionInsertNew \<and>
       (case api_GetEntity st (readAF ''kate'' []) (E_ID (RR_Entity res)) s of
          Inl e \<Rightarrow> False
        | Inr got \<Rightarrow> E_Type got = ''Movie'' \<and> extractName (E_Props got) = ''Alien'' \<and> or_zero 0 (api_ProjectionHead st s) = 1))"

definition testIdempotentReplay :: "'s store_api \<Rightarrow> 's \<Rightarrow> bool" where
  "testIdempotentReplay st s =
     mustAppend st (mkEntity ''Movie'' ''Alien'' ''public'' ''kate'' []) ''kate'' ''same-key'' s (\<lambda>r s.
       case api_AppendEntityFact st (append_input (mkEntity ''Movie'' ''Alien'' ''public'' ''kate'' []) ''kate'' ''same-key'') s of
         (s, _, err) \<Rightarrow> errors_Is err ErrDuplicateFact \<and> or_zero 0 (api_ProjectionHead st s) = 1 \<and>
           E_ID (or_zero entity0 (api_GetEntity st (readAF ''kate'' []) (E_ID (RR_Entity r)) s)) = E_ID (RR_Entity r))"

definition testExternalAttach :: "'s store_api \<Rightarrow> 's \<Rightarrow> bool" where
  "testExternalAttach st s =
     (let tmdb = \<lparr>Scheme = ''tmdb'', Value = ''603''\<rparr>; e = mkEntity ''Movie'' ''The Matrix'' ''public'' ''kate'' [tmdb] in
      mustAppend st e ''kate'' ''a'' s (\<lambda>a s. mustAppend st e ''kate'' ''b'' s (\<lambda>b s.
        RR_Action b = Some ActionAttach \<and> RR_MatchKind b = Some MatchExternal \<and>
        E_ID (RR_Entity b) = E_ID (RR_Entity a) \<and> length (resolved_by st (readAF ''kate'' []) tmdb s) = 1)))"

definition testExternalMerge :: "'s store_api \<Rightarrow> 's \<Rightarrow> bool" where
  "testExternalMerge st s =
     (let x1 = \<lparr>Scheme = ''tmdb'', Value = ''1''\<rparr>; x2 = \<lparr>Scheme = ''imdb'', Value = ''tt2''\<rparr> in
      mustAppend st (mkEntity ''Movie'' ''A'' ''public'' ''kate'' [x1]) ''kate'' ''a'' s (\<lambda>a s.
      mustAppend st (mkEntity ''Movie'' ''B'' ''public'' ''kate'' [x2]) ''kate'' ''b'' s (\<lambda>b s.
        E_ID (RR_Entity a) \<noteq> E_ID (RR_Entity b) \<and>
        mustAppend st (mkEntity ''Movie'' ''A'' ''public'' ''kate'' [x1, x2]) ''kate'' ''c'' s (\<lambda>c s.
          RR_Action c = Some ActionMerge \<and> length (RR_MergedFrom c) = 1 \<and>
          (case (resolved_by st (readAF ''kate'' []) x1 s, resolved_by st (readAF ''kate'' []) x2 s) of (hits1, hits2) \<Rightarrow>
             length hits1 = 1 \<and> length hits2 = 1 \<and> E_ID (hits1 ! 0) = E_ID (hits2 ! 0) \<and>
             fails_with ErrNotFound (api_GetEntity st (readAF ''kate'' [])
               (if E_ID (hits1 ! 0) = E_ID (RR_Entity a) then E_ID (RR_Entity b) else E_ID (RR_Entity a)) s))))))"

definition testAccessFilter :: "'s store_api \<Rightarrow> 's \<Rightarrow> bool" where
  "testAccessFilter st s =
     mustAppend st (mkEntity ''Note'' ''secret'' ''private'' ''alice'' []) ''alice'' ''n1'' s (\<lambda>res s.
       succeeds (api_GetEntity st (readAF ''alice'' []) (E_ID (RR_Entity res)) s) \<and>
       fails_with ErrNotFound (api_GetEntity st (readAF ''bob'' []) (E_ID (RR_Entity res)) s))"

definition testEdge :: "'s store_api \<Rightarrow> 's \<Rightarrow> bool" where
  "testEdge st s =
     mustAppend st (mkEntity ''Movie'' ''Alien'' ''public'' ''kate'' []) ''kate'' ''m'' s (\<lambda>m s.
     mustAppend st (mkEntity ''VideoObject'' ''Kroft on Alien'' ''public'' ''kate'' []) ''kate'' ''v'' s (\<lambda>v s.
       let inp = edge_input ''about'' (E_ID (RR_Entity v)) (E_ID (RR_Entity m)) [] ''public'' ''kate'' ''kate'' ''e1'' in
       (case api_AppendEdgeFact st inp s of
          (s, got, Some e) \<Rightarrow> False
        | (s, got, None) \<Rightarrow> D_ID got \<noteq> [] \<and> D_Predicate got = ''about'' \<and>
            (case api_AppendEdgeFact st inp s of (s, _, err) \<Rightarrow> errors_Is err ErrDuplicateFact))))"

definition testEdgeDefaultDedupePerSpace :: "'s store_api \<Rightarrow> 's \<Rightarrow> bool" where
  "testEdgeDefaultDedupePerSpace st s =
     mustAppend st (mkEntity ''Movie'' ''Alien'' ''public'' ''kate'' []) ''kate'' ''m'' s (\<lambda>m s.
     mustAppend st (mkEntity ''VideoObject'' ''Kroft on Alien'' ''public'' ''kate'' []) ''kate'' ''v'' s (\<lambda>v s.
       let edgeIn = (\<lambda>space. edge_input ''about'' (E_ID (RR_Entity v)) (E_ID (RR_Entity m)) space ''space'' ''kate'' ''kate'' []) in
       (case api_AppendEdgeFact st (edgeIn ''ws1'') s of
          (s, one, Some e) \<Rightarrow> False
        | (s, one, None) \<Rightarrow>
            (case api_AppendEdgeFact st (edgeIn ''ws2'') s of
               (s, two, Some e) \<Rightarrow> False
             | (s, two, None) \<Rightarrow> D_ID one \<noteq> D_ID two \<and>
                 (case api_AppendEdgeFact st (edgeIn ''ws1'') s of (s, _, err) \<Rightarrow> errors_Is err ErrDuplicateFact)))))"

definition testRebuild :: "'s store_api \<Rightarrow> 's \<Rightarrow> bool" where
  "testRebuild st s =
     (let tmdb = \<lparr>Scheme = ''tmdb'', Value = ''603''\<rparr>; e = mkEntity ''Movie'' ''The Matrix'' ''public'' ''kate'' [tmdb] in
      mustAppend st e ''kate'' ''a'' s (\<lambda>a s. mustAppend st e ''kate'' ''b'' s (\<lambda>_ s.
        case or_zero entity0 (api_GetEntity st (readAF ''kate'' []) (E_ID (RR_Entity a)) s) of before \<Rightarrow>
          (case api_RebuildProjection st s of
             (s, Some err) \<Rightarrow> False
           | (s, None) \<Rightarrow>
               (case api_GetEntity st (readAF ''kate'' []) (E_ID (RR_Entity a)) s of
                  Inl err \<Rightarrow> False
                | Inr after \<Rightarrow> E_Type after = E_Type before \<and> extractName (E_Props after) = extractName (E_Props before) \<and>
                    length (E_ExternalIDs after) = 1 \<and> Key (E_ExternalIDs after ! 0) = Key tmdb)))))"

definition testVectorResolve :: "(real \<Rightarrow> f32bits list) \<Rightarrow> 's store_api \<Rightarrow> 's \<Rightarrow> bool" where
  "testVectorResolve vecAt st s =
     (\<not> vectorsSupported st s \<or>
      (let vec = (\<lambda>typ name v. mkEntityVec typ name ''public'' ''kate'' ''test@2'' v []); base = vecAt 1.0 in
       mustAppend st (vec ''Movie'' ''Alien'' base) ''kate'' ''va1'' s (\<lambda>a1 s.
       mustAppend st (vec ''Movie'' ''Alien (dup)'' (vecAt 0.97)) ''kate'' ''vb1'' s (\<lambda>b1 s.
         (RR_Action b1 = Some ActionAttach \<and> RR_MatchKind b1 = Some MatchVector) \<and> E_ID (RR_Entity b1) = E_ID (RR_Entity a1) \<and>
       mustAppend st (vec ''Book'' ''Dune'' base) ''kate'' ''va2'' s (\<lambda>a2 s.
       mustAppend st (vec ''Book'' ''Dune?'' (vecAt 0.90)) ''kate'' ''vb2'' s (\<lambda>b2 s.
         RR_Action b2 = Some ActionInsertFlagged \<and> E_ID (RR_Entity b2) \<noteq> E_ID (RR_Entity a2) \<and>
       mustAppend st (vec ''Article'' ''Essay'' base) ''kate'' ''va3'' s (\<lambda>a3 s.
       mustAppend st (vec ''Article'' ''Other essay'' (vecAt 0.80)) ''kate'' ''vb3'' s (\<lambda>b3 s.
         RR_Action b3 = Some ActionInsertNew \<and> E_ID (RR_Entity b3) \<noteq> E_ID (RR_Entity a3)))))))))"

definition testSemanticSearch :: "(real \<Rightarrow> f32bits list) \<Rightarrow> 's store_api \<Rightarrow> 's \<Rightarrow> bool" where
  "testSemanticSearch vecAt st s =
     (\<not> vectorsSupported st s \<or>
      mustAppend st (mkEntityVec ''Movie'' ''near'' ''public'' ''kate'' ''srch@2'' (vecAt 0.98) []) ''kate'' ''s1'' s (\<lambda>_ s.
      mustAppend st (mkEntityVec ''Movie'' ''far'' ''public'' ''kate'' ''srch@2'' (vecAt 0.10) []) ''kate'' ''s2'' s (\<lambda>_ s.
      mustAppend st (mkEntityVec ''Movie'' ''secret'' ''private'' ''alice'' ''srch@2'' (vecAt 0.99) []) ''alice'' ''s3'' s (\<lambda>_ s.
        case api_SemanticSearch st (readAF ''kate'' []) \<lparr>VQ_Vector = vecAt 1.0, VQ_Model = ''srch@2'', VQ_Type = ''Movie'', VQ_Limit = 10\<rparr> s of
          Inl e \<Rightarrow> False
        | Inr hits \<Rightarrow> length hits = 2 \<and> extractName (E_Props (SE_Entity (hits ! 0))) = ''near'' \<and>
            list_all (\<lambda>h. extractName (E_Props (SE_Entity h)) \<noteq> ''secret'' \<and> \<not> (SE_Score h < 0 \<or> SE_Score h > 1.0001)) hits))))"

definition testNeighbors :: "'s store_api \<Rightarrow> 's \<Rightarrow> bool" where
  "testNeighbors st s =
     (fails_with ErrNotImplemented (api_Neighbors st (readAF ''probe'' []) (query_from ''none'' 0) s) \<or>
      (let movie = (\<lambda>name. mkEntity ''Movie'' name ''public'' ''kate'' []) in
       mustAppend st (movie ''A'') ''kate'' ''na'' s (\<lambda>a s.
       mustAppend st (movie ''B'') ''kate'' ''nb'' s (\<lambda>b s.
       mustAppend st (movie ''C'') ''kate'' ''nc'' s (\<lambda>c s.
       mustAppend st (mkEntity ''Note'' ''H'' ''private'' ''alice'' []) ''alice'' ''nh'' s (\<lambda>h s.
       mustAppend st (movie ''D'') ''kate'' ''nd'' s (\<lambda>d s.
       mustAppend st (movie ''E'') ''kate'' ''ne'' s (\<lambda>e s.
       mustEdge st ''relatedTo'' (E_ID (RR_Entity a)) (E_ID (RR_Entity b)) ''public'' ''kate'' ''kate'' ''e1'' s (\<lambda>s.
       mustEdge st ''relatedTo'' (E_ID (RR_Entity b)) (E_ID (RR_Entity c)) ''public'' ''kate'' ''kate'' ''e2'' s (\<lambda>s.
       mustEdge st ''relatedTo'' (E_ID (RR_Entity a)) (E_ID (RR_Entity h)) ''public'' ''kate'' ''kate'' ''e3'' s (\<lambda>s.
       mustEdge st ''relatedTo'' (E_ID (RR_Entity h)) (E_ID (RR_Entity d)) ''public'' ''kate'' ''kate'' ''e4'' s (\<lambda>s.
       mustEdge st ''relatedTo'' (E_ID (RR_Entity a)) (E_ID (RR_Entity e)) ''private'' ''alice'' ''alice'' ''e5'' s (\<lambda>s.
         case api_Neighbors st (readAF ''kate'' []) (query_from (E_ID (RR_Entity a)) 2) s of
           Inl err \<Rightarrow> False
         | Inr ksub \<Rightarrow>
             list_all (hasEntityNamed ksub) [''A'', ''B'', ''C''] \<and> \<not> hasEntityNamed ksub ''H'' \<and>
             \<not> hasEntityNamed ksub ''D'' \<and> \<not> hasEntityNamed ksub ''E'' \<and>
             (case api_Neighbors st (readAF ''alice'' []) (query_from (E_ID (RR_Entity a)) 2) s of
                Inl err \<Rightarrow> False
              | Inr asub \<Rightarrow>
                  list_all (hasEntityNamed asub) [''A'', ''B'', ''C'', ''H'', ''D'', ''E''] \<and>
                  fails_with ErrNotFound (api_Neighbors st (readAF ''kate'' []) (query_from (E_ID (RR_Entity h)) 1) s)))))))))))))))"

definition proposeMovie ::
    "'s store_api \<Rightarrow> string \<Rightarrow> string \<Rightarrow> 's \<Rightarrow> (string \<Rightarrow> 's \<Rightarrow> bool) \<Rightarrow> bool" where
  "proposeMovie st tmdb dedupe s k =
     (case marshal_entity_input (append_input (mkEntity ''Movie'' ''Proposed'' ''public'' ''kate''
          [\<lparr>Scheme = ''tmdb'', Value = tmdb\<rparr>]) ''kate'' dedupe) of
        Inl e \<Rightarrow> False
      | Inr payload \<Rightarrow>
          (case api_Propose st \<lparr>PP_ID = [], PP_Kind = FactEntityAsserted, PP_Proposer = ''kate'', PP_Space = ''fam'', PP_Payload = payload\<rparr> s of
             (s, i, err) \<Rightarrow> if errors_Is err ErrNotImplemented then True else if err \<noteq> None then False else k i s))"

definition testProposals :: "'s store_api \<Rightarrow> 's \<Rightarrow> bool" where
  "testProposals st s =
     (let found = (\<lambda>v s. length (resolved_by st (readAF ''kate'' []) \<lparr>Scheme = ''tmdb'', Value = v\<rparr> s)) in
      proposeMovie st ''999'' ''p-approve'' s (\<lambda>i s.
        case api_ListProposals st ''fam'' s of
          Inl e \<Rightarrow> False
        | Inr pending \<Rightarrow>
            length pending = 1 \<and> PP_ID (pending ! 0) = i \<and> found ''999'' s = 0 \<and>
            (case api_DecideProposal st i True ''boss'' s of
               (s, res, Some e) \<Rightarrow> False
             | (s, res, None) \<Rightarrow>
                 E_ID (RR_Entity res) \<noteq> [] \<and> found ''999'' s = 1 \<and> or_zero [] (api_ListProposals st ''fam'' s) = [] \<and>
                 (case api_DecideProposal st i True ''boss'' s of (s, _, err) \<Rightarrow>
                    errors_Is err ErrConflict \<and>
                    proposeMovie st ''888'' ''p-reject'' s (\<lambda>rid s.
                      case api_DecideProposal st rid False ''boss'' s of
                        (s, _, Some e) \<Rightarrow> False
                      | (s, _, None) \<Rightarrow> found ''888'' s = 0 \<and>
                          (case api_DecideProposal st ''no-such-proposal'' True ''boss'' s of (s, _, err) \<Rightarrow>
                             errors_Is err ErrNotFound))))))"

definition testDirectMergeAndPropUnion :: "'s store_api \<Rightarrow> 's \<Rightarrow> bool" where
  "testDirectMergeAndPropUnion st s =
     (let xa = \<lparr>Scheme = ''tmdb'', Value = ''m1''\<rparr>; xb = \<lparr>Scheme = ''imdb'', Value = ''ttm2''\<rparr>;
          xp = \<lparr>Scheme = ''tmdb'', Value = ''prop1''\<rparr>; get = (\<lambda>i s. api_GetEntity st (readAF ''kate'' []) i s) in
      mustAppend st (mkEntity ''Movie'' ''A'' ''public'' ''kate'' [xa]) ''kate'' ''dm-a'' s (\<lambda>a s.
      mustAppend st (mkEntity ''Movie'' ''B'' ''public'' ''kate'' [xb]) ''kate'' ''dm-b'' s (\<lambda>b s.
        case api_MergeEntities st (E_ID (RR_Entity a)) (E_ID (RR_Entity b)) ''boss'' [] s of
          (s, Some e) \<Rightarrow> False
        | (s, None) \<Rightarrow>
            list_all (\<lambda>x. case resolved_by st (readAF ''kate'' []) x s of [h] \<Rightarrow> E_ID h = E_ID (RR_Entity a) | _ \<Rightarrow> False) [xa, xb] \<and>
            fails_with ErrNotFound (get (E_ID (RR_Entity b)) s) \<and>
            mustAppend st (mkEntity ''Movie'' ''C'' ''public'' ''kate'' []) ''kate'' ''dm-c'' s (\<lambda>c s.
              case api_MergeEntities st ''no-such-keep'' (E_ID (RR_Entity c)) ''boss'' [] s of (s, err) \<Rightarrow>
                errors_Is err ErrNotFound \<and> succeeds (get (E_ID (RR_Entity c)) s) \<and>
                mustAppend st (mkEntityProps ''Movie'' (JObj [(''name'', JStr ''Alien''), (''year'', JNum ''1979'')]) ''public'' ''kate'' [xp])
                  ''kate'' ''pu-1'' s (\<lambda>p s.
                mustAppend st (mkEntityProps ''Movie'' (JObj [(''name'', JStr ''ALIEN (cut)''), (''director'', JStr ''Ridley Scott'')])
                    ''public'' ''kate'' [xp]) ''kate'' ''pu-2'' s (\<lambda>_ s.
                  case get (E_ID (RR_Entity p)) s of
                    Inl e \<Rightarrow> False
                  | Inr got \<Rightarrow> parseProps (E_Props got) ''name'' = Some (JStr ''Alien'') \<and>
                      parseProps (E_Props got) ''director'' = Some (JStr ''Ridley Scott'') \<and>
                      parseProps (E_Props got) ''year'' \<notin> {None, Some JNull}))))))"

definition testFullTextSearch :: "'s store_api \<Rightarrow> 's \<Rightarrow> bool" where
  "testFullTextSearch st s =
     (\<not> fullTextSupported st s \<or>
      mustAppend st (mkEntityProps ''Movie'' (JObj [(''name'', JStr ''Alien''), (''abstract'', JStr ''a chestburster erupts'')])
          ''public'' ''kate'' []) ''kate'' ''ft1'' s (\<lambda>_ s.
      mustAppend st (mkEntityProps ''Movie'' (JObj [(''name'', JStr ''The Matrix''), (''abstract'', JStr ''bullet time'')])
          ''public'' ''kate'' []) ''kate'' ''ft2'' s (\<lambda>_ s.
      mustAppend st (mkEntityProps ''Movie'' (JObj [(''name'', JStr ''secret chestburster'')]) ''private'' ''alice'' [])
          ''alice'' ''ft3'' s (\<lambda>_ s.
        case api_FullTextSearch st (readAF ''kate'' []) \<lparr>TQ_Text = ''chestburster'', TQ_Type = [], TQ_Limit = 10\<rparr> s of
          Inl e \<Rightarrow> False
        | Inr hits \<Rightarrow> length hits = 1 \<and> extractName (E_Props (SE_Entity (hits ! 0))) = ''Alien'' \<and>
            or_zero [] (api_FullTextSearch st (readAF ''kate'' []) \<lparr>TQ_Text = ''nonexistentword'', TQ_Type = [], TQ_Limit = 10\<rparr> s) = []))))"

definition testRetractEdge :: "'s store_api \<Rightarrow> 's \<Rightarrow> bool" where
  "testRetractEdge st s =
     (case api_RetractEdge st ''probe-no-edge'' ''probe'' ''probe-key'' s of (s, probe) \<Rightarrow>
      errors_Is probe ErrNotImplemented \<or>
      mustAppend st (mkEntity ''Movie'' ''A'' ''public'' ''kate'' []) ''kate'' ''re-a'' s (\<lambda>a s.
      mustAppend st (mkEntity ''Movie'' ''B'' ''public'' ''kate'' []) ''kate'' ''re-b'' s (\<lambda>b s.
        let near = (\<lambda>s. hasEntityNamed (or_zero \<lparr>SG_Entities = [], SG_Edges = []\<rparr>
              (api_Neighbors st (readAF ''kate'' []) (query_from (E_ID (RR_Entity a)) 1) s)) ''B'') in
        (case api_AppendEdgeFact st (edge_input ''relatedTo'' (E_ID (RR_Entity a)) (E_ID (RR_Entity b)) [] ''public'' ''kate'' ''kate'' ''re-e'') s of
           (s, edge, Some e) \<Rightarrow> False
         | (s, edge, None) \<Rightarrow> near s \<and>
             (case api_RetractEdge st (D_ID edge) ''kate'' [] s of
                (s, Some e) \<Rightarrow> False
              | (s, None) \<Rightarrow> \<not> near s)))))"

definition testPerSpaceExternalID :: "'s store_api \<Rightarrow> 's \<Rightarrow> bool" where
  "testPerSpaceExternalID st s =
     (let k = \<lparr>Scheme = ''tmdb'', Value = ''700''\<rparr> in
      mustAppend st ((mkEntity ''Movie'' ''in-space-A'' ''private'' ''alice'' [k])\<lparr>E_Space := ''A''\<rparr>) ''alice'' ''ps-a'' s (\<lambda>a s.
      mustAppend st ((mkEntity ''Movie'' ''in-space-B'' ''private'' ''bob'' [k])\<lparr>E_Space := ''B''\<rparr>) ''bob'' ''ps-b'' s (\<lambda>b s.
        RR_Action b = Some ActionInsertNew \<and> E_ID (RR_Entity b) \<noteq> E_ID (RR_Entity a) \<and>
        (case api_ResolveByExternalID st (readAF ''alice'' [''A'']) [Key k] s of
           Inl e \<Rightarrow> False
         | Inr hitsA \<Rightarrow> length hitsA = 1 \<and> E_ID (hitsA ! 0) = E_ID (RR_Entity a) \<and>
             (case api_ResolveByExternalID st (readAF ''bob'' [''B'']) [Key k] s of
                Inl e \<Rightarrow> False
              | Inr hitsB \<Rightarrow> length hitsB = 1 \<and> E_ID (hitsB ! 0) = E_ID (RR_Entity b))))))"

section \<open>The suite\<close>

text \<open>Every test runs on a fresh store. \<open>vecAt\<close> is a parameter: it rounds to float32.\<close>

definition store_suite :: "(real \<Rightarrow> f32bits list) \<Rightarrow> (string \<times> ('s store_api \<Rightarrow> 's \<Rightarrow> bool)) list" where
  "store_suite vecAt =
     [(''insert_and_get'', testInsertAndGet), (''idempotent_replay'', testIdempotentReplay),
      (''external_id_attaches'', testExternalAttach), (''external_collision_merges'', testExternalMerge),
      (''access_filter_hides_private'', testAccessFilter), (''edge_append_and_idempotency'', testEdge),
      (''edge_default_dedupe_is_per_space'', testEdgeDefaultDedupePerSpace), (''rebuild_reproduces_projection'', testRebuild),
      (''vector_resolve_two_band'', testVectorResolve vecAt), (''semantic_search_ranks_and_filters'', testSemanticSearch vecAt),
      (''neighbors_access_filtered_traversal'', testNeighbors), (''governed_propose_approve_reject'', testProposals),
      (''direct_merge_and_attach_prop_union'', testDirectMergeAndPropUnion), (''full_text_search_ranks_and_filters'', testFullTextSearch),
      (''retract_edge_removes_from_traversal'', testRetractEdge), (''external_id_uniqueness_is_per_space'', testPerSpaceExternalID)]"

definition RunStoreSuite :: "(real \<Rightarrow> f32bits list) \<Rightarrow> 's store_api \<Rightarrow> 's \<Rightarrow> bool" where
  "RunStoreSuite vecAt st fresh = list_all (\<lambda>t. snd t st fresh) (store_suite vecAt)"

end
