(* ===== verification/Jdx_Conforms.thy ===== *)
theory Jdx_Conforms
  imports Jdx_Conformance Jdx_PgParity
begin

text \<open>
  Both adapters pass the acceptance suite. An adapter with a clock and an id source is an
  implementation of the interface: its state is the database and how many writes drew from the
  source. The suite is evaluated on a sample source, search and distance.
\<close>

section \<open>The adapters as implementations\<close>

type_synonym run = "db \<times> nat"

definition source :: "nat \<Rightarrow> env" where
  "source n = \<lparr>env_now = (\<lambda>k. (int n + 1) * 1000000000), env_newID = (\<lambda>k. CHR ''i'' # replicate n CHR ''.'' @ replicate k CHR ''+''),
     env_th = \<lparr>AutoMerge = 0.94, Review = 0.86\<rparr>, env_sha = (\<lambda>s. s)\<rparr>"

fun on_run :: "(env \<Rightarrow> db \<Rightarrow> db \<times> 'r) \<Rightarrow> run \<Rightarrow> run \<times> 'r" where
  "on_run f (db, n) = (case f (source n) db of (db', r) \<Rightarrow> ((db', n + 1), r))"

definition sl_append where "sl_append inp s = on_run (\<lambda>env. AppendEntityFact env inp) s"
definition sl_edge where "sl_edge inp s = on_run (\<lambda>env. AppendEdgeFact env inp) s"
definition sl_merge where "sl_merge keep gone actor dk s = on_run (\<lambda>env. MergeEntities env keep gone actor dk) s"
definition sl_retract where "sl_retract e actor dk s = on_run (\<lambda>env. RetractEntity env e actor dk) s"
definition sl_retract_edge where "sl_retract_edge e actor dk s = on_run (\<lambda>env. RetractEdge env e actor dk) s"
definition sl_propose where "sl_propose p s = on_run (\<lambda>env. Propose env p) s"
definition sl_decide where "sl_decide i approve approver s = on_run (\<lambda>env. DecideProposal env i approve approver) s"
definition sl_rebuild where "sl_rebuild s = on_run (\<lambda>env. RebuildProjection) s"
fun sl_list :: "space_id \<Rightarrow> run \<Rightarrow> proposal list res" where "sl_list space (db, n) = Inr (ListProposals space db)"
fun sl_get :: "acl_filter \<Rightarrow> entity_id \<Rightarrow> run \<Rightarrow> entity res" where "sl_get af e (db, n) = GetEntity af e db"
fun sl_resolve :: "acl_filter \<Rightarrow> string list \<Rightarrow> run \<Rightarrow> entity list res" where
  "sl_resolve af keys (db, n) = Inr (ResolveByExternalID (\<lambda>rows. rows) af keys db)"
fun sl_neighbors :: "acl_filter \<Rightarrow> neighbor_query \<Rightarrow> run \<Rightarrow> subgraph res" where
  "sl_neighbors af q (db, n) = Neighbors (\<lambda>e rows. rows) af q db"
fun sl_semantic :: "acl_filter \<Rightarrow> vector_query \<Rightarrow> run \<Rightarrow> scored_entity list res" where
  "sl_semantic af q (db, n) = SemanticSearch af q db"
fun sl_text :: "acl_filter \<Rightarrow> text_query \<Rightarrow> run \<Rightarrow> scored_entity list res" where
  "sl_text af q (db, n) = FullTextSearch (\<lambda>w. Inr (\<lambda>t. List.member (Split CHR '' '' t) w)) (\<lambda>_ _ _. 0) (\<lambda>rows. rows) af q db"
fun sl_head :: "run \<Rightarrow> nat res" where "sl_head (db, n) = Inr (ProjectionHead db)"

definition sqlite_api :: "run store_api" where
  "sqlite_api = \<lparr>api_AppendEntityFact = sl_append, api_AppendEdgeFact = sl_edge, api_MergeEntities = sl_merge,
     api_RetractEntity = sl_retract, api_RetractEdge = sl_retract_edge, api_Propose = sl_propose,
     api_DecideProposal = sl_decide, api_ListProposals = sl_list, api_GetEntity = sl_get,
     api_ResolveByExternalID = sl_resolve, api_Neighbors = sl_neighbors, api_SemanticSearch = sl_semantic,
     api_FullTextSearch = sl_text, api_RebuildProjection = sl_rebuild, api_ProjectionHead = sl_head\<rparr>"

text \<open>Cosine distance of unit vectors, rounded to millionths, and a sequence that numbers the log from 1.\<close>

definition unit_dist :: "f32bits list \<Rightarrow> f32bits list \<Rightarrow> real option" where
  "unit_dist a b = (if length a = length b
     then Some (real_of_int \<lfloor>1000000 * (1 - cos_acc (\<lambda>x y. f32_val x * f32_val y) a b)\<rfloor> / 1000000) else None)"

definition unit_pg :: pgparam where
  "unit_pg = \<lparr>PG_nextval = (\<lambda>fs k. length fs + 1), PG_numeric = (\<lambda>s. s), PG_dist = unit_dist\<rparr>"

definition pq_append where "pq_append inp s = on_run (\<lambda>env. pg_AppendEntityFact unit_pg env inp) s"
definition pq_edge where "pq_edge inp s = on_run (\<lambda>env. pg_AppendEdgeFact unit_pg env inp) s"
definition pq_merge where "pq_merge keep gone actor dk s = on_run (\<lambda>env. pg_MergeEntities unit_pg env keep gone actor dk) s"
definition pq_retract where "pq_retract e actor dk s = on_run (\<lambda>env. pg_RetractEntity unit_pg env e actor dk) s"
definition pq_retract_edge where "pq_retract_edge e actor dk s = on_run (\<lambda>env. pg_RetractEdge unit_pg env e actor dk) s"
definition pq_propose where "pq_propose p s = on_run (\<lambda>env. pg_Propose unit_pg env p) s"
definition pq_decide where "pq_decide i approve approver s = on_run (\<lambda>env. pg_DecideProposal unit_pg env i approve approver) s"
definition pq_rebuild where "pq_rebuild s = on_run (\<lambda>env. pg_RebuildProjection unit_pg) s"
fun pq_list :: "space_id \<Rightarrow> run \<Rightarrow> proposal list res" where "pq_list space (db, n) = Inr (pg_ListProposals space db)"
fun pq_get :: "acl_filter \<Rightarrow> entity_id \<Rightarrow> run \<Rightarrow> entity res" where "pq_get af e (db, n) = pg_GetEntity af e db"
fun pq_resolve :: "acl_filter \<Rightarrow> string list \<Rightarrow> run \<Rightarrow> entity list res" where
  "pq_resolve af keys (db, n) = Inr (pg_ResolveByExternalID (\<lambda>rows. rows) af keys db)"
fun pq_neighbors :: "acl_filter \<Rightarrow> neighbor_query \<Rightarrow> run \<Rightarrow> subgraph res" where
  "pq_neighbors af q (db, n) = pg_Neighbors (\<lambda>e rows. rows) af q db"
fun pq_semantic :: "acl_filter \<Rightarrow> vector_query \<Rightarrow> run \<Rightarrow> scored_entity list res" where
  "pq_semantic af q (db, n) = pg_SemanticSearch unit_pg af q db"
fun pq_text :: "acl_filter \<Rightarrow> text_query \<Rightarrow> run \<Rightarrow> scored_entity list res" where
  "pq_text af q (db, n) = pg_FullTextSearch (\<lambda>w t. List.member (Split CHR '' '' t) w) (\<lambda>_ _. 0) af q db"
fun pq_head :: "run \<Rightarrow> nat res" where "pq_head (db, n) = Inr (pg_ProjectionHead db)"

definition postgres_api :: "run store_api" where
  "postgres_api = \<lparr>api_AppendEntityFact = pq_append, api_AppendEdgeFact = pq_edge, api_MergeEntities = pq_merge,
     api_RetractEntity = pq_retract, api_RetractEdge = pq_retract_edge, api_Propose = pq_propose,
     api_DecideProposal = pq_decide, api_ListProposals = pq_list, api_GetEntity = pq_get,
     api_ResolveByExternalID = pq_resolve, api_Neighbors = pq_neighbors, api_SemanticSearch = pq_semantic,
     api_FullTextSearch = pq_text, api_RebuildProjection = pq_rebuild, api_ProjectionHead = pq_head\<rparr>"

text \<open>The bits Go computes for the vectors of the suite.\<close>

definition suite_vecs :: "real \<Rightarrow> f32bits list" where
  "suite_vecs c = (if c = 0.97 then [1064849900, 1048113275] else if c = 0.90 then [1063675494, 1054813432]
     else if c = 0.80 then [1061997773, 1058642329] else if c = 0.98 then [1065017672, 1045153272]
     else if c = 0.10 then [1036831949, 1065269119] else if c = 0.99 then [1065185444, 1041265646]
     else [1065353216, 0])"

section \<open>Evaluating\<close>

text \<open>The square root in \<open>cosine\<close> does not compute, so scores stay symbolic; a continuation is
  evaluated only on the value it gets; mantissas and lengths are integers.\<close>

declare cosine_def [code del]
declare rbind_def [code_unfold]

lemma normalizeProvenance_code [code]:
  "normalizeProvenance p ts =
     (let p1 = (if Method p = MethodOther [] then p\<lparr>Method := Asserted\<rparr> else p);
          p2 = (if Method p1 = Asserted \<and> Confidence p1 = 0 then p1\<lparr>Confidence := 1\<rparr> else p1)
      in if AssertedAt p2 = 0 then p2\<lparr>AssertedAt := ts\<rparr> else p2)"
  by (simp add: normalizeProvenance_def Let_def conj_commute)

lemma f32_val_code [code]:
  "f32_val w = (let m = uint (take_bit 23 w); e = f32_exp w; s = (if bit w 31 then -1 else 1) in
      if e = 0 then real_of_int (s * m) / real_of_int (2 ^ 149)
      else if e \<ge> 150 then real_of_int (s * (m + 2 ^ 23) * 2 ^ (e - 150))
      else real_of_int (s * (m + 2 ^ 23)) / real_of_int (2 ^ (150 - e)))"
  unfolding f32_val_def Let_def by simp

lemma vecLiteral_ok_code [code]:
  "vecLiteral_ok v \<longleftrightarrow> v \<noteq> [] \<and> int (length v) \<le> 16000 \<and> list_all f32_finite v"
  by (simp add: vecLiteral_ok_def list_all_iff)

definition suite_bits :: "f32bits list" where
  "suite_bits = [1064849900, 1048113275, 1063675494, 1054813432, 1061997773, 1058642329, 1065017672, 1045153272, 1036831949, 1065269119, 1065185444, 1041265646, 1065353216, 0]"
lemma Uint32_code [code]: "Uint32 a b c d =
   (let w = ucast a OR push_bit 8 (ucast b) OR push_bit 16 (ucast c) OR push_bit 24 (ucast d); n = uint w in
    case find (\<lambda>v. uint v = n) suite_bits of Some v \<Rightarrow> v | None \<Rightarrow> w)"
  by (auto simp: Uint32_def Let_def find_Some_iff word_uint_eq_iff split: option.split)

lemma suite_vals:
  "f32_val 1065353216 = 1" "f32_val 0 = 0"
  "f32_val 1064849900 = 4068475 / 4194304" "f32_val 1048113275 = 16314491 / 67108864"
  "f32_val 1063675494 = 7549747 / 8388608" "f32_val 1054813432 = 1828255 / 4194304"
  "f32_val 1061997773 = 13421773 / 16777216" "f32_val 1058642329 = 10066329 / 16777216"
  "f32_val 1065017672 = 2055209 / 2097152" "f32_val 1045153272 = 1669311 / 8388608"
  "f32_val 1036831949 = 13421773 / 134217728" "f32_val 1065269119 = 16693119 / 16777216"
  "f32_val 1065185444 = 4152361 / 4194304" "f32_val 1041265646 = 4733431 / 33554432"
  by code_simp+

text \<open>A cosine of two plane vectors is compared with a bound without its square root.\<close>

lemma cosine_pair:
  assumes "f32_val x1 = a1" and "f32_val x2 = a2" and "f32_val y1 = b1" and "f32_val y2 = b2"
    and "0 < a1 * b1 + a2 * b2" and "0 \<le> r"
  shows "r \<le> cosine [x1, x2] [y1, y2] \<longleftrightarrow> r\<^sup>2 * ((a1 * a1 + a2 * a2) * (b1 * b1 + b2 * b2)) \<le> (a1 * b1 + a2 * b2)\<^sup>2"
proof -
  let ?d = "a1 * b1 + a2 * b2" and ?a = "a1 * a1 + a2 * a2" and ?b = "b1 * b1 + b2 * b2"
  have a: "?a \<noteq> 0" "?b \<noteq> 0" using assms(5) by (auto simp: sum_squares_eq_zero_iff)
  moreover have "0 \<le> ?a" "0 \<le> ?b" by simp_all
  ultimately have pos: "0 < ?a" "0 < ?b" by linarith+
  then have s: "0 < sqrt ?a * sqrt ?b" by simp
  have c: "cosine [x1, x2] [y1, y2] = ?d / (sqrt ?a * sqrt ?b)"
    using a by (simp add: cosine_def cos_acc_def assms(1-4) Let_def)
  have "r \<le> cosine [x1, x2] [y1, y2] \<longleftrightarrow> r * (sqrt ?a * sqrt ?b) \<le> ?d"
    unfolding c using s by (simp add: pos_le_divide_eq)
  also have "\<dots> \<longleftrightarrow> (r * (sqrt ?a * sqrt ?b))\<^sup>2 \<le> ?d\<^sup>2"
    by (rule power_mono_iff [symmetric]) (use assms(5,6) pos in simp_all)
  also have "(r * (sqrt ?a * sqrt ?b))\<^sup>2 = r\<^sup>2 * (?a * ?b)" using pos by (simp add: power_mult_distrib)
  finally show ?thesis .
qed
lemma suite_thresholds: "real_of_rat (94 / (10 * (10 * 1))) = 47 / 50" "real_of_rat (86 / (10 * (10 * 1))) = 43 / 50"
  by (simp_all add: of_rat_divide)

lemma suite_scores:
  "real_of_rat (94 / (10 * (10 * 1))) \<le> cosine [1064849900, 1048113275] [1065353216, 0]"
  "\<not> real_of_rat (94 / (10 * (10 * 1))) \<le> cosine [1063675494, 1054813432] [1065353216, 0]"
  "real_of_rat (86 / (10 * (10 * 1))) \<le> cosine [1063675494, 1054813432] [1065353216, 0]"
  "\<not> real_of_rat (94 / (10 * (10 * 1))) \<le> cosine [1061997773, 1058642329] [1065353216, 0]"
  "\<not> real_of_rat (86 / (10 * (10 * 1))) \<le> cosine [1061997773, 1058642329] [1065353216, 0]"
  "\<not> real_of_rat (94 / (10 * (10 * 1))) \<le> cosine [1036831949, 1065269119] [1065017672, 1045153272]"
  "\<not> real_of_rat (86 / (10 * (10 * 1))) \<le> cosine [1036831949, 1065269119] [1065017672, 1045153272]"
  "real_of_rat (94 / (10 * (10 * 1))) \<le> cosine [1065185444, 1041265646] [1065017672, 1045153272]"
  unfolding suite_thresholds by (subst cosine_pair, (rule suite_vals)+, simp, simp, simp add: power2_eq_square)+
lemma suite_orders:
  "- cosine [1065185444, 1041265646] [1065017672, 1045153272] < - cosine [1065185444, 1041265646] [1036831949, 1065269119]"
  "\<not> cosine [1065185444, 1041265646] [1065017672, 1045153272] < cosine [1065185444, 1041265646] [1036831949, 1065269119]"
  "\<not> - cosine [1065353216, 0] [1036831949, 1065269119] < - cosine [1065353216, 0] [1065185444, 1041265646]"
  "\<not> - cosine [1065353216, 0] [1036831949, 1065269119] \<le> - cosine [1065353216, 0] [1065185444, 1041265646]"
proof -
  have "47 / 50 \<le> cosine [1065185444, 1041265646] [1065017672, 1045153272]" "47 / 50 \<le> cosine [1065353216, 0] [1065185444, 1041265646]"
    by (subst cosine_pair, (rule suite_vals)+, simp, simp, simp add: power2_eq_square)+
  moreover have "\<not> 47 / 50 \<le> cosine [1065185444, 1041265646] [1036831949, 1065269119]" "\<not> 47 / 50 \<le> cosine [1065353216, 0] [1036831949, 1065269119]"
    by (subst cosine_pair, (rule suite_vals)+, simp, simp, simp add: power2_eq_square)+
  ultimately show "- cosine [1065185444, 1041265646] [1065017672, 1045153272] < - cosine [1065185444, 1041265646] [1036831949, 1065269119]"
  "\<not> cosine [1065185444, 1041265646] [1065017672, 1045153272] < cosine [1065185444, 1041265646] [1036831949, 1065269119]" 
  "\<not> - cosine [1065353216, 0] [1036831949, 1065269119] < - cosine [1065353216, 0] [1065185444, 1041265646]"
  "\<not> - cosine [1065353216, 0] [1036831949, 1065269119] \<le> - cosine [1065353216, 0] [1065185444, 1041265646]"
  by linarith+
qed


lemma suite_bounds:
  "0 \<le> cosine [1065353216, 0] [1065185444, 1041265646]" "0 \<le> cosine [1065353216, 0] [1036831949, 1065269119]"
  "cosine a b * 10000 \<le> 10001"
proof -
  show "0 \<le> cosine [1065353216, 0] [1065185444, 1041265646]" "0 \<le> cosine [1065353216, 0] [1036831949, 1065269119]"
    by (subst cosine_pair, (rule suite_vals)+, simp, simp, simp)+
  show "cosine a b * 10000 \<le> 10001" using cosine_bounds [of a b] by linarith
qed

section \<open>Properties\<close>

text \<open>The tests that compare no vectors.\<close>

definition plain_tests :: "(run store_api \<Rightarrow> run \<Rightarrow> bool) list" where
  "plain_tests = [testInsertAndGet, testIdempotentReplay, testExternalAttach, testExternalMerge, testAccessFilter,
     testEdge, testEdgeDefaultDedupePerSpace, testRebuild, testNeighbors, testProposals, testDirectMergeAndPropUnion,
     testFullTextSearch, testRetractEdge, testPerSpaceExternalID]"

lemma suite_split:
  "RunStoreSuite vecAt st s \<longleftrightarrow> list_all (\<lambda>t. t st s) plain_tests \<and> testVectorResolve vecAt st s \<and> testSemanticSearch vecAt st s"
  by (simp add: RunStoreSuite_def store_suite_def plain_tests_def) blast

lemma sqlite_plain: "list_all (\<lambda>t. t sqlite_api (empty_db, 0)) plain_tests"
  by code_simp

lemma postgres_plain: "list_all (\<lambda>t. t postgres_api (empty_db, 0)) plain_tests"
  by code_simp

lemma sqlite_resolve: "testVectorResolve suite_vecs sqlite_api (empty_db, 0)"
  by ((code_simp, simp only: suite_scores if_True if_False)+, code_simp)

lemma sqlite_search: "testSemanticSearch suite_vecs sqlite_api (empty_db, 0)"
  by ((code_simp, simp only: suite_orders suite_scores if_True if_False simp_thms)+, code_simp)
     (simp add: obj_get_def not_less suite_bounds)

lemma postgres_resolve: "testVectorResolve suite_vecs postgres_api (empty_db, 0)"
  by code_simp

lemma postgres_search: "testSemanticSearch suite_vecs postgres_api (empty_db, 0)"
  by code_simp


text \<open>The test of the semantic search does not reach what it is for. It asserts a private movie close to a
  public one, to see that a search hides it; but within the auto-merge band the write is attached to
  the public movie, so that no private entity exists and the test passes whatever the search
  filters.\<close>

lemma secret_is_attached:
  "mustAppend sqlite_api (mkEntityVec ''Movie'' ''near'' ''public'' ''kate'' ''srch@2'' (suite_vecs 0.98) []) ''kate'' ''s1'' (empty_db, 0) (\<lambda>a s.
   mustAppend sqlite_api (mkEntityVec ''Movie'' ''secret'' ''private'' ''alice'' ''srch@2'' (suite_vecs 0.99) []) ''alice'' ''s3'' s (\<lambda>b s.
     RR_Action b = Some ActionAttach \<and> E_ID (RR_Entity b) = E_ID (RR_Entity a) \<and> map er_vis (entities (fst s)) = [VisPublic]))"
  by ((code_simp, simp only: suite_scores if_True if_False)+, code_simp)

end
