(* ===== verification/Jdx_Typed.thy ===== *)
theory Jdx_Typed
  imports Jdx_History
begin

text \<open>
  The allow-lists as a type discipline: what \<open>internal/domain/schema.go\<close> accepts at the boundary is
  all that the tables, and the log they are folded from, ever hold; and proposals as work that
  stays decidable until it is decided.
\<close>

section \<open>Typed databases\<close>

definition typed_payload :: "payload \<Rightarrow> bool" where
  "typed_payload p = (case p of PEntity e \<Rightarrow> KnownType (E_Type e) | PEdge d \<Rightarrow> KnownPredicate (D_Predicate d) | _ \<Rightarrow> True)"

definition typed_tables :: "db \<Rightarrow> bool" where
  "typed_tables db \<longleftrightarrow> (\<forall>r \<in> set (entities db). KnownType (er_type r)) \<and> (\<forall>d \<in> set (edges db). KnownPredicate (dr_predicate d))"

definition typed :: "db \<Rightarrow> bool" where
  "typed db \<longleftrightarrow> typed_tables db \<and> (\<forall>f \<in> set (facts db). typed_payload (f_payload f))"

lemma typed_tables_frame:
  "typed_tables db \<Longrightarrow> entities db' = entities db \<Longrightarrow> edges db' = edges db \<Longrightarrow> typed_tables db'"
  by (simp add: typed_tables_def)

lemma typed_tables_update_entity:
  "typed_tables db \<Longrightarrow> (\<And>r. er_type (f r) = er_type r) \<Longrightarrow> typed_tables (update_entity e f db)"
  by (auto simp: typed_tables_def update_entity_def)

lemma typed_tables_delete:
  "typed_tables db \<Longrightarrow> typed_tables (delete_entity e db)" "typed_tables db \<Longrightarrow> typed_tables (delete_edge x db)"
  "typed_tables (delete_fts e db) = typed_tables db"
  by (auto simp: typed_tables_def delete_entity_def delete_edge_def delete_fts_def)

lemma typed_upsert_row:
  assumes "typed_tables db" and "KnownType (E_Type e)" and "upsert_row e ts db = Inr db'"
  shows "typed_tables db'"
  using assms(3)
proof (cases rule: upsert_row_cases)
  case (insert j)
  with assms(1,2) show ?thesis by (auto simp: typed_tables_def insert_entity_def entity_to_row_def split: if_splits)
qed (use assms(1) in \<open>simp_all add: typed_tables_update_entity\<close>)

lemma typed_upsertEntitySnapshot:
  assumes "typed_tables db" and "KnownType (E_Type e)" and "upsertEntitySnapshot e ts db = Inr db'"
  shows "typed_tables db'"
  using assms(3)
proof (rule upsertEntitySnapshotE)
  fix db1 db2 db3
  assume s: "upsert_row e ts db = Inr db1" "rfold (\<lambda>x. insert_ext_or_ignore (ext_to_row e x)) (E_ExternalIDs e) db1 = Inr db2"
    "rfold (\<lambda>m. insert_emb_or_replace (emb_to_row e m)) (E_Embeddings e) db2 = Inr db3" "db' = syncEntityFTS (E_ID e) db3"
  from typed_upsert_row [OF assms(1,2) s(1)] show ?thesis
    by (rule typed_tables_frame) (use insert_exts_frame [OF s(2)] insert_embs_frame [OF s(3)] s(4) in simp_all)
qed

lemma typed_upsertEdgeSnapshot:
  "typed_tables db \<Longrightarrow> KnownPredicate (D_Predicate d) \<Longrightarrow> upsertEdgeSnapshot d ts db = Inr db' \<Longrightarrow> typed_tables db'"
  by (auto simp: upsertEdgeSnapshot_def insert_edge_or_replace_def edge_to_row_def typed_tables_def elim!: rbindE split: if_splits)

lemma moves_edges:
  "move_ext k g db = Inr db' \<Longrightarrow> edges db' = edges db" "move_labels k g db = Inr db' \<Longrightarrow> edges db' = edges db"
  "move_emb k g db = Inr db' \<Longrightarrow> edges db' = edges db"
  by (auto simp: move_ext_def move_labels_def move_emb_def Let_def split: if_splits)

lemma typed_repoint:
  "typed_tables db \<Longrightarrow> repoint_from k g db = Inr db' \<Longrightarrow> typed_tables db'"
  "typed_tables db \<Longrightarrow> repoint_to k g db = Inr db' \<Longrightarrow> typed_tables db'"
  by (auto simp: typed_tables_def repoint_from_def repoint_to_def split: if_splits)

lemma typed_mergeEntitiesTx:
  assumes "typed_tables db" and "mergeEntitiesTx k g ts db = Inr db'"
  shows "typed_tables db'"
proof (cases "k = g")
  case True
  with assms show ?thesis by (simp add: mergeEntitiesTx_def)
next
  case False
  from assms(2) this show ?thesis
  proof (rule mergeEntitiesTxE)
    fix db2 db4 db6 db7 db8
    assume s: "move_ext k g (db\<lparr>entity_external_ids := del_dups xr_entity xr_key k g (entity_external_ids db)\<rparr>) = Inr db2"
      "move_labels k g (db2\<lparr>entity_labels := del_dups fst snd k g (entity_labels db2)\<rparr>) = Inr db4"
      "move_emb k g (db4\<lparr>embeddings := del_dups mr_entity mr_key k g (embeddings db4)\<rparr>) = Inr db6"
      "repoint_from k g db6 = Inr db7" "repoint_to k g db7 = Inr db8"
      and db': "db' = update_entity k (\<lambda>r. r\<lparr>er_updated_at := fmtTS ts\<rparr>) (delete_fts g (delete_entity g db8))"
    have "typed_tables db6"
      by (rule typed_tables_frame [OF assms(1)])
         (use moves_fts_frame(1) [OF s(1)] moves_fts_frame(2) [OF s(2)] moves_fts_frame(3) [OF s(3)]
            moves_edges(1) [OF s(1)] moves_edges(2) [OF s(2)] moves_edges(3) [OF s(3)] in simp_all)
    from typed_repoint(2) [OF typed_repoint(1) [OF this s(4)] s(5)] show ?thesis
      by (simp add: db' typed_tables_update_entity typed_tables_delete)
  qed
qed

lemma typed_insertFact:
  assumes "typed_tables db" and "\<forall>f \<in> set (facts db). typed_payload (f_payload f)" and "typed_payload pl"
    and "insertFact nid kind sub w dk pl ac ts db = Inr db'"
  shows "typed db'"
  using assms(4) by (rule insertFactE) (use assms(1-3) in \<open>auto simp: typed_def typed_tables_def\<close>)

section \<open>Every write keeps the types\<close>

lemma typed_assert_entity:
  assumes "typed db" and "KnownType (E_Type e)" and "upsertEntitySnapshot e ts db = Inr db1"
    and "appendEntityFact nid e w dk ac ts db1 = Inr db'"
  shows "typed db'"
  using assms(4)
proof (rule appendEntityFactE)
  fix pl assume pl: "marshal_entity e = Inr pl" and f: "insertFact nid FactEntityAsserted (E_ID e) w dk pl ac ts db1 = Inr db'"
  show ?thesis
    by (rule typed_insertFact [OF typed_upsertEntitySnapshot [OF _ assms(2,3)] _ _ f])
       (use assms(1,2) pl upsertEntitySnapshot_proposals [OF assms(3)] in \<open>auto simp: typed_def marshal_entity_def typed_payload_def elim!: rbindE split: if_splits\<close>)
qed

lemma typed_assert_edge:
  assumes "typed db" and "KnownPredicate (D_Predicate ed)" and "upsertEdgeSnapshot ed ts db = Inr db1"
    and "marshal_edge ed = Inr pl" and "insertFact nid FactEdgeAsserted sub w dk pl ac ts db1 = Inr db'"
  shows "typed db'"
  by (rule typed_insertFact [OF typed_upsertEdgeSnapshot [OF _ assms(2,3)] _ _ assms(5)])
     (use assms upsertEdgeSnapshot_proposals [OF assms(3)] in \<open>auto simp: typed_def marshal_edge_def typed_payload_def elim!: rbindE\<close>)

lemma typed_merge_fact:
  assumes "typed db" and "mergeEntitiesTx k g ts db = Inr db1" and "appendMergeFact nid k g w dk ac ts db1 = Inr db'"
  shows "typed db'"
  by (rule typed_insertFact [OF typed_mergeEntitiesTx [OF _ assms(2)] _ _ assms(3) [unfolded appendMergeFact_def]])
     (use assms(1) mergeEntitiesTx_proposals [OF assms(2)] in \<open>auto simp: typed_def typed_payload_def\<close>)

lemma typed_insert_new:
  assumes "typed db" and "KnownType (E_Type cand)" and "insert_new env k dk ts inp cand d db = Inr (db', eid)"
  shows "typed db'"
  using assms(3)
proof (cases rule: insert_newE)
  case (plain db1)
  show ?thesis by (rule typed_assert_entity [OF assms(1) _ plain(2,3)]) (simp add: assms(2))
next
  case (flagged db1 db2 db3 ed pl)
  have "KnownPredicate (D_Predicate ed)" unfolding flagged(6) flag_edge_def edge.simps by code_simp
  moreover have "typed db2" by (rule typed_assert_entity [OF assms(1) _ flagged(2,3)]) (simp add: assms(2))
  ultimately show ?thesis using flagged(7,8,9) typed_assert_edge by blast
qed

lemma typed_attach_to:
  assumes "typed db" and "KnownType (E_Type cand)" and "attach_to env k dk ts inp cand target db = Inr (db', eid)"
  shows "typed db'"
  using assms(3) by (rule attach_toE) (rule typed_assert_entity [OF assms(1)], simp_all add: assms(2))

lemma typed_merge_all:
  assumes "typed db" and "KnownType (E_Type cand)" and "merge_all env k dk ts inp cand keep targets db = Inr (db', eid)"
  shows "typed db'"
proof -
  from assms(3) obtain db1 where m: "rfold (merge_one env k dk ts inp keep) (enumerate 0 (drop 1 targets)) db = Inr db1"
    and a: "attach_to env (k + length (drop 1 targets)) dk ts inp cand keep db1 = Inr (db', eid)"
    by (auto simp: merge_all_def elim!: rbindE)
  have "typed db1"
    by (rule rfold_invariant [where P = typed, OF m assms(1)]) (auto simp: merge_one_def elim!: rbindE intro: typed_merge_fact)
  from typed_attach_to [OF this assms(2) a] show ?thesis .
qed

lemma typed_AppendEntityFact:
  assumes "typed db"
  shows "typed (fst (AppendEntityFact env inp db))"
proof (cases rule: AppendEntityFact_cases [of env inp db])
  case (unchanged r e)
  with assms show ?thesis by simp
next
  case (appended db' r cand)
  from appended(3) have "typed db'"
  proof (rule append_resolvedE)
    fix d eid ent
    assume "apply_decision env (snd (entity_dedupe_key env inp)) (fst (entity_dedupe_key env inp)) (env_now env 1)
      inp cand d db = Inr (db', eid)"
    then show ?thesis
      using appended(4) assms
      by (cases "Action d")
         (auto simp: apply_decision_def intro: typed_insert_new typed_attach_to typed_merge_all)
  qed
  with appended(1) show ?thesis by simp
qed

lemma typed_AppendEdgeFact:
  assumes "typed db"
  shows "typed (fst (AppendEdgeFact env inp db))"
proof (cases rule: AppendEdgeFact_cases [of env inp db])
  case (unchanged r e)
  with assms show ?thesis by simp
next
  case (appended db' out ed)
  from appended(3) have "typed db'"
    by (rule append_edge_txE) (rule typed_assert_edge [OF assms], use appended(4) in simp_all)
  with appended(1) show ?thesis by simp
qed

lemma typed_commit: "typed db \<Longrightarrow> (\<And>db'. r = Inr db' \<Longrightarrow> typed db') \<Longrightarrow> typed (fst (commit r db))"
  by (simp add: commit_def split: sum.split)

lemma typed_retract:
  assumes "typed db"
  shows "typed (fst (RetractEntity env e actor dk db))" and "typed (fst (RetractEdge env x actor dk db))"
proof -
  have t: "typed_tables (delete_fts e (delete_entity e db))" "typed_tables (delete_edge x db)"
    and f: "facts (delete_fts e (delete_entity e db)) = facts db" "facts (delete_edge x db) = facts db"
    using assms typed_tables_delete(1,2) [of db] by (simp_all add: typed_def typed_tables_delete(3))
      (simp_all add: delete_fts_def delete_entity_def delete_edge_def)
  have l: "\<forall>f \<in> set (facts db). typed_payload (f_payload f)" "typed_payload PEmpty"
    using assms by (simp_all add: typed_def typed_payload_def)
  show "typed (fst (RetractEntity env e actor dk db))"
    unfolding RetractEntity_def
    by (rule typed_commit [OF assms], unfold retract_entity_tx_def Let_def, rule typed_insertFact [OF t(1)]) (simp_all add: f l)
  show "typed (fst (RetractEdge env x actor dk db))"
    unfolding RetractEdge_def
    by (rule typed_commit [OF assms], unfold retract_edge_tx_def Let_def, rule typed_insertFact [OF t(2)]) (simp_all add: f l)
qed

lemma typed_MergeEntities: "typed db \<Longrightarrow> typed (fst (MergeEntities env keep gone actor dk db))"
  unfolding MergeEntities_def
  by (rule typed_commit) (auto simp: merge_entities_tx_def Let_def elim!: rbindE intro: typed_merge_fact split: if_splits)

lemma typed_proposals: "typed (db\<lparr>proposals := ps\<rparr>) = typed db"
  by (simp add: typed_def typed_tables_def)

lemma typed_replay_intent: "typed db \<Longrightarrow> typed (fst (replay_intent env kind pl db))"
  using typed_AppendEntityFact [of db env] typed_AppendEdgeFact [of db env]
  by (auto simp: replay_intent_def Let_def case_prod_beta split: fact_kind.split proposal_payload.split)

lemma typed_update_pending: "typed (update_pending i st ts b db) = typed db"
  by (simp add: update_pending_def typed_proposals)

lemma typed_DecideProposal:
  assumes "typed db"
  shows "typed (fst (DecideProposal env i approve a db))"
proof (cases rule: DecideProposal_cases [of db i env approve a])
  case (failed p db' r s e)
  with typed_replay_intent [of "update_pending i StPromoted (fmtTS (env_now env 0)) a db" "later 1 env" "pr_kind p" "pr_payload p"] assms
  show ?thesis by (simp add: typed_update_pending)
next
  case (promoted p db' r s)
  with typed_replay_intent [of "update_pending i StPromoted (fmtTS (env_now env 0)) a db" "later 1 env" "pr_kind p" "pr_payload p"] assms
  show ?thesis by (simp add: typed_update_pending set_result_subject_def typed_proposals)
qed (use assms in \<open>simp_all add: typed_update_pending\<close>)

lemma typed_fold_row:
  assumes "typed_tables db" and "typed_payload (f_payload f)" and "fold_row f db = Inr db'"
  shows "typed_tables db'"
  using assms
  by (auto simp: fold_row_def foldFact_def unmarshal_entity_def unmarshal_edge_def unmarshal_merge_def typed_payload_def typed_tables_delete
      elim!: rbindE intro: typed_upsertEntitySnapshot typed_upsertEdgeSnapshot typed_mergeEntitiesTx
      split: fact_kind.splits payload.splits)

lemma typed_rebuild:
  assumes "typed db"
  shows "typed (fst (RebuildProjection db))"
  unfolding RebuildProjection_def
proof (rule typed_commit [OF assms])
  fix db' assume r: "rebuild_tx db = Inr db'"
  have "typed_tables (clear_projection db)" by (simp add: typed_tables_def clear_projection_def)
  then have "typed_tables db'"
    by (rule rfold_invariant [where P = typed_tables, OF r [unfolded rebuild_tx_def]])
       (use assms typed_fold_row in \<open>auto simp: typed_def\<close>)
  with assms rebuild_tx_log [OF r] show "typed db'" by (simp add: typed_def)
qed

lemma typed_reachable: "reachable ok db \<Longrightarrow> typed db"
  by (induction rule: reachable_induct)
     (simp_all add: typed_AppendEntityFact typed_AppendEdgeFact typed_MergeEntities typed_retract typed_DecideProposal typed_rebuild,
      simp_all add: typed_def typed_tables_def empty_db_def Propose_def Let_def split: prod.split)

section \<open>Work left for a reviewer\<close>

text \<open>What the store does while a proposal waits: any operation but a decision of that proposal.\<close>

inductive other_step :: "string \<Rightarrow> db \<Rightarrow> db \<Rightarrow> bool" for i where
  append_entity: "other_step i db (fst (AppendEntityFact env inp db))"
| append_edge: "other_step i db (fst (AppendEdgeFact env einp db))"
| merge: "other_step i db (fst (MergeEntities env keep gone actor dk db))"
| retract_entity: "other_step i db (fst (RetractEntity env e actor dk db))"
| retract_edge: "other_step i db (fst (RetractEdge env d actor dk db))"
| propose: "other_step i db (fst (Propose env p db))"
| decide: "j \<noteq> i \<Longrightarrow> other_step i db (fst (DecideProposal env j approve approver db))"
| rebuild: "other_step i db (fst (RebuildProjection db))"

inductive waits :: "string \<Rightarrow> db \<Rightarrow> db \<Rightarrow> bool" for i where
  start: "waits i db db"
| step: "waits i db db1 \<Longrightarrow> other_step i db1 db2 \<Longrightarrow> waits i db db2"

lemma lookup_row_map_other:
  "(\<And>r. key (f r) = key r) \<Longrightarrow> (\<And>r. key r = k \<Longrightarrow> f r = r) \<Longrightarrow> lookup_row key k (map f rows) = lookup_row key k rows"
  by (cases "lookup_row key k rows") (auto simp: lookup_row_map dest: lookup_row_SomeD)

lemma Propose_keeps: "get_proposal db i = Some p \<Longrightarrow> get_proposal (fst (Propose env q db)) i = Some p"
  by (auto simp: Propose_def Let_def get_proposal_def lookup_row_append)

lemma DecideProposal_keeps:
  assumes "j \<noteq> i"
  shows "get_proposal (fst (DecideProposal env j approve a db)) i = get_proposal db i"
proof -
  have u: "get_proposal (update_pending j st ts b d) i = get_proposal d i" for st ts b d
    unfolding get_proposal_def proposals_update_pending
    by (rule lookup_row_map_other) (use assms in \<open>auto simp: decide_row_def\<close>)
  have s: "get_proposal (set_result_subject j x d) i = get_proposal d i" for x d
    unfolding get_proposal_def set_result_subject_def
    by (simp, rule lookup_row_map_other) (use assms in auto)
  show ?thesis
    by (cases rule: DecideProposal_cases [of db j env approve a])
       (simp_all add: u s, (metis replay_intent_proposals get_proposal_frame u fst_conv)+)
qed

lemma waits_pending:
  assumes "waits i db db'" and "get_proposal db i = Some p"
  shows "get_proposal db' i = Some p"
  using assms
proof (induction rule: waits.induct)
  case (step db db1 db2)
  have rebuild: "proposals (fst (RebuildProjection d)) = proposals d" for d
    by (auto simp: RebuildProjection_def commit_def rebuild_tx_log split: sum.split)
  from step.hyps(2) step.IH [OF step.prems] show ?case
    by cases (simp_all add: Propose_keeps DecideProposal_keeps
        get_proposal_frame [OF AppendEntityFact_proposals] get_proposal_frame [OF AppendEdgeFact_proposals]
        get_proposal_frame [OF MergeEntities_proposals] get_proposal_frame [OF Retract_proposals(1)]
        get_proposal_frame [OF Retract_proposals(2)] get_proposal_frame [OF rebuild])
qed simp

section \<open>Properties\<close>



text \<open>C24: A pending proposal can always still be decided, and one decision settles it. However many
  operations others run meanwhile, rebuilds and decisions of other proposals included, the proposal
  is unchanged; rejecting it then succeeds, and after any decision, also an approval whose write
  fails, it is no longer pending and carries the decider.\<close>

theorem pending_can_be_decided:
  assumes "get_proposal db i = Some p" and "pr_status p = StPending" and "waits i db db'"
  shows "get_proposal db' i = Some p \<and>
    snd (DecideProposal env i False a db') = (result0, None) \<and>
    (\<exists>q. get_proposal (fst (DecideProposal env i approve a db')) i = Some q \<and> pr_status q \<noteq> StPending \<and> pr_decided_by q = Some a)"
proof -
  from waits_pending [OF assms(3,1)] have p: "get_proposal db' i = Some p" .
  with assms(2) have "snd (DecideProposal env i False a db') = (result0, None)" by (simp add: DecideProposal_def)
  with p DecideProposal_row [OF p, of env approve a] assms(2) show ?thesis by blast
qed

theorem pending_can_be_decided_witness:
  "snd (DecideProposal sample_write_env ''p1'' False ''kate'' (fst (RebuildProjection (fst (RetractEntity sample_write_env ''a'' ''zoe'' [] sample_held_db))))) =
     (result0, None)"
proof -
  have "waits ''p1'' sample_held_db (fst (RebuildProjection (fst (RetractEntity sample_write_env ''a'' ''zoe'' [] sample_held_db))))"
    by (rule waits.step [OF waits.step [OF waits.start]]) (rule other_step.retract_entity, rule other_step.rebuild)
  from pending_can_be_decided [OF sample_held _ this] show ?thesis by simp
qed

end
