(* ===== verification/Jdx_Heyarr.thy ===== *)
theory Jdx_Heyarr
  imports Jdx_Golib
begin

text \<open>
  The outbound MCP client of \<open>internal/heyarr\<close> and the redacting string of \<open>internal/secret\<close>. The
  network and the syntax of JSON text are parameters: what sending a request comes to, and which
  value a text denotes. Formatting an error as text is not modelled.
\<close>

section \<open>Secrets\<close>

type_synonym secret_value = string

definition secret_String :: "secret_value \<Rightarrow> string" where
  "secret_String v = (if v = [] then [] else ''[REDACTED]'')"

definition secret_GoString :: "secret_value \<Rightarrow> string" where
  "secret_GoString v = secret_String v"

definition secret_Reveal :: "secret_value \<Rightarrow> string" where
  "secret_Reveal v = v"

definition secret_IsZero :: "secret_value \<Rightarrow> bool" where
  "secret_IsZero v \<longleftrightarrow> v = []"

section \<open>Bridge external ids\<close>

abbreviation SchemeWork :: string where "SchemeWork \<equiv> ''heyarr-work''"
abbreviation SchemeEdition :: string where "SchemeEdition \<equiv> ''heyarr-edition''"
abbreviation SchemeAsset :: string where "SchemeAsset \<equiv> ''heyarr-asset''"
abbreviation SchemeBlake3 :: string where "SchemeBlake3 \<equiv> ''heyarr-blake3''"

definition WorkExternalID :: "string \<Rightarrow> external_id" where
  "WorkExternalID i = \<lparr>Scheme = SchemeWork, Value = i\<rparr>"

definition EditionExternalID :: "string \<Rightarrow> external_id" where
  "EditionExternalID i = \<lparr>Scheme = SchemeEdition, Value = i\<rparr>"

definition AssetExternalID :: "string \<Rightarrow> external_id" where
  "AssetExternalID i = \<lparr>Scheme = SchemeAsset, Value = i\<rparr>"

definition Blake3ExternalID :: "string \<Rightarrow> external_id" where
  "Blake3ExternalID hash = \<lparr>Scheme = SchemeBlake3, Value = hash\<rparr>"

definition IsHeyarrScheme :: "string \<Rightarrow> bool" where
  "IsHeyarrScheme s \<longleftrightarrow> s = SchemeWork \<or> s = SchemeEdition \<or> s = SchemeAsset \<or> s = SchemeBlake3"

definition bridge_IDs :: "entity \<Rightarrow> external_id list" where
  "bridge_IDs e = filter (\<lambda>x. IsHeyarrScheme (Scheme x)) (E_ExternalIDs e)"

definition ForeignExternalID :: "string \<Rightarrow> string \<Rightarrow> external_id option" where
  "ForeignExternalID scheme value =
     (let s = ToLower (TrimSpace scheme); v = TrimSpace value in
      if s = [] \<or> v = [] then None else Some \<lparr>Scheme = s, Value = v\<rparr>)"

section \<open>The client\<close>

record heyarr_error =
  HE_Op :: string
  HE_Code :: int
  HE_Message :: string

record heyarr_client =
  HC_baseURL :: string
  HC_token :: secret_value
  HC_seq :: int

definition heyarr_New :: "string \<Rightarrow> secret_value \<Rightarrow> heyarr_client res" where
  "heyarr_New baseURL token =
     (if TrimSpace baseURL = [] then Inl (ErrMsg ''heyarr: empty BaseURL'')
      else Inr \<lparr>HC_baseURL = TrimRight baseURL {CHR ''/''}, HC_token = token, HC_seq = 0\<rparr>)"

text \<open>The request: its body is \<open>tools/call\<close> with the id, tool name and arguments.\<close>

record heyarr_request =
  HQ_URL :: string
  HQ_Headers :: "(string \<times> string) list"
  HQ_ID :: int
  HQ_Tool :: string
  HQ_Arguments :: json

text \<open>What comes of it: the request cannot be built; the transport fails; reading the body fails; or a
  status and a body.\<close>

datatype heyarr_outcome = NetNoRequest | NetFailed | NetReadError | NetResponse int string

record rpc_reply =
  RP_Result :: rawmsg
  RP_Error :: "(int \<times> string) option"

record tool_reply =
  TP_Content :: "(string \<times> string) list"
  TP_Structured :: rawmsg
  TP_IsError :: bool

definition reply_error_field :: "(string \<Rightarrow> int option) \<Rightarrow> string \<Rightarrow> json \<Rightarrow> int \<times> string \<Rightarrow> (int \<times> string) res" where
  "reply_error_field atoi k v e =
     (if k = ''code'' then (case v of JNum n \<Rightarrow> (case atoi n of None \<Rightarrow> Inl ErrUnmarshal | Some c \<Rightarrow> Inr (c, snd e))
          | JNull \<Rightarrow> Inr e | _ \<Rightarrow> Inl ErrUnmarshal)
      else if k = ''message'' then upd (\<lambda>x p. (fst p, x)) (dec_string v (snd e)) e
      else Inr e)"

definition reply_field :: "string \<Rightarrow> json \<Rightarrow> rpc_reply \<Rightarrow> rpc_reply res" where
  "reply_field k v r =
     (if k = ''jsonrpc'' then upd (\<lambda>x s. s) (dec_string v []) r
      else if k = ''result'' then Inr (r\<lparr>RP_Result := RawDoc v\<rparr>)
      else if k = ''error'' then
        (if v = JNull then Inr (r\<lparr>RP_Error := None\<rparr>)
         else upd (\<lambda>x. RP_Error_update (\<lambda>_. Some x))
           (dec_struct (reply_error_field Atoi) v (case RP_Error r of None \<Rightarrow> (0, []) | Some e \<Rightarrow> e)) r)
      else Inr r)"

definition content_field :: "string \<Rightarrow> json \<Rightarrow> string \<times> string \<Rightarrow> (string \<times> string) res" where
  "content_field k v c =
     (if k = ''type'' then upd (\<lambda>x p. (x, snd p)) (dec_string v (fst c)) c
      else if k = ''text'' then upd (\<lambda>x p. (fst p, x)) (dec_string v (snd c)) c
      else Inr c)"

definition tool_reply_field :: "string \<Rightarrow> json \<Rightarrow> tool_reply \<Rightarrow> tool_reply res" where
  "tool_reply_field k v t =
     (if k = ''content'' then upd (\<lambda>x. TP_Content_update (\<lambda>_. x)) (dec_slice (\<lambda>j. dec_struct content_field j ([], [])) v) t
      else if k = ''structuredcontent'' then Inr (t\<lparr>TP_Structured := RawDoc v\<rparr>)
      else if k = ''iserror'' then upd (\<lambda>x. TP_IsError_update (\<lambda>_. x)) (dec_bool v (TP_IsError t)) t
      else Inr t)"

definition toolErrorText :: "tool_reply \<Rightarrow> string" where
  "toolErrorText t = (case TP_Content t of
       (typ, msg) # _ \<Rightarrow> if msg \<noteq> [] then msg else ''tool reported an error''
     | [] \<Rightarrow> ''tool reported an error'')"

definition bodyLimit :: int where
  "bodyLimit = 8 * 2 ^ 20"

definition call_request :: "heyarr_client \<Rightarrow> string \<Rightarrow> string \<Rightarrow> json \<Rightarrow> heyarr_request" where
  "call_request c reqID tool args =
     \<lparr>HQ_URL = HC_baseURL c,
      HQ_Headers = [(''Content-Type'', ''application/json''), (''Accept'', ''application/json''), (''X-Request-Id'', reqID)] @
        (if \<not> secret_IsZero (HC_token c) then [(''Authorization'', ''Bearer '' @ secret_Reveal (HC_token c))] else []),
      HQ_ID = HC_seq c + 1, HQ_Tool = tool, HQ_Arguments = args\<rparr>"

text \<open>\<open>into\<close> stores a payload in the caller's value, \<open>zero\<close> is that value before. The arguments the
  callers pass always marshal.\<close>

definition heyarr_Call ::
    "(string \<Rightarrow> json option) \<Rightarrow> (heyarr_request \<Rightarrow> heyarr_outcome) \<Rightarrow> string \<Rightarrow> string \<Rightarrow> json \<Rightarrow>
     'a \<Rightarrow> (json \<Rightarrow> 'a res) \<Rightarrow> heyarr_client \<Rightarrow> heyarr_client \<times> (heyarr_error + 'a)" where
  "heyarr_Call parse net reqID tool args zero into c =
     (let err = (\<lambda>code msg. Inl \<lparr>HE_Op = tool, HE_Code = code, HE_Message = msg\<rparr>);
          c' = c\<lparr>HC_seq := HC_seq c + 1\<rparr> in
      (c', case net (call_request c reqID tool args) of
         NetNoRequest \<Rightarrow> err 0 ''build request''
       | NetFailed \<Rightarrow> err 0 ''request failed''
       | NetReadError \<Rightarrow> err 0 ''read response''
       | NetResponse status body \<Rightarrow>
           if status \<noteq> 200 then err status ''http status''
           else (case Option.bind (parse (LimitReader body bodyLimit)) (\<lambda>j. case dec_struct reply_field j
                    \<lparr>RP_Result = RawEmpty, RP_Error = None\<rparr> of Inl _ \<Rightarrow> None | Inr r \<Rightarrow> Some r) of
               None \<Rightarrow> err 0 ''decode response''
             | Some rpc \<Rightarrow>
                 (case RP_Error rpc of
                    Some (code, msg) \<Rightarrow> err code msg
                  | None \<Rightarrow>
                      (case unmarshal_raw (\<lambda>j. dec_struct tool_reply_field j
                              \<lparr>TP_Content = [], TP_Structured = RawEmpty, TP_IsError = False\<rparr>) (RP_Result rpc) of
                         Inl _ \<Rightarrow> err 0 ''decode tool result''
                       | Inr tr \<Rightarrow>
                           if TP_IsError tr then err 0 (toolErrorText tr)
                           else
                             let payload = (case TP_Structured tr of
                                 RawEmpty \<Rightarrow> (case TP_Content tr of
                                     [] \<Rightarrow> RawEmpty
                                   | (typ, msg) # _ \<Rightarrow> if msg = [] then RawEmpty
                                       else (case parse msg of None \<Rightarrow> RawBad msg | Some j \<Rightarrow> RawDoc j))
                               | p \<Rightarrow> p)
                             in (case payload of
                                   RawEmpty \<Rightarrow> Inr zero
                                 | p \<Rightarrow> (case unmarshal_raw into p of
                                     Inl _ \<Rightarrow> err 0 ''decode structured content''
                                   | Inr x \<Rightarrow> Inr x)))))))"

section \<open>The two tools\<close>

record heyarr_external_id =
  HX_Source :: string
  HX_Value :: string
  HX_EntityType :: string
  HX_EntityID :: string

definition heyarr_external_id_field :: "string \<Rightarrow> json \<Rightarrow> heyarr_external_id \<Rightarrow> heyarr_external_id res" where
  "heyarr_external_id_field k v x =
     (if k = ''source'' then upd (\<lambda>s. HX_Source_update (\<lambda>_. s)) (dec_string v (HX_Source x)) x
      else if k = ''value'' then upd (\<lambda>s. HX_Value_update (\<lambda>_. s)) (dec_string v (HX_Value x)) x
      else if k = ''entity_type'' then upd (\<lambda>s. HX_EntityType_update (\<lambda>_. s)) (dec_string v (HX_EntityType x)) x
      else if k = ''entity_id'' then upd (\<lambda>s. HX_EntityID_update (\<lambda>_. s)) (dec_string v (HX_EntityID x)) x
      else Inr x)"

definition external_ids_result :: "json \<Rightarrow> heyarr_external_id list res" where
  "external_ids_result j = dec_struct (\<lambda>k v xs. if k = ''external_ids''
     then dec_slice (\<lambda>e. dec_struct heyarr_external_id_field e
       \<lparr>HX_Source = [], HX_Value = [], HX_EntityType = [], HX_EntityID = []\<rparr>) v else Inr xs) j []"

record external_ids_request =
  XQ_WorkID :: string
  XQ_EditionID :: string
  XQ_Source :: string
  XQ_Value :: string

definition omit_empty :: "(string \<times> string) list \<Rightarrow> (string \<times> json) list" where
  "omit_empty kvs = map (\<lambda>(k, v). (k, JStr v)) (filter (\<lambda>(k, v). v \<noteq> []) kvs)"

definition GetExternalIDs ::
    "(string \<Rightarrow> json option) \<Rightarrow> (heyarr_request \<Rightarrow> heyarr_outcome) \<Rightarrow> string \<Rightarrow> external_ids_request \<Rightarrow>
     heyarr_client \<Rightarrow> heyarr_client \<times> (heyarr_error + heyarr_external_id list)" where
  "GetExternalIDs parse net reqID q c =
     heyarr_Call parse net reqID ''get_external_ids''
       (JObj (omit_empty [(''work_id'', XQ_WorkID q), (''edition_id'', XQ_EditionID q), (''source'', XQ_Source q),
          (''value'', XQ_Value q)])) [] external_ids_result c"

record heyarr_work =
  HW_WorkID :: string
  HW_ContentType :: string
  HW_Title :: string
  HW_Year :: "int option"

definition work_field :: "string \<Rightarrow> json \<Rightarrow> heyarr_work \<Rightarrow> heyarr_work res" where
  "work_field k v w =
     (if k = ''work_id'' then upd (\<lambda>s. HW_WorkID_update (\<lambda>_. s)) (dec_string v (HW_WorkID w)) w
      else if k = ''content_type'' then upd (\<lambda>s. HW_ContentType_update (\<lambda>_. s)) (dec_string v (HW_ContentType w)) w
      else if k = ''title'' then upd (\<lambda>s. HW_Title_update (\<lambda>_. s)) (dec_string v (HW_Title w)) w
      else if k = ''year'' then
        (if v = JNull then Inr (w\<lparr>HW_Year := None\<rparr>) else upd (\<lambda>y. HW_Year_update (\<lambda>_. Some y)) (dec_int v 0) w)
      else Inr w)"

record search_result =
  HS_Works :: "heyarr_work list"
  HS_Count :: int
  HS_Truncated :: bool

definition search_result_field :: "string \<Rightarrow> json \<Rightarrow> search_result \<Rightarrow> search_result res" where
  "search_result_field k v r =
     (if k = ''works'' then upd (\<lambda>x. HS_Works_update (\<lambda>_. x)) (dec_slice (\<lambda>e. dec_struct work_field e
        \<lparr>HW_WorkID = [], HW_ContentType = [], HW_Title = [], HW_Year = None\<rparr>) v) r
      else if k = ''count'' then upd (\<lambda>x. HS_Count_update (\<lambda>_. x)) (dec_int v (HS_Count r)) r
      else if k = ''truncated'' then upd (\<lambda>x. HS_Truncated_update (\<lambda>_. x)) (dec_bool v (HS_Truncated r)) r
      else Inr r)"

record search_args =
  HA_Query :: string
  HA_Limit :: string
  HA_ContentType :: string

text \<open>\<open>HA_Limit\<close> is the limit as its JSON number, empty when it is zero and left out.\<close>

definition SearchContent ::
    "(string \<Rightarrow> json option) \<Rightarrow> (heyarr_request \<Rightarrow> heyarr_outcome) \<Rightarrow> string \<Rightarrow> search_args \<Rightarrow>
     heyarr_client \<Rightarrow> heyarr_client \<times> (heyarr_error + search_result)" where
  "SearchContent parse net reqID a c =
     (if HA_Query a = [] \<and> HA_ContentType a = [] then
        (c, Inl \<lparr>HE_Op = ''search_content'', HE_Code = 0, HE_Message = ''need a query or a content_type''\<rparr>)
      else heyarr_Call parse net reqID ''search_content''
        (JObj (omit_empty [(''query'', HA_Query a)] @
           (if HA_Limit a = [] then [] else [(''limit'', JNum (HA_Limit a))]) @
           omit_empty [(''content_type'', HA_ContentType a)]))
        \<lparr>HS_Works = [], HS_Count = 0, HS_Truncated = False\<rparr>
        (\<lambda>j. dec_struct search_result_field j \<lparr>HS_Works = [], HS_Count = 0, HS_Truncated = False\<rparr>) c)"

definition work_ExternalID :: "heyarr_work \<Rightarrow> external_id" where
  "work_ExternalID w = WorkExternalID (HW_WorkID w)"

section \<open>What a successful call means\<close>

lemma heyarr_Call_Inr:
  assumes "snd (heyarr_Call parse net reqID tool args zero into c) = Inr x"
  shows "\<exists>body j rpc tr. net (call_request c reqID tool args) = NetResponse 200 body \<and>
    parse (LimitReader body bodyLimit) = Some j \<and>
    dec_struct reply_field j \<lparr>RP_Result = RawEmpty, RP_Error = None\<rparr> = Inr rpc \<and> RP_Error rpc = None \<and>
    unmarshal_raw (\<lambda>j. dec_struct tool_reply_field j \<lparr>TP_Content = [], TP_Structured = RawEmpty, TP_IsError = False\<rparr>)
      (RP_Result rpc) = Inr tr \<and> \<not> TP_IsError tr"
  using assms
  by (auto simp: heyarr_Call_def Let_def split: heyarr_outcome.splits if_splits option.splits bind_splits sum.splits)

end
