(* ===== verification/Jdx_Ingest.thy ===== *)
theory Jdx_Ingest
  imports Jdx_Heyarr Jdx_History
begin

text \<open>
  The video ingestion of \<open>internal/ingest\<close>: \<open>Ingest\<close> and its helpers (\<open>ingest.go\<close>), the
  capabilities that fetch metadata (\<open>capability.go\<close>) and the remote transcriber (\<open>fabric.go\<close>),
  against the SQLite adapter. The program runs that fetch a video, the network and the texts of
  floating-point numbers are parameters. What an ingestion wrote before an error stays: its state
  is passed along explicitly, errors included.
\<close>

section \<open>Requests, metadata, results\<close>

record segment =
  SG_StartOffset :: real
  SG_EndOffset :: real
  SG_Text :: string
  SG_SubjectTMDB :: "string list"

record metadata =
  MD_VideoID :: string
  MD_Title :: string
  MD_URL :: string
  MD_Description :: string
  MD_UploadDate :: string
  MD_ChannelID :: string
  MD_ChannelName :: string
  MD_ChannelURL :: string
  MD_Transcript :: string
  MD_Segments :: "segment list"

record ingest_request =
  RQ_Ref :: string
  RQ_Owner :: principal_id
  RQ_Space :: space_id
  RQ_Visibility :: visibility
  RQ_SubjectTMDB :: "string list"

record ingest_result =
  RS_Video :: entity_id
  RS_Channel :: entity_id
  RS_AboutWorks :: "entity_id list"
  RS_Clips :: "entity_id list"
  RS_ClipAboutWorks :: "entity_id list"
  RS_Transcribed :: bool

abbreviation SchemeYouTubeVideo :: string where "SchemeYouTubeVideo \<equiv> ''youtube''"
abbreviation SchemeYouTubeChannel :: string where "SchemeYouTubeChannel \<equiv> ''youtube-channel''"
abbreviation SchemeYouTubeClip :: string where "SchemeYouTubeClip \<equiv> ''youtube-clip''"
abbreviation ingestWriter :: writer_id where "ingestWriter \<equiv> ''ingest''"

definition ErrCapabilityUnavailable :: gerr where
  "ErrCapabilityUnavailable = ErrMsg ''ingest: video capability unavailable''"

text \<open>
  The fields of an \<open>Ingestor\<close>: what the capability answers for a reference, and the optional
  reconciler: one \<open>get_external_ids\<close> reverse lookup of a tmdb id on a client of state \<open>'c\<close>. The two
  last ones are \<open>strconv.FormatFloat(x, 'f', -1, 64)\<close> and the number \<open>encoding/json\<close> writes.
\<close>

record 'c ingestor =
  IG_Fetch :: "string \<Rightarrow> metadata res"
  IG_Reconcil :: "('c \<Rightarrow> string \<Rightarrow> 'c \<times> (heyarr_error + heyarr_external_id list)) option"
  IG_FormatFloat :: "real \<Rightarrow> string"
  IG_JSONFloat :: "real \<Rightarrow> string"

text \<open>The state of a run: the database, the client, and how many writes were made, which selects the
  clock readings and fresh ids of the next one.\<close>

record 'c run_state =
  ST_db :: db
  ST_client :: 'c
  ST_calls :: nat

type_synonym ('c, 'a) action = "'c run_state \<Rightarrow> 'c run_state \<times> 'a res"

definition aret :: "'a \<Rightarrow> ('c, 'a) action" where
  "aret x s = (s, Inr x)"

definition abind :: "('c, 'a) action \<Rightarrow> ('a \<Rightarrow> ('c, 'b) action) \<Rightarrow> ('c, 'b) action" where
  "abind m f s = (case m s of (s', Inl e) \<Rightarrow> (s', Inl e) | (s', Inr x) \<Rightarrow> f x s')"

section \<open>The helpers\<close>

definition visOrDefault :: "ingest_request \<Rightarrow> visibility" where
  "visOrDefault q = (if RQ_Visibility q = VisOther [] then VisPrivate else RQ_Visibility q)"

definition ownerFilter :: "ingest_request \<Rightarrow> acl_filter" where
  "ownerFilter q = \<lparr>F_Principal = RQ_Owner q, F_Spaces = (if RQ_Space q \<noteq> [] then [RQ_Space q] else []),
     F_Restricted = False, F_DenyTypes = [], F_AllowPublic = True\<rparr>"

definition putIf :: "(string \<times> json) list \<Rightarrow> string \<Rightarrow> string \<Rightarrow> (string \<times> json) list" where
  "putIf m k v = (if v \<noteq> [] then obj_put k (JStr v) m else m)"

text \<open>\<open>json.Marshal\<close> of a map writes its members sorted by key.\<close>

definition marshal_map :: "(string \<times> json) list \<Rightarrow> rawmsg" where
  "marshal_map m = RawDoc (JObj (sort_key fst m))"

definition clipKey :: "'c ingestor \<Rightarrow> string \<Rightarrow> segment \<Rightarrow> string" where
  "clipKey ig vid seg = vid @ ''@'' @ IG_FormatFloat ig (SG_StartOffset seg) @ ''-'' @ IG_FormatFloat ig (SG_EndOffset seg)"

definition upsert_input ::
    "ingest_request \<Rightarrow> etype \<Rightarrow> (string \<times> json) list \<Rightarrow> external_id \<Rightarrow> string \<Rightarrow> append_entity_input" where
  "upsert_input q typ props ext asserter =
     \<lparr>AE_Candidate = entity0\<lparr>E_Type := typ, E_Props := marshal_map props, E_Owner := RQ_Owner q,
        E_Space := RQ_Space q, E_Visibility := visOrDefault q, E_ExternalIDs := [ext],
        E_Provenance := \<lparr>Asserter = asserter, Method = Asserted, Source = RQ_Ref q, Confidence = 0, AssertedAt = 0\<rparr>\<rparr>,
      AE_Writer = ingestWriter, AE_DedupeKey = [], AE_Actor = RQ_Owner q, AE_Policy = ResolveAuto\<rparr>"

text \<open>One write of the store, and what both kinds of write of an ingestion make of its outcome: a
  duplicate counts as success.\<close>

definition run_write :: "(env \<Rightarrow> 'i \<Rightarrow> db \<Rightarrow> db \<times> 'a res) \<Rightarrow> (nat \<Rightarrow> env) \<Rightarrow> 'i \<Rightarrow> ('c, 'a) action" where
  "run_write w envs i s =
     (let (db', r) = w (envs (ST_calls s)) i (ST_db s) in (s\<lparr>ST_db := db', ST_calls := ST_calls s + 1\<rparr>, r))"

definition accept_duplicate :: "gerr option \<Rightarrow> 'a \<Rightarrow> 'a res" where
  "accept_duplicate err x = (case err of
       Some e \<Rightarrow> if \<not> err_is e ErrDuplicateFact then Inl e else Inr x
     | None \<Rightarrow> Inr x)"

definition entity_write :: "env \<Rightarrow> append_entity_input \<Rightarrow> db \<Rightarrow> db \<times> entity_id res" where
  "entity_write env inp db =
     (let (db', r, err) = AppendEntityFact env inp db in (db', accept_duplicate err (E_ID (RR_Entity r))))"

definition edge_write :: "env \<Rightarrow> append_edge_input \<Rightarrow> db \<Rightarrow> db \<times> unit res" where
  "edge_write env inp db =
     (let (db', _, err) = AppendEdgeFact env inp db in (db', accept_duplicate err ()))"

definition upsert ::
    "(nat \<Rightarrow> env) \<Rightarrow> ingest_request \<Rightarrow> etype \<Rightarrow> (string \<times> json) list \<Rightarrow> external_id \<Rightarrow> string \<Rightarrow> ('c, entity_id) action" where
  "upsert envs q typ props ext asserter = run_write entity_write envs (upsert_input q typ props ext asserter)"

definition attachTMDB :: "(nat \<Rightarrow> env) \<Rightarrow> ingest_request \<Rightarrow> entity_id \<Rightarrow> string \<Rightarrow> ('c, unit) action" where
  "attachTMDB envs q i tmdb s =
     (case GetEntity (ownerFilter q) i (ST_db s) of
        Inl e \<Rightarrow> (s, Inl e)
      | Inr ent \<Rightarrow>
          abind (run_write entity_write envs
            \<lparr>AE_Candidate = ent\<lparr>E_ExternalIDs := E_ExternalIDs ent @ [\<lparr>Scheme = ''tmdb'', Value = tmdb\<rparr>]\<rparr>,
             AE_Writer = ingestWriter, AE_DedupeKey = [], AE_Actor = RQ_Owner q, AE_Policy = ResolveAuto\<rparr>)
            (\<lambda>_. aret ()) s)"

definition link_input :: "ingest_request \<Rightarrow> predicate \<Rightarrow> entity_id \<Rightarrow> entity_id \<Rightarrow> string \<Rightarrow> append_edge_input" where
  "link_input q pred src dst dedupe =
     \<lparr>AD_Edge = edge0\<lparr>D_Predicate := pred, D_From := src, D_To := dst, D_Owner := RQ_Owner q,
        D_Space := RQ_Space q, D_Visibility := visOrDefault q,
        D_Provenance := \<lparr>Asserter = ''ingest'', Method = Asserted, Source = RQ_Ref q, Confidence = 0, AssertedAt = 0\<rparr>\<rparr>,
      AD_Writer = ingestWriter, AD_DedupeKey = dedupe, AD_Actor = RQ_Owner q\<rparr>"

definition link :: "(nat \<Rightarrow> env) \<Rightarrow> ingest_request \<Rightarrow> predicate \<Rightarrow> entity_id \<Rightarrow> entity_id \<Rightarrow> string \<Rightarrow> ('c, unit) action" where
  "link envs q pred src dst dedupe = run_write edge_write envs (link_input q pred src dst dedupe)"

definition link_key :: "predicate \<Rightarrow> entity_id \<Rightarrow> entity_id \<Rightarrow> string" where
  "link_key pred src dst = ''ingest|'' @ pred @ ''|'' @ src @ ''|'' @ dst"

text \<open>The first mapping to a work; \<open>None\<close> for no match. A failed call is a miss for the caller.\<close>

definition first_work :: "heyarr_external_id list \<Rightarrow> string option" where
  "first_work xs = map_option HX_EntityID (find (\<lambda>x. HX_EntityType x = ''work'' \<and> HX_EntityID x \<noteq> []) xs)"

definition resolveHeyarrWork ::
    "('c \<Rightarrow> string \<Rightarrow> 'c \<times> (heyarr_error + heyarr_external_id list)) \<Rightarrow> string \<Rightarrow> 'c \<Rightarrow>
     'c \<times> (heyarr_error + string option)" where
  "resolveHeyarrWork reconcil tmdb c = (case reconcil c tmdb of
       (c', Inl e) \<Rightarrow> (c', Inl e)
     | (c', Inr xs) \<Rightarrow> (c', Inr (first_work xs)))"

definition aboutWork :: "'c ingestor \<Rightarrow> (nat \<Rightarrow> env) \<Rightarrow> ingest_request \<Rightarrow> string \<Rightarrow> ('c, entity_id option) action" where
  "aboutWork ig envs q tmdb s = (case IG_Reconcil ig of
       None \<Rightarrow> (s, Inr None)
     | Some reconcil \<Rightarrow>
         (let (c', found) = resolveHeyarrWork reconcil tmdb (ST_client s); s' = s\<lparr>ST_client := c'\<rparr> in
          case found of
            Inr (Some workID) \<Rightarrow>
              abind (upsert envs q ''CreativeWork'' [(''name'', JStr (''heyarr work '' @ workID))]
                       (WorkExternalID workID) ''ingest:heyarr'') (\<lambda>ref.
              abind (attachTMDB envs q ref tmdb) (\<lambda>_.
              aret (Some ref))) s'
          | _ \<Rightarrow> (s', Inr None)))"

definition clip_props :: "'c ingestor \<Rightarrow> segment \<Rightarrow> (string \<times> json) list" where
  "clip_props ig seg = putIf [(''startOffset'', JNum (IG_JSONFloat ig (SG_StartOffset seg))),
     (''endOffset'', JNum (IG_JSONFloat ig (SG_EndOffset seg)))] ''text'' (SG_Text seg)"

definition upsertClip :: "'c ingestor \<Rightarrow> (nat \<Rightarrow> env) \<Rightarrow> ingest_request \<Rightarrow> string \<Rightarrow> segment \<Rightarrow> ('c, entity_id) action" where
  "upsertClip ig envs q vid seg =
     upsert envs q ''Clip'' (clip_props ig seg) \<lparr>Scheme = SchemeYouTubeClip, Value = clipKey ig vid seg\<rparr> ''ingest:yt-dlp''"

section \<open>Ingest\<close>

text \<open>The two loops over subjects: about edges from a node, and the works they point at.\<close>

fun about_all :: "'c ingestor \<Rightarrow> (nat \<Rightarrow> env) \<Rightarrow> ingest_request \<Rightarrow> entity_id \<Rightarrow> string list \<Rightarrow> ('c, entity_id list) action" where
  "about_all ig envs q src [] = aret []"
| "about_all ig envs q src (t # ts) =
     abind (aboutWork ig envs q t) (\<lambda>found. case found of
         None \<Rightarrow> about_all ig envs q src ts
       | Some ref \<Rightarrow>
           abind (link envs q ''about'' src ref (link_key ''about'' src ref)) (\<lambda>_.
           abind (about_all ig envs q src ts) (\<lambda>refs.
           aret (ref # refs))))"

definition one_clip ::
    "'c ingestor \<Rightarrow> (nat \<Rightarrow> env) \<Rightarrow> ingest_request \<Rightarrow> string \<Rightarrow> entity_id \<Rightarrow> segment \<Rightarrow> ('c, entity_id \<times> entity_id list) action" where
  "one_clip ig envs q vid video seg =
     abind (upsertClip ig envs q vid seg) (\<lambda>clip.
     abind (link envs q ''isPartOf'' clip video (link_key ''isPartOf'' clip video)) (\<lambda>_.
     abind (about_all ig envs q clip (SG_SubjectTMDB seg)) (\<lambda>works.
     aret (clip, works))))"

fun clips_all ::
    "'c ingestor \<Rightarrow> (nat \<Rightarrow> env) \<Rightarrow> ingest_request \<Rightarrow> string \<Rightarrow> entity_id \<Rightarrow> segment list \<Rightarrow> ('c, (entity_id \<times> entity_id list) list) action" where
  "clips_all ig envs q vid video [] = aret []"
| "clips_all ig envs q vid video (seg # segs) =
     abind (one_clip ig envs q vid video seg) (\<lambda>c.
     abind (clips_all ig envs q vid video segs) (\<lambda>cs.
     aret (c # cs)))"

definition video_props :: "metadata \<Rightarrow> (string \<times> json) list" where
  "video_props md = putIf (putIf (putIf [(''name'', JStr (MD_Title md)), (''url'', JStr (MD_URL md))]
     ''description'' (MD_Description md)) ''uploadDate'' (MD_UploadDate md)) ''transcript'' (MD_Transcript md)"

definition channel_props :: "metadata \<Rightarrow> (string \<times> json) list" where
  "channel_props md = putIf [(''name'', JStr (MD_ChannelName md))] ''url'' (MD_ChannelURL md)"

definition ingest_channel :: "(nat \<Rightarrow> env) \<Rightarrow> ingest_request \<Rightarrow> metadata \<Rightarrow> entity_id \<Rightarrow> ('c, entity_id) action" where
  "ingest_channel envs q md video =
     (if MD_ChannelID md \<noteq> [] \<or> MD_ChannelName md \<noteq> [] then
        abind (upsert envs q ''Organization'' (channel_props md)
                 \<lparr>Scheme = SchemeYouTubeChannel, Value = MD_ChannelID md\<rparr> ''ingest:yt-dlp'') (\<lambda>channel.
        abind (link envs q ''author'' video channel (link_key ''author'' video channel)) (\<lambda>_.
        aret channel))
      else aret [])"

definition ingest_metadata :: "'c ingestor \<Rightarrow> (nat \<Rightarrow> env) \<Rightarrow> ingest_request \<Rightarrow> metadata \<Rightarrow> ('c, ingest_result) action" where
  "ingest_metadata ig envs q md =
     abind (upsert envs q ''VideoObject'' (video_props md)
              \<lparr>Scheme = SchemeYouTubeVideo, Value = MD_VideoID md\<rparr> ''ingest:yt-dlp'') (\<lambda>video.
     abind (ingest_channel envs q md video) (\<lambda>channel.
     abind (about_all ig envs q video (RQ_SubjectTMDB q)) (\<lambda>works.
     abind (clips_all ig envs q (MD_VideoID md) video (MD_Segments md)) (\<lambda>clips.
     aret \<lparr>RS_Video = video, RS_Channel = channel, RS_AboutWorks = works, RS_Clips = map fst clips,
       RS_ClipAboutWorks = concat (map snd clips), RS_Transcribed = (MD_Transcript md \<noteq> [])\<rparr>))))"

definition Ingest :: "'c ingestor \<Rightarrow> (nat \<Rightarrow> env) \<Rightarrow> ingest_request \<Rightarrow> ('c, ingest_result) action" where
  "Ingest ig envs q s =
     (if RQ_Ref q = [] then (s, Inl ErrInvalidInput)
      else if \<not> Visibility_Valid (visOrDefault q) then (s, Inl ErrInvalidInput)
      else (case IG_Fetch ig (RQ_Ref q) of
              Inl e \<Rightarrow> (s, Inl e)
            | Inr md \<Rightarrow>
                if MD_VideoID md = [] then (s, Inl ErrInvalidInput)
                else ingest_metadata ig envs q md s))"

text \<open>The reconciler the command line wires in: the heyarr client.\<close>

definition heyarr_reconcil ::
    "(string \<Rightarrow> json option) \<Rightarrow> (heyarr_request \<Rightarrow> heyarr_outcome) \<Rightarrow> (int \<Rightarrow> string) \<Rightarrow> heyarr_client \<Rightarrow> string \<Rightarrow>
     heyarr_client \<times> (heyarr_error + heyarr_external_id list)" where
  "heyarr_reconcil parse net newReqID c tmdb =
     heyarr_Call parse net (newReqID (HC_seq c)) ''get_external_ids''
       (JObj [(''source'', JStr ''tmdb''), (''value'', JStr tmdb)]) [] external_ids_result c"

end
