(* ===== verification/Jdx_Reingest.thy ===== *)
theory Jdx_Reingest
  imports Jdx_Ingest
begin

text \<open>
  Ingesting the same video again. An action \<open>settles\<close> when, once it has succeeded, it gives the
  same answer and writes nothing on every later database that lost nothing of the first: the
  contract that the source's dedupe keys are for. Actions composed of settling ones settle; that
  the two writes of the store settle is proved of the SQLite adapter.
\<close>

section \<open>Settled actions\<close>

definition settles ::
    "(db \<Rightarrow> db \<Rightarrow> bool) \<Rightarrow> (db \<Rightarrow> bool) \<Rightarrow> ('c, 'a) action \<Rightarrow> ('c, 'a) action \<Rightarrow> bool" where
  "settles le ok a b \<longleftrightarrow> (\<forall>s s' x. ok (ST_db s) \<longrightarrow> a s = (s', Inr x) \<longrightarrow>
     ok (ST_db s') \<and> le (ST_db s) (ST_db s') \<and>
     (\<forall>t. ok (ST_db t) \<longrightarrow> le (ST_db s') (ST_db t) \<longrightarrow> (\<exists>t'. b t = (t', Inr x) \<and> ST_db t' = ST_db t)))"

lemma settlesI:
  assumes "\<And>s s' x. ok (ST_db s) \<Longrightarrow> a s = (s', Inr x) \<Longrightarrow> ok (ST_db s') \<and> le (ST_db s) (ST_db s')"
    and "\<And>s s' x t. ok (ST_db s) \<Longrightarrow> a s = (s', Inr x) \<Longrightarrow> ok (ST_db t) \<Longrightarrow> le (ST_db s') (ST_db t) \<Longrightarrow>
       \<exists>t'. b t = (t', Inr x) \<and> ST_db t' = ST_db t"
  shows "settles le ok a b"
  using assms unfolding settles_def by blast

lemma settlesD:
  assumes "settles le ok a b" and "ok (ST_db s)" and "a s = (s', Inr x)"
  shows "ok (ST_db s')" and "le (ST_db s) (ST_db s')"
    and "ok (ST_db t) \<Longrightarrow> le (ST_db s') (ST_db t) \<Longrightarrow> \<exists>t'. b t = (t', Inr x) \<and> ST_db t' = ST_db t"
  using assms unfolding settles_def by blast+

lemma abind_Inr:
  assumes "abind m f s = (s', Inr y)"
  obtains s1 x where "m s = (s1, Inr x)" and "f x s1 = (s', Inr y)"
  using assms by (auto simp: abind_def split: prod.splits sum.splits)

locale replay =
  fixes le :: "db \<Rightarrow> db \<Rightarrow> bool" and ok :: "db \<Rightarrow> bool"
  assumes le_refl: "le d d" and le_trans: "le a b \<Longrightarrow> le b c \<Longrightarrow> le a c"
begin

lemma settles_ret: "settles le ok (aret x) (aret x)"
  by (rule settlesI) (auto simp: aret_def le_refl)

lemma settles_bind:
  fixes a a' :: "('c, 'x) action"
  assumes a: "settles le ok a a'" and f: "\<And>x. settles le ok (f x) (f' x)"
  shows "settles le ok (abind a f) (abind a' f')"
proof (rule settlesI)
  fix s s' y assume s: "ok (ST_db s)" and r: "abind a f s = (s', Inr y)"
  from r obtain s1 x where 1: "a s = (s1, Inr x)" and 2: "f x s1 = (s', Inr y)" by (rule abind_Inr)
  note d1 = settlesD [OF a s 1]
  note d2 = settlesD [OF f d1(1) 2]
  show "ok (ST_db s') \<and> le (ST_db s) (ST_db s')" using d1(2) d2(1,2) le_trans by blast
  fix t :: "'c run_state" assume t: "ok (ST_db t)" "le (ST_db s') (ST_db t)"
  have "le (ST_db s1) (ST_db t)" using d2(2) t(2) by (rule le_trans)
  with d1(3) t(1) obtain t1 where t1: "a' t = (t1, Inr x)" "ST_db t1 = ST_db t" by blast
  with d2(3) [of t1] t obtain t2 where "f' x t1 = (t2, Inr y)" "ST_db t2 = ST_db t1" by auto
  with t1 show "\<exists>t'. abind a' f' t = (t', Inr y) \<and> ST_db t' = ST_db t" by (simp add: abind_def)
qed

end

text \<open>What a write keyed by its content promises: \<open>same\<close> relates two inputs with one dedupe key.\<close>

locale write_once = replay +
  fixes put :: "env \<Rightarrow> 'i \<Rightarrow> db \<Rightarrow> db \<times> 'a res" and same :: "'i \<Rightarrow> 'i \<Rightarrow> bool" and env_ok :: "env \<Rightarrow> bool"
  assumes put_keeps: "ok d \<Longrightarrow> env_ok e \<Longrightarrow> same i i' \<Longrightarrow> put e i d = (d', Inr r) \<Longrightarrow> ok d' \<and> le d d'"
    and put_again: "ok d \<Longrightarrow> env_ok e \<Longrightarrow> env_ok e' \<Longrightarrow> same i i' \<Longrightarrow> put e i d = (d', Inr r) \<Longrightarrow>
      ok d'' \<Longrightarrow> le d' d'' \<Longrightarrow> put e' i' d'' = (d'', Inr r)"
begin

lemma settles_write:
  assumes "same i i'" and "\<And>n. env_ok (envs n)" and "\<And>n. env_ok (envs' n)"
  shows "settles le ok (run_write put envs i :: ('c, 'a) action) (run_write put envs' i')"
proof (rule settlesI)
  fix s s' :: "'c run_state" and x assume s: "ok (ST_db s)" and r: "run_write put envs i s = (s', Inr x)"
  from r have w: "put (envs (ST_calls s)) i (ST_db s) = (ST_db s', Inr x)"
    by (auto simp: run_write_def split: prod.splits)
  show "ok (ST_db s') \<and> le (ST_db s) (ST_db s')"
    using put_keeps [OF s assms(2,1) w] .
  fix t :: "'c run_state" assume "ok (ST_db t)" "le (ST_db s') (ST_db t)"
  from put_again [OF s assms(2) assms(3) assms(1) w this]
  show "\<exists>t'. run_write put envs' i' t = (t', Inr x) \<and> ST_db t' = ST_db t" by (simp add: run_write_def)
qed

end

section \<open>The adapter's writes settle\<close>

definition kept :: "db \<Rightarrow> db \<Rightarrow> bool" where
  "kept db db' \<longleftrightarrow> grows db db' \<and> ids db \<subseteq> ids db' \<and> dr_id ` set (edges db) \<subseteq> dr_id ` set (edges db')"

lemma kept_refl [simp]: "kept d d"
  by (simp add: kept_def grows_def)

lemma kept_trans: "kept a b \<Longrightarrow> kept b c \<Longrightarrow> kept a c"
  unfolding kept_def by (meson grows_trans order_trans)

text \<open>Derived entity keys are hexadecimal digests; every other key an ingestion logs has a bar in it, so
  the two kinds of key never meet.\<close>

definition barred :: "db \<Rightarrow> bool" where
  "barred db \<longleftrightarrow> (\<forall>f \<in> set (facts db). f_writer f = ingestWriter \<longrightarrow> f_kind f \<noteq> FactEntityAsserted \<longrightarrow>
     CHR ''|'' \<in> set (f_dedupe f))"

definition log_sound :: "db \<Rightarrow> bool" where
  "log_sound db \<longleftrightarrow> wf_db db \<and> barred db"

interpretation db_replay: replay kept log_sound
  by unfold_locales (simp, rule kept_trans)

lemma barred_same: "facts db' = facts db \<Longrightarrow> barred db' = barred db"
  by (simp add: barred_def)

lemma barred_insertFact:
  assumes "insertFact nid kind sub w dk pl ac ts db = Inr db'" and "kind = FactEntityAsserted \<or> CHR ''|'' \<in> set dk"
    and "barred db"
  shows "barred db'"
  using assms(1) by (rule insertFactE) (use assms(2,3) in \<open>auto simp: barred_def\<close>)

lemma barred_appendEntityFact: "appendEntityFact nid e w dk ac ts db = Inr db' \<Longrightarrow> barred db \<Longrightarrow> barred db'"
  by (erule appendEntityFactE) (erule barred_insertFact, simp_all)

lemma find_append_Some: "find P xs = Some x \<Longrightarrow> find P (xs @ ys) = Some x"
  by (induction xs) auto

lemma prior_subject_grows:
  "prior_subject kind w dk db = Some e \<Longrightarrow> grows db db' \<Longrightarrow> prior_subject kind w dk db' = Some e"
  by (auto simp: prior_subject_def grows_def find_append_Some)

lemma prior_subjectE:
  assumes "prior_subject kind w dk db = Some s"
  obtains f where "f \<in> set (facts db)" and "f_writer f = w" and "f_dedupe f = dk" and "f_kind f = kind" and "f_subject f = s"
proof -
  from assms obtain f where "find (\<lambda>f. f_writer f = w \<and> f_dedupe f = dk \<and> f_kind f = kind) (facts db) = Some f" "f_subject f = s"
    by (auto simp: prior_subject_def)
  then show thesis using that [of f] by (auto simp: find_Some_iff)
qed

lemma one_key_one_hit:
  assumes "wf_db db"
  shows "length (externalHitsTx sp [k] db) \<le> 1"
proof -
  have wt: "wf_tables db" using assms by (simp add: wf_db_def)
  have d: "distinct (map (\<lambda>x. (xr_space x, xr_key x)) (entity_external_ids db))"
    using wt by (simp add: wf_tables_def ext_ok_def)
  have "a = b" if ab: "a \<in> set (externalHitsTx sp [k] db)" "b \<in> set (externalHitsTx sp [k] db)" for a b
  proof -
    from ab(1) obtain x where x: "x \<in> set (entity_external_ids db)" "xr_entity x = a" "(xr_space x, xr_key x) = (sp, k)"
      unfolding externalHitsTx_iff by auto
    from ab(2) obtain y where y: "y \<in> set (entity_external_ids db)" "xr_entity y = b" "(xr_space y, xr_key y) = (sp, k)"
      unfolding externalHitsTx_iff by auto
    from distinct_map_inj_on [OF d x(1) y(1)] x(2,3) y(2,3) show ?thesis by simp
  qed
  then have "card (set (externalHitsTx sp [k] db)) \<le> Suc 0" by (simp add: card_le_Suc0_iff_eq)
  with distinct_card [OF externalHitsTx_distinct [OF wt]] show ?thesis by simp
qed

lemma upsertEntitySnapshot_edges: "upsertEntitySnapshot e ts db = Inr db' \<Longrightarrow> edges db' = edges db \<and> facts db' = facts db"
  by (erule upsertEntitySnapshotE) (use upsert_row_frame insert_exts_frame insert_embs_frame in fastforce)

lemma insert_edge_ids:
  "insert_edge_or_replace d db = Inr db' \<Longrightarrow>
     dr_id ` set (edges db') = insert (dr_id d) (dr_id ` set (edges db)) \<and> facts db' = facts db \<and> ids db' = ids db"
  by (auto simp: insert_edge_or_replace_def ids_def split: if_splits)

lemma upsertEdgeSnapshot_ids:
  assumes "upsertEdgeSnapshot d ts db = Inr db'"
  shows "dr_id ` set (edges db') = insert (D_ID d) (dr_id ` set (edges db)) \<and> facts db' = facts db \<and> ids db' = ids db"
proof -
  from assms obtain j where "insert_edge_or_replace (edge_to_row d j (normalizeProvenance (D_Provenance d) ts) (fmtTS ts)) db = Inr db'"
    by (auto simp: upsertEdgeSnapshot_def Let_def elim!: rbindE split: if_splits)
  from insert_edge_ids [OF this] show ?thesis by (simp add: edge_to_row_def)
qed

lemma appendEntityFact_edges: "appendEntityFact nid e w dk ac ts db = Inr db' \<Longrightarrow> edges db' = edges db"
  by (erule appendEntityFactE) (auto dest: insertFact_frame)

lemma insert_new_edges:
  assumes "insert_new env k dk ts inp cand d db = Inr (db', e)"
  shows "dr_id ` set (edges db) \<subseteq> dr_id ` set (edges db') \<and> (barred db \<longrightarrow> barred db')"
  using assms
proof (cases rule: insert_newE)
  case (plain db1)
  with upsertEntitySnapshot_edges [OF plain(2)] appendEntityFact_edges [OF plain(3)]
    barred_appendEntityFact [OF plain(3)] barred_same [of db1 db] show ?thesis by simp
next
  case (flagged db1 db2 db3 ed pl)
  have "barred db3 = barred db2" using upsertEdgeSnapshot_ids [OF flagged(7)] by (simp add: barred_def)
  with upsertEntitySnapshot_edges [OF flagged(2)] appendEntityFact_edges [OF flagged(3)] upsertEdgeSnapshot_ids [OF flagged(7)]
    insertFact_frame [OF flagged(9)] barred_appendEntityFact [OF flagged(3)] barred_same [of db1 db]
    barred_insertFact [OF flagged(9)] show ?thesis by auto
qed

lemma attach_to_edges:
  assumes "attach_to env k dk ts inp cand t db = Inr (db', e)"
  shows "dr_id ` set (edges db) \<subseteq> dr_id ` set (edges db') \<and> (barred db \<longrightarrow> barred db')"
  using assms
proof (rule attach_toE)
  fix db1 assume u: "upsertEntitySnapshot (cand\<lparr>E_ID := t\<rparr>) ts db = Inr db1"
    and a: "appendEntityFact (env_newID env k) (cand\<lparr>E_ID := t\<rparr>) (AE_Writer inp) dk (AE_Actor inp) ts db1 = Inr db'"
  from upsertEntitySnapshot_edges [OF u] appendEntityFact_edges [OF a] barred_appendEntityFact [OF a] barred_same [of db1 db]
  show ?thesis by simp
qed

text \<open>An assertion with a single external id never merges, so it keeps every entity and edge.\<close>

lemma single_key_kept:
  assumes "wf_db db" and "AppendEntityFact env inp db = (db', r, None)"
    and "E_ExternalIDs (AE_Candidate inp) = [x]" and "effective_policy (AE_Policy inp) \<noteq> ResolveForceNew"
  shows "kept db db' \<and> (barred db \<longrightarrow> barred db')"
proof (cases rule: AppendEntityFact_cases [of env inp db])
  case (unchanged r e)
  with assms(2) show ?thesis by simp
next
  case (appended db2 r2 cand)
  with assms(2) have eq: "db2 = db'" "r2 = r" by simp_all
  let ?hits = "externalHitsTx (E_Space cand) (ExternalKeys cand) db"
  have k: "ExternalKeys cand = [Key x]" using appended(2) assms(3) by (simp add: ExternalKeys_def)
  have l: "length ?hits \<le> 1" unfolding k by (rule one_key_one_hit [OF assms(1)])
  then have "tl ?hits = []" by (cases ?hits) auto
  with append_resolved_identity [OF assms(1) appended(3) assms(4) refl] have i: "ids db \<subseteq> ids db'"
    by (auto simp: eq split: if_splits)
  have g: "grows db db'"
    using grows_attributed [OF attributed_AppendEntityFact, of db env inp] assms(2) by simp
  from appended(3) have "dr_id ` set (edges db) \<subseteq> dr_id ` set (edges db') \<and> (barred db \<longrightarrow> barred db')"
  proof (rule append_resolvedE)
    fix d eid ent
    assume d: "Resolve cand \<lparr>ExternalIDHits = ?hits, VectorNeighbors = resolveNeighbors
        (effective_policy (AE_Policy inp)) ?hits cand db\<rparr> (effective_policy (AE_Policy inp)) (env_th env) = Inr d"
      and ap: "apply_decision env (snd (entity_dedupe_key env inp)) (fst (entity_dedupe_key env inp)) (env_now env 1) inp cand d db = Inr (db2, eid)"
    have "Action d \<noteq> ActionMerge"
      using Resolve_with_hits [OF d assms(4)] Resolve_without_hits [OF d] l externalHitsTx_distinct [of db]
        assms(1) by (cases ?hits) (auto simp: wf_db_def)
    with ap show ?thesis
      by (cases "Action d") (auto simp: apply_decision_def eq dest: insert_new_edges attach_to_edges)
  qed
  with i g show ?thesis by (simp add: kept_def)
qed

text \<open>Where a duplicate can come from in such an assertion: only from the log.\<close>

lemma rbind_Inl_iff: "rbind m f = Inl e \<longleftrightarrow> m = Inl e \<or> (\<exists>x. m = Inr x \<and> f x = Inl e)"
  by (cases m) simp_all

lemma rfold_no_error:
  "(\<And>x s. f x s \<noteq> Inl e) \<Longrightarrow> rfold f xs s \<noteq> Inl e"
  by (induction xs arbitrary: s) (auto simp: rbind_Inl_iff)

lemma upsertEntitySnapshot_error: "upsertEntitySnapshot e ts db \<noteq> Inl ErrDuplicateFact"
proof -
  have "upsert_row e ts db \<noteq> Inl ErrDuplicateFact"
    by (auto simp: upsert_row_def Let_def rbind_Inl_iff props_col_def insert_entity_def split: rawmsg.splits)
  moreover have "rfold (\<lambda>x. insert_ext_or_ignore (ext_to_row e x)) xs s \<noteq> Inl ErrDuplicateFact" for xs s
    by (rule rfold_no_error) (simp add: insert_ext_or_ignore_def)
  moreover have "rfold (\<lambda>m. insert_emb_or_replace (emb_to_row e m)) xs s \<noteq> Inl ErrDuplicateFact" for xs s
    by (rule rfold_no_error) (simp add: insert_emb_or_replace_def)
  ultimately show ?thesis by (auto simp: upsertEntitySnapshot_def rbind_Inl_iff)
qed

lemma appendEntityFact_duplicate:
  assumes "appendEntityFact nid e w dk ac ts db = Inl ErrDuplicateFact"
  shows "\<exists>f \<in> set (facts db). f_writer f = w \<and> f_dedupe f = dk"
  using assms
  by (auto simp: appendEntityFact_def rbind_Inl_iff insertFact_def list_ex_iff marshal_entity_def wire_props_def
      split: if_splits rawmsg.splits)

lemma append_resolved_duplicate:
  assumes dup: "append_resolved env k dk ts inp policy cand db = Inl ErrDuplicateFact"
    and wf: "wf_db db" and p: "policy = ResolveAuto" and one: "E_ExternalIDs cand = [x]" and none: "E_Embeddings cand = []"
  shows "\<exists>f \<in> set (facts db). f_writer f = AE_Writer inp \<and> f_dedupe f = dk"
proof -
  let ?hits = "externalHitsTx (E_Space cand) (ExternalKeys cand) db"
  have k: "ExternalKeys cand = [Key x]" using one by (simp add: ExternalKeys_def)
  have l: "length ?hits \<le> 1" unfolding k by (rule one_key_one_hit [OF wf])
  have n: "resolveNeighbors policy ?hits cand db = []" using none by (simp add: resolveNeighbors_def)
  obtain d where d: "Resolve cand \<lparr>ExternalIDHits = ?hits, VectorNeighbors = []\<rparr> policy (env_th env) = Inr d"
    using Resolve_valid_total [of policy cand] p by (auto simp: Policy_Valid_def)
  have act: "Action d = ActionInsertNew \<or> Action d = ActionAttach"
    using d l p by (cases ?hits) (auto simp: Resolve_def Let_def decision0_def dedupeIDs_def Policy_Valid_def split: if_splits)
  have "\<exists>t. attach_to env k dk ts inp cand t db = Inl ErrDuplicateFact \<or>
    insert_new env k dk ts inp cand d db = Inl ErrDuplicateFact"
    using dup act by (auto simp: append_resolved_def n d rbind_Inl_iff apply_decision_def getEntityByID_def split: option.splits)
  then obtain nid e db1 where "upsertEntitySnapshot e ts db = Inr db1"
    "appendEntityFact nid e (AE_Writer inp) dk (AE_Actor inp) ts db1 = Inl ErrDuplicateFact"
    using act by (auto simp: attach_to_def insert_new_def Let_def rbind_Inl_iff upsertEntitySnapshot_error split: if_splits)
  then show ?thesis using upsertEntitySnapshot_edges [of e ts db db1] appendEntityFact_duplicate by metis
qed

text \<open>Two assertions of an ingestion that derive the same dedupe key.\<close>

definition same_assertion :: "append_entity_input \<Rightarrow> append_entity_input \<Rightarrow> bool" where
  "same_assertion i i' \<longleftrightarrow> AE_Writer i' = AE_Writer i \<and> AE_DedupeKey i = [] \<and> AE_DedupeKey i' = [] \<and>
     AE_Policy i = ResolveAuto \<and> AE_Policy i' = ResolveAuto \<and>
     E_Type (AE_Candidate i') = E_Type (AE_Candidate i) \<and>
     length (E_ExternalIDs (AE_Candidate i)) = 1 \<and> E_Embeddings (AE_Candidate i) = [] \<and>
     E_ExternalIDs (AE_Candidate i') = E_ExternalIDs (AE_Candidate i) \<and>
     Visibility_Valid (E_Visibility (AE_Candidate i'))"

lemma same_assertion_key:
  assumes "same_assertion i i'" and "env_sha e' = env_sha e"
  shows "fst (entity_dedupe_key e' i') = fst (entity_dedupe_key e i)"
  using assms
  by (auto simp: same_assertion_def entity_dedupe_key_def Let_def RandomKeyNeeded_def DeriveDedupeKey_def
      dedupe_preimage_def sort_Nil_iff)

text \<open>After a successful entity write the log names its result, and it exists.\<close>

lemma entity_write_outcome:
  assumes "log_sound d" and "same_assertion i i'" and "entity_write e i d = (d', Inr r)"
    and "AE_Writer i = ingestWriter" and "\<forall>x. CHR ''|'' \<notin> set (env_sha e x)"
  shows "log_sound d' \<and> kept d d' \<and> KnownType (E_Type (AE_Candidate i)) \<and> r \<in> ids d' \<and>
    prior_subject FactEntityAsserted (AE_Writer i) (fst (entity_dedupe_key e i)) d' = Some r"
proof -
  have wf0: "wf_db d" using assms(1) by (simp add: log_sound_def)
  from assms(2) obtain y where y: "E_ExternalIDs (AE_Candidate i) = [y]"
    by (auto simp: same_assertion_def length_Suc_conv)
  obtain db' res err where a: "AppendEntityFact e i d = (db', res, err)" by (cases "AppendEntityFact e i d")
  with assms(3) have x: "db' = d'" "accept_duplicate err (E_ID (RR_Entity res)) = Inr r"
    by (simp_all add: entity_write_def)
  show ?thesis
  proof (cases err)
    case None
    with a x have a': "AppendEntityFact e i d = (d', res, None)" and r: "r = E_ID (RR_Entity res)"
      by (simp_all add: accept_duplicate_def)
    have wf: "wf_db d'" using wf_AppendEntityFact [OF wf0, of e i] a' by simp
    have "kept d d' \<and> (barred d \<longrightarrow> barred d')"
      by (rule single_key_kept [OF wf0 a' y]) (use assms(2) in \<open>simp add: same_assertion_def effective_policy_def\<close>)
    moreover have "KnownType (E_Type (AE_Candidate i))"
      using a' by (auto simp: AppendEntityFact_def Let_def split: if_splits)
    moreover from AppendEntityFact_records [OF a'] obtain f where f: "f \<in> set (facts d')" "f_writer f = AE_Writer i"
      "f_dedupe f = fst (entity_dedupe_key e i)" "f_kind f = FactEntityAsserted" "f_subject f = r"
      "getEntityByID d' r = Inr (RR_Entity res)" using r by auto
    then have "r \<in> ids d'" using get_entity_row_None [of d' r] by (auto simp: getEntityByID_def split: option.splits)
    moreover note prior_subject_unique [OF wf f(1-4)] f(5)
    ultimately show ?thesis using wf assms(1) by (simp add: log_sound_def)
  next
    case (Some er)
    with x have "err_is er ErrDuplicateFact" and r: "r = E_ID (RR_Entity res)"
      by (auto simp: accept_duplicate_def split: if_splits)
    then have dup: "er = ErrDuplicateFact" by (simp add: err_is_def)
    have key: "CHR ''|'' \<notin> set (fst (entity_dedupe_key e i))"
      using assms(2,5) y by (simp add: same_assertion_def entity_dedupe_key_def RandomKeyNeeded_def DeriveDedupeKey_def Let_def)
    let ?dk = "fst (entity_dedupe_key e i)"
    have valid: "KnownType (E_Type (AE_Candidate i))" "Visibility_Valid (E_Visibility (AE_Candidate i))"
      using a Some dup by (auto simp: AppendEntityFact_def Let_def split: if_splits)
    show ?thesis
    proof (cases "prior_subject FactEntityAsserted (AE_Writer i) ?dk d")
      case None
      have "\<exists>f \<in> set (facts d). f_writer f = AE_Writer i \<and> f_dedupe f = ?dk"
        using a Some dup None valid y assms(2) append_resolved_duplicate [OF _ wf0]
        by (auto simp: AppendEntityFact_def Let_def same_assertion_def effective_policy_def Policy_Valid_def split: sum.splits)
      then obtain f where f: "f \<in> set (facts d)" "f_writer f = ingestWriter" "f_dedupe f = ?dk" using assms(4) by auto
      with None assms(4) have "f_kind f \<noteq> FactEntityAsserted" by (auto simp: prior_subject_def find_None_iff)
      with f key assms(1) show ?thesis by (auto simp: log_sound_def barred_def)
    next
      case (Some s)
      with a \<open>err = Some er\<close> dup valid x assms(2) obtain ent where g: "getEntityByID d s = Inr ent" "r = E_ID ent" "d' = d"
        by (cases "getEntityByID d s")
           (auto simp: AppendEntityFact_def Let_def same_assertion_def effective_policy_def Policy_Valid_def accept_duplicate_def err_is_def getEntityByID_def split: option.splits)
      from g(1) obtain row where "row \<in> set (entities d)" "er_id row = s" "ent = load_row d row" by (rule getEntityByID_Inr)
      with g Some valid assms(1) show ?thesis by (auto simp: ids_def)
    qed
  qed
qed

definition hex_env :: "(string \<Rightarrow> string) \<Rightarrow> env \<Rightarrow> bool" where
  "hex_env sha e \<longleftrightarrow> env_sha e = sha \<and> (\<forall>x. CHR ''|'' \<notin> set (sha x))"

definition same_ingest_entity :: "append_entity_input \<Rightarrow> append_entity_input \<Rightarrow> bool" where
  "same_ingest_entity i i' \<longleftrightarrow> same_assertion i i' \<and> AE_Writer i = ingestWriter"

lemma entity_write_again:
  assumes "same_ingest_entity i i'" and "hex_env sha e" and "hex_env sha e'" and "log_sound d''" and "kept d' d''"
    and k: "KnownType (E_Type (AE_Candidate i))" and r: "r \<in> ids d'"
    and p: "prior_subject FactEntityAsserted (AE_Writer i) (fst (entity_dedupe_key e i)) d' = Some r"
  shows "entity_write e' i' d'' = (d'', Inr r)"
proof -
  have s: "same_assertion i i'" and w: "AE_Writer i' = AE_Writer i" "KnownType (E_Type (AE_Candidate i'))"
    "Visibility_Valid (E_Visibility (AE_Candidate i'))" "AE_Policy i' = ResolveAuto"
    using assms(1) k by (simp_all add: same_ingest_entity_def same_assertion_def)
  have key: "fst (entity_dedupe_key e' i') = fst (entity_dedupe_key e i)"
    by (rule same_assertion_key [OF s]) (use assms(2,3) in \<open>simp add: hex_env_def\<close>)
  from prior_subject_grows [OF p] assms(5)
  have p': "prior_subject FactEntityAsserted (AE_Writer i') (fst (entity_dedupe_key e' i')) d'' = Some r"
    by (simp add: key w kept_def)
  from r assms(5) have "r \<in> ids d''" by (auto simp: kept_def)
  then obtain row where "er_id row = r" "getEntityByID d'' r = Inr (load_row d'' row)" by (rule getEntityByID_total)
  with w p' show ?thesis
    by (simp add: entity_write_def AppendEntityFact_def Let_def effective_policy_def Policy_Valid_def
        accept_duplicate_def err_is_def)
qed

interpretation entity_once: write_once kept log_sound entity_write same_ingest_entity "hex_env sha" for sha
proof unfold_locales
  fix d d' d'' :: db and e e' i i' r
  assume o: "log_sound d" "hex_env sha e" "same_ingest_entity i i'" "entity_write e i d = (d', Inr r)"
  have out: "log_sound d' \<and> kept d d' \<and> KnownType (E_Type (AE_Candidate i)) \<and> r \<in> ids d' \<and>
    prior_subject FactEntityAsserted (AE_Writer i) (fst (entity_dedupe_key e i)) d' = Some r"
    by (rule entity_write_outcome [OF o(1) _ o(4), of i'])
       (use o(2,3) in \<open>simp_all add: same_ingest_entity_def hex_env_def\<close>)
  then show "log_sound d' \<and> kept d d'" by simp
  assume "hex_env sha e'" "log_sound d''" "kept d' d''"
  with entity_write_again [OF o(3,2)] out show "entity_write e' i' d'' = (d'', Inr r)" by blast
qed

section \<open>Links settle too\<close>

definition same_link :: "append_edge_input \<Rightarrow> append_edge_input \<Rightarrow> bool" where
  "same_link i i' \<longleftrightarrow> AD_Writer i' = AD_Writer i \<and> edge_dedupe_key i' = edge_dedupe_key i \<and>
     CHR ''|'' \<in> set (edge_dedupe_key i) \<and> D_Predicate (AD_Edge i') = D_Predicate (AD_Edge i) \<and>
     D_From (AD_Edge i') = D_From (AD_Edge i) \<and> D_To (AD_Edge i') = D_To (AD_Edge i) \<and>
     D_Props (AD_Edge i') = RawEmpty \<and> Visibility_Valid (D_Visibility (AD_Edge i')) \<and>
     Method (D_Provenance (AD_Edge i')) = Asserted"

text \<open>What a successful link leaves: its edge, or a fact of another kind that holds its key while
  both ends exist.\<close>

definition linked :: "append_edge_input \<Rightarrow> db \<Rightarrow> bool" where
  "linked i db \<longleftrightarrow> (\<exists>f \<in> set (facts db). f_writer f = AD_Writer i \<and> f_dedupe f = edge_dedupe_key i \<and>
     (if f_kind f = FactEdgeAsserted then f_subject f \<in> dr_id ` set (edges db)
      else D_From (AD_Edge i) \<in> ids db \<and> D_To (AD_Edge i) \<in> ids db))"

lemma linked_kept:
  assumes "linked i db" and "kept db db'"
  shows "linked i db'"
proof -
  from assms(1) obtain f where f: "f \<in> set (facts db)" "f_writer f = AD_Writer i" "f_dedupe f = edge_dedupe_key i"
    "if f_kind f = FactEdgeAsserted then f_subject f \<in> dr_id ` set (edges db)
     else D_From (AD_Edge i) \<in> ids db \<and> D_To (AD_Edge i) \<in> ids db" unfolding linked_def by blast
  have "f \<in> set (facts db')" using f(1) assms(2) by (auto simp: kept_def grows_def)
  moreover have "if f_kind f = FactEdgeAsserted then f_subject f \<in> dr_id ` set (edges db')
     else D_From (AD_Edge i) \<in> ids db' \<and> D_To (AD_Edge i) \<in> ids db'"
    using f(4) assms(2) unfolding kept_def by (meson subsetD)
  ultimately show ?thesis using f(2,3) unfolding linked_def by blast
qed

lemma upsertEdgeSnapshot_ends:
  "upsertEdgeSnapshot d ts db = Inr db' \<Longrightarrow> D_From d \<in> ids db \<and> D_To d \<in> ids db"
  by (auto simp: upsertEdgeSnapshot_def insert_edge_or_replace_def edge_to_row_def has_entity_ids elim!: rbindE split: if_splits)

lemma upsertEdgeSnapshot_error: "upsertEdgeSnapshot d ts db \<noteq> Inl ErrDuplicateFact"
  by (auto simp: upsertEdgeSnapshot_def rbind_Inl_iff opt_props_col_def props_col_def insert_edge_or_replace_def
      split: rawmsg.splits if_splits)

lemma insertFact_duplicate:
  "insertFact nid kind sub w dk pl ac ts db = Inl ErrDuplicateFact \<Longrightarrow> \<exists>f \<in> set (facts db). f_writer f = w \<and> f_dedupe f = dk"
  by (auto simp: insertFact_def list_ex_iff split: if_splits)

lemma append_edge_tx_duplicate:
  assumes "append_edge_tx env dk ts inp ed db = Inl ErrDuplicateFact"
  shows "(\<exists>f \<in> set (facts db). f_writer f = AD_Writer inp \<and> f_dedupe f = dk) \<and> D_From ed \<in> ids db \<and> D_To ed \<in> ids db"
proof -
  let ?e = "ed\<lparr>D_ID := env_newID env 0\<rparr>"
  have m: "marshal_edge d \<noteq> Inl ErrDuplicateFact" for d
    by (simp add: marshal_edge_def wire_props_def rbind_Inl_iff split: rawmsg.splits)
  have g: "getEdgeByID d i \<noteq> Inl ErrDuplicateFact" for d i
    by (simp add: getEdgeByID_def split: option.splits)
  from assms obtain db1 pl where u: "upsertEdgeSnapshot ?e ts db = Inr db1"
    and i: "insertFact (env_newID env 1) FactEdgeAsserted (D_ID ?e) (AD_Writer inp) dk pl (AD_Actor inp) ts db1 = Inl ErrDuplicateFact"
    unfolding append_edge_tx_def Let_def rbind_Inl_iff using upsertEdgeSnapshot_error m g by blast
  show ?thesis
    using insertFact_duplicate [OF i] upsertEdgeSnapshot_ids [OF u] upsertEdgeSnapshot_ends [OF u] by simp
qed

lemma linked_by:
  "f \<in> set (facts db) \<Longrightarrow> f_writer f = AD_Writer i \<Longrightarrow> f_dedupe f = edge_dedupe_key i \<Longrightarrow>
   (if f_kind f = FactEdgeAsserted then f_subject f \<in> dr_id ` set (edges db)
    else D_From (AD_Edge i) \<in> ids db \<and> D_To (AD_Edge i) \<in> ids db) \<Longrightarrow> linked i db"
  unfolding linked_def by blast

lemma edge_appended:
  assumes a: "append_edge_tx e dk ts i ed db = Inr (db', out)" and s: "dk = edge_dedupe_key i"
    and b: "log_sound db" and bar: "CHR ''|'' \<in> set dk"
  shows "log_sound db' \<and> kept db db' \<and> linked i db'"
  using a
proof (rule append_edge_txE)
  fix db1 pl
  assume u: "upsertEdgeSnapshot (ed\<lparr>D_ID := env_newID e 0\<rparr>) ts db = Inr db1"
    and f: "insertFact (env_newID e 1) FactEdgeAsserted (env_newID e 0) (AD_Writer i) dk pl (AD_Actor i) ts db1 = Inr db'"
  have wf: "wf_db db'" by (rule wf_append_edge_tx [OF _ a]) (use b in \<open>simp add: log_sound_def\<close>)
  have bd: "barred db'" by (rule barred_insertFact [OF f]) (use bar b upsertEdgeSnapshot_ids [OF u] barred_same [of db1 db] in \<open>auto simp: log_sound_def\<close>)
  from f obtain g where g: "db' = db1\<lparr>facts := facts db1 @ [g]\<rparr>" "f_kind g = FactEdgeAsserted" "f_subject g = env_newID e 0"
    "f_writer g = AD_Writer i" "f_dedupe g = dk" by (rule insertFactE)
  have k: "kept db db'"
    using upsertEdgeSnapshot_ids [OF u] g(1) by (auto simp: kept_def grows_def ids_def)
  have "linked i db'"
    by (rule linked_by [of g]) (use g s upsertEdgeSnapshot_ids [OF u] in auto)
  with wf bd k show ?thesis by (simp add: log_sound_def)
qed

lemma edge_write_outcome:
  assumes "log_sound d" and "same_link i i'" and "edge_write e i d = (d', Inr r)"
  shows "log_sound d' \<and> kept d d' \<and> KnownPredicate (D_Predicate (AD_Edge i)) \<and> linked i d'"
proof -
  let ?dk = "edge_dedupe_key i"
  obtain db' out err where a: "AppendEdgeFact e i d = (db', out, err)" by (cases "AppendEdgeFact e i d")
  with assms(3) have x: "db' = d'" "err = None \<or> err = Some ErrDuplicateFact"
    by (auto simp: edge_write_def accept_duplicate_def err_is_def split: option.splits if_splits)
  have valid: "KnownPredicate (D_Predicate (AD_Edge i))" "Visibility_Valid (D_Visibility (AD_Edge i))"
    using a x by (auto simp: AppendEdgeFact_def Let_def split: if_splits)
  have bar: "CHR ''|'' \<in> set ?dk" using assms(2) by (simp add: same_link_def)
  show ?thesis
  proof (cases "prior_subject FactEdgeAsserted (AD_Writer i) ?dk d")
    case (Some s)
    with a x valid have g: "d' = d" "s \<in> dr_id ` set (edges d)"
      by (auto simp: AppendEdgeFact_def Let_def getEdgeByID_def split: option.splits dest: lookup_row_SomeD)
    from Some obtain f where f: "f \<in> set (facts d)" "f_writer f = AD_Writer i" "f_dedupe f = ?dk"
      "f_kind f = FactEdgeAsserted" "f_subject f = s" by (rule prior_subjectE)
    have "linked i d" by (rule linked_by [OF f(1-3)]) (use f g in simp)
    with g valid assms(1) show ?thesis by simp
  next
    case None
    let ?ed = "(AD_Edge i)\<lparr>D_Provenance := normalizeProvenance (D_Provenance (AD_Edge i)) (env_now e 0)\<rparr>"
    show ?thesis
    proof (cases "append_edge_tx e ?dk (env_now e 1) i ?ed d")
      case (Inl er)
      with None a x valid have g: "er = ErrDuplicateFact" "d' = d" by (auto simp: AppendEdgeFact_def Let_def)
      from append_edge_tx_duplicate [OF Inl [unfolded g(1)]] obtain f where f: "f \<in> set (facts d)"
        "f_writer f = AD_Writer i" "f_dedupe f = ?dk" "D_From (AD_Edge i) \<in> ids d" "D_To (AD_Edge i) \<in> ids d" by auto
      from None f have "f_kind f \<noteq> FactEdgeAsserted" by (auto simp: prior_subject_def find_None_iff)
      then have "linked i d" by (intro linked_by [OF f(1-3)]) (use f in simp)
      with g valid assms(1) show ?thesis by simp
    next
      case (Inr p)
      with None a x valid have "append_edge_tx e ?dk (env_now e 1) i ?ed d = Inr (d', snd p)"
        by (cases p) (auto simp: AppendEdgeFact_def Let_def)
      from edge_appended [OF this refl assms(1) bar] valid show ?thesis by simp
    qed
  qed
qed

lemma edge_write_again:
  assumes s: "same_link i i'" and w: "log_sound d" and l: "linked i d" and k: "KnownPredicate (D_Predicate (AD_Edge i))"
  shows "edge_write e i' d = (d, Inr ())"
proof -
  let ?dk = "edge_dedupe_key i'"
  have s': "AD_Writer i' = AD_Writer i" "?dk = edge_dedupe_key i" "KnownPredicate (D_Predicate (AD_Edge i'))"
    "Visibility_Valid (D_Visibility (AD_Edge i'))" "D_From (AD_Edge i') = D_From (AD_Edge i)"
    "D_To (AD_Edge i') = D_To (AD_Edge i)" "D_Props (AD_Edge i') = RawEmpty"
    "Method (D_Provenance (AD_Edge i')) = Asserted"
    using s k by (simp_all add: same_link_def)
  from l obtain f where f: "f \<in> set (facts d)" "f_writer f = AD_Writer i'" "f_dedupe f = ?dk"
    "if f_kind f = FactEdgeAsserted then f_subject f \<in> dr_id ` set (edges d)
     else D_From (AD_Edge i) \<in> ids d \<and> D_To (AD_Edge i) \<in> ids d" unfolding linked_def s'(1,2) by blast
  have wf: "wf_db d" using w by (simp add: log_sound_def)
  have "snd (snd (AppendEdgeFact e i' d)) = Some ErrDuplicateFact \<and> fst (AppendEdgeFact e i' d) = d"
  proof (cases "f_kind f = FactEdgeAsserted")
    case True
    from prior_subject_unique [OF wf f(1-3) True] True f(4)
    obtain row where "prior_subject FactEdgeAsserted (AD_Writer i') ?dk d = Some (f_subject f)"
      "lookup_row dr_id (f_subject f) (edges d) = Some row"
      using lookup_row_None_iff [of dr_id "f_subject f" "edges d"] by (cases "lookup_row dr_id (f_subject f) (edges d)") auto
    with s' show ?thesis by (simp add: AppendEdgeFact_def Let_def getEdgeByID_def)
  next
    case False
    have "prior_subject FactEdgeAsserted (AD_Writer i') ?dk d = None"
    proof (rule ccontr)
      assume "prior_subject FactEdgeAsserted (AD_Writer i') ?dk d \<noteq> None"
      then obtain s where "prior_subject FactEdgeAsserted (AD_Writer i') ?dk d = Some s" by auto
      then obtain g where g: "g \<in> set (facts d)" "f_writer g = AD_Writer i'" "f_dedupe g = ?dk" "f_kind g = FactEdgeAsserted"
        by (rule prior_subjectE)
      have "distinct (map (\<lambda>f. (f_writer f, f_dedupe f)) (facts d))"
        using wf by (simp add: wf_db_def wf_tables_def log_ok_def)
      from distinct_map_inj_on [OF this f(1) g(1)] f g False show False by simp
    qed
    moreover have "append_edge_tx e ?dk ts i' ed d = Inl ErrDuplicateFact"
      if "ed = (AD_Edge i')\<lparr>D_Provenance := normalizeProvenance (D_Provenance (AD_Edge i')) t\<rparr>" for ed ts t
    proof -
      have "\<exists>db1. upsertEdgeSnapshot (ed\<lparr>D_ID := env_newID e 0\<rparr>) ts d = Inr db1 \<and> facts db1 = facts d"
        using f(4) False s' by (auto simp: that upsertEdgeSnapshot_def opt_props_col_def raw_len0_def insert_edge_or_replace_def
            edge_to_row_def has_entity_ids prov_to_cols_def normalizeProvenance_def AssertMethod_Valid_def Let_def)
      then show ?thesis
        using f s' by (auto simp: append_edge_tx_def Let_def that marshal_edge_def wire_props_def insertFact_def FactKind_Valid_def list_ex_iff)
    qed
    ultimately show ?thesis using s' by (simp add: AppendEdgeFact_def Let_def)
  qed
  then show ?thesis by (cases "AppendEdgeFact e i' d") (simp add: edge_write_def accept_duplicate_def err_is_def)
qed

interpretation edge_once: write_once kept log_sound edge_write same_link "hex_env sha" for sha
proof unfold_locales
  fix d d' d'' :: db and e e' i i' and r :: unit
  assume o: "log_sound d" "same_link i i'" "edge_write e i d = (d', Inr r)"
  note out = edge_write_outcome [OF o]
  from out show "log_sound d' \<and> kept d d'" by simp
  assume "log_sound d''" "kept d' d''"
  with out linked_kept [of i d' d''] edge_write_again [OF o(2)] show "edge_write e' i' d'' = (d'', Inr r)" by simp
qed

section \<open>The steps of an ingestion settle\<close>

lemma abind_assoc [simp]: "abind (abind m f) g = abind m (\<lambda>x. abind (f x) g)"
  by (rule ext) (simp add: abind_def split: prod.split sum.split)

lemma abind_aret [simp]: "abind (aret x) f = f x"
  by (rule ext) (simp add: abind_def aret_def)

lemma upsert_settles:
  assumes "Visibility_Valid (visOrDefault q')" and "\<And>n. hex_env sha (envs n)" and "\<And>n. hex_env sha (envs' n)"
  shows "settles kept log_sound (upsert envs q ty props x a :: ('c, entity_id) action) (upsert envs' q' ty props' x a')"
  unfolding upsert_def
  by (rule entity_once.settles_write [OF _ assms(2,3)])
     (simp add: same_ingest_entity_def same_assertion_def upsert_input_def entity0_def assms(1))

lemma link_settles:
  assumes "Visibility_Valid (visOrDefault q')" and "\<And>n. hex_env sha (envs n)" and "\<And>n. hex_env sha (envs' n)"
  shows "settles kept log_sound (link envs q p a b (link_key p a b) :: ('c, unit) action) (link envs' q' p a b (link_key p a b))"
  unfolding link_def
  by (rule edge_once.settles_write [OF _ assms(2,3)])
     (simp add: same_link_def link_input_def edge0_def edge_dedupe_key_def link_key_def assms(1))

lemma about_none: "IG_Reconcil ig = None \<Longrightarrow> about_all ig envs q src ts = aret []"
proof (induction ts)
  case (Cons t ts)
  then show ?case by (simp add: fun_eq_iff abind_def aboutWork_def)
qed simp

lemma clips_settle:
  assumes v: "Visibility_Valid (visOrDefault q')" and e: "\<And>n. hex_env sha (envs n)" "\<And>n. hex_env sha (envs' n)"
    and none: "IG_Reconcil ig = None" "IG_Reconcil ig' = None"
    and k: "map (clipKey ig' vid) segs' = map (clipKey ig vid) segs"
  shows "settles kept log_sound (clips_all ig envs q vid video segs) (clips_all ig' envs' q' vid video segs')"
  using k
proof (induction segs arbitrary: segs')
  case Nil
  then show ?case by (simp add: db_replay.settles_ret)
next
  case (Cons g gs)
  then obtain h hs where h: "segs' = h # hs" "clipKey ig' vid h = clipKey ig vid g" "map (clipKey ig' vid) hs = map (clipKey ig vid) gs"
    by auto
  show ?case
    by (simp add: h(1) one_clip_def about_none [OF none(1)] about_none [OF none(2)] upsertClip_def h(2))
       (intro db_replay.settles_bind db_replay.settles_ret upsert_settles [OF v e] link_settles [OF v e] Cons.IH [OF h(3)])
qed

lemma metadata_settles:
  assumes v: "Visibility_Valid (visOrDefault q')" and e: "\<And>n. hex_env sha (envs n)" "\<And>n. hex_env sha (envs' n)"
    and none: "IG_Reconcil ig = None" "IG_Reconcil ig' = None"
    and same: "MD_VideoID md' = MD_VideoID md" "MD_ChannelID md' = MD_ChannelID md" "MD_ChannelName md' = [] \<longleftrightarrow> MD_ChannelName md = []"
      "map (clipKey ig' (MD_VideoID md)) (MD_Segments md') = map (clipKey ig (MD_VideoID md)) (MD_Segments md)"
  shows "settles kept log_sound (ingest_metadata ig envs q md)
    (abind (ingest_metadata ig' envs' q' md') (\<lambda>r. aret (r\<lparr>RS_Transcribed := (MD_Transcript md \<noteq> [])\<rparr>)))"
proof -
  have ch: "settles kept log_sound (ingest_channel envs q md video :: ('c, entity_id) action) (ingest_channel envs' q' md' video)" for video
    by (simp add: ingest_channel_def same db_replay.settles_ret)
       (intro impI db_replay.settles_bind db_replay.settles_ret upsert_settles [OF v e] link_settles [OF v e])
  show ?thesis
    by (simp add: ingest_metadata_def same about_none [OF none(1)] about_none [OF none(2)])
       (intro db_replay.settles_bind db_replay.settles_ret upsert_settles [OF v e] ch clips_settle [OF v e none same(4)])
qed

section \<open>Sample runs\<close>

text \<open>For evaluation: the square root in \<open>cosine\<close> does not compute, and no vector is compared here.\<close>

declare cosine_def [code del]

definition sample_envs :: "nat \<Rightarrow> env" where
  "sample_envs n = sample_write_env\<lparr>env_now := (\<lambda>k. 1000000000), env_newID := (\<lambda>k. CHR ''n'' # replicate n CHR ''.'' @ replicate k CHR ''+''),
     env_sha := filter (\<lambda>c. c \<noteq> CHR ''|'')\<rparr>"

definition sample_metadata :: metadata where
  "sample_metadata = \<lparr>MD_VideoID = ''v1'', MD_Title = ''Alien'', MD_URL = ''u'', MD_Description = [], MD_UploadDate = [],
     MD_ChannelID = ''ch'', MD_ChannelName = ''kroft'', MD_ChannelURL = [], MD_Transcript = [],
     MD_Segments = [\<lparr>SG_StartOffset = 1, SG_EndOffset = 2, SG_Text = ''hi'', SG_SubjectTMDB = []\<rparr>]\<rparr>"

definition sample_ingestor :: "metadata \<Rightarrow> unit ingestor" where
  "sample_ingestor md = \<lparr>IG_Fetch = (\<lambda>_. Inr md), IG_Reconcil = None, IG_FormatFloat = (\<lambda>x. if x = 1 then ''1'' else ''2''),
     IG_JSONFloat = (\<lambda>x. if x = 1 then ''1'' else ''2'')\<rparr>"

definition sample_request :: ingest_request where
  "sample_request = \<lparr>RQ_Ref = ''ref'', RQ_Owner = ''kate'', RQ_Space = ''home'', RQ_Visibility = VisPrivate, RQ_SubjectTMDB = []\<rparr>"

definition sample_state :: "unit run_state" where
  "sample_state = \<lparr>ST_db = sample_db, ST_client = (), ST_calls = 0\<rparr>"

abbreviation sample_run :: "unit run_state \<times> ingest_result res" where
  "sample_run \<equiv> Ingest (sample_ingestor sample_metadata) sample_envs sample_request sample_state"

text \<open>A year later: a transcript is there, and another owner ingests the video into another space.\<close>

definition late_metadata :: metadata where
  "late_metadata = sample_metadata\<lparr>MD_Title := ''Alien, again'', MD_Transcript := ''In space''\<rparr>"

definition late_request :: ingest_request where
  "late_request = sample_request\<lparr>RQ_Owner := ''zoe'', RQ_Space := ''lab''\<rparr>"

definition late_envs :: "nat \<Rightarrow> env" where
  "late_envs n = sample_envs (n + 20)"

text \<open>With a reconciler that finds the work \<open>w1\<close> for every id.\<close>

definition work_ingestor :: "unit ingestor" where
  "work_ingestor = (sample_ingestor (sample_metadata\<lparr>MD_Segments := []\<rparr>))\<lparr>IG_Reconcil := Some (\<lambda>c t. (c,
     Inr [\<lparr>HX_Source = ''tmdb'', HX_Value = t, HX_EntityType = ''work'', HX_EntityID = ''w1''\<rparr>]))\<rparr>"

definition about_request :: ingest_request where
  "about_request = sample_request\<lparr>RQ_SubjectTMDB := [''1'']\<rparr>"

abbreviation about_run :: "unit run_state \<Rightarrow> unit run_state \<times> ingest_result res" where
  "about_run \<equiv> Ingest work_ingestor sample_envs about_request"

lemma sample_log_sound: "log_sound (ST_db sample_state)"
  by (simp add: log_sound_def sample_state_def wf_sample barred_def) (simp add: sample_db_def)

lemma sample_hex: "\<forall>n. hex_env (filter (\<lambda>c. c \<noteq> CHR ''|'')) (sample_envs n)"
  "\<forall>n. hex_env (filter (\<lambda>c. c \<noteq> CHR ''|'')) (late_envs n)"
  by (simp_all add: hex_env_def sample_envs_def late_envs_def)

lemma sample_run_result:
  "snd sample_run = Inr \<lparr>RS_Video = ''n'', RS_Channel = ''n.'', RS_AboutWorks = [], RS_Clips = [''n...''],
     RS_ClipAboutWorks = [], RS_Transcribed = False\<rparr>"
  by code_simp


section \<open>Properties\<close>

lemma ingest_metadata_transcribed:
  "ingest_metadata ig envs q md s = (s', Inr r) \<Longrightarrow> RS_Transcribed r = (MD_Transcript md \<noteq> [])"
  by (auto simp: ingest_metadata_def aret_def elim!: abind_Inr)



text \<open>C0: With reconciliation a repeated ingestion is not silent: \<open>attachTMDB\<close> asserts the work with its stored ids and
  the tmdb id once more, so the second run derives a new dedupe key and appends a fact. From the third run on nothing
  changes.\<close>

theorem reingest_about_appends:
  "case about_run (sample_state\<lparr>ST_db := empty_db\<rparr>) of (s1, r1) \<Rightarrow> case about_run s1 of (s2, r2) \<Rightarrow> case about_run s2 of (s3, r3) \<Rightarrow>
   r1 = Inr \<lparr>RS_Video = ''n'', RS_Channel = ''n.'', RS_AboutWorks = [''n...''], RS_Clips = [], RS_ClipAboutWorks = [],
     RS_Transcribed = False\<rparr> \<and> r2 = r1 \<and> r3 = r1 \<and>
   length (facts (ST_db s1)) = 6 \<and> length (facts (ST_db s2)) = 7 \<and> length (facts (ST_db s3)) = 7"
  by code_simp

text \<open>A work the index already knows blocks an ingestion about it: the older entity with the tmdb id absorbs the
  new reference, the edge to the vanished reference is a foreign-key error, and every retry ends in not-found.\<close>

theorem known_work_blocks_ingestion:
  "ResolveByExternalID (\<lambda>rows. rows) (ownerFilter about_request) [''tmdb:1''] sample_db \<noteq> [] \<and>
   (case about_run sample_state of (s1, r1) \<Rightarrow> r1 = Inl ErrSQL \<and> snd (about_run s1) = Inl ErrNotFound)"
  by code_simp

end
