(* ===== verification/Jdx_Http.thy ===== *)
theory Jdx_Http
  imports Jdx_Mcp
begin

text \<open>
  The HTTP surface (\<open>internal/httpapi\<close>) and the authentication of MCP callers
  (\<open>internal/mcpauth\<close>). An authorizer reduces a request to an effective bearer; the Device
  credential library behind it is third-party and a parameter, with its membership log as a state
  it may change. Header names are canonical. Timeouts, logging, the recovery from panics and the
  listening socket are not modelled.
\<close>

section \<open>Requests and replies\<close>

text \<open>\<open>RQH_Body\<close> is \<open>None\<close> when reading the body fails.\<close>

record http_request =
  RQH_Method :: string
  RQH_Path :: string
  RQH_Header :: "string \<Rightarrow> string"
  RQH_Body :: "string option"

datatype reply_body = BodyEmpty | BodyText string | BodyRpc rpcResponse | BodyStream

record http_reply =
  HY_Status :: int
  HY_ContentType :: string
  HY_Session :: string
  HY_Body :: reply_body

type_synonym 'm authorizer = "http_request \<Rightarrow> 'm \<Rightarrow> 'm \<times> string"

definition BearerFunc :: "(http_request \<Rightarrow> string) \<Rightarrow> 'm authorizer" where
  "BearerFunc f r m = (m, f r)"

definition CutPrefix :: "string \<Rightarrow> string \<Rightarrow> string option" where
  "CutPrefix s p = (if HasPrefix s p then Some (drop (length p) s) else None)"

definition bearerFrom :: "string \<Rightarrow> string" where
  "bearerFrom h = (let h = TrimSpace h in
     (case CutPrefix h ''Bearer '' of Some after \<Rightarrow> TrimSpace after | None \<Rightarrow> h))"

section \<open>Device credentials\<close>

abbreviation VoidbindScheme :: string where "VoidbindScheme \<equiv> ''Device''"

definition deviceCredential :: "string \<Rightarrow> string option" where
  "deviceCredential header =
     (let prefix = VoidbindScheme @ '' '' in
      if length header \<le> length prefix \<or> \<not> EqualFold (take (length prefix) header) prefix then None
      else (let val = TrimSpace (drop (length prefix) header) in if val = [] then None else Some val))"

datatype trust_file = FileMissing | FileError | FileData string

text \<open>One line of the trust file: blank lines and comments are skipped, a bad key is an error.\<close>

definition pin_line :: "(string \<Rightarrow> 'key option) \<Rightarrow> string \<Rightarrow> (string \<rightharpoonup> 'key) \<Rightarrow> (string \<rightharpoonup> 'key) res" where
  "pin_line ParsePublicKey raw trust =
     (let line = TrimSpace raw in
      if line = [] \<or> HasPrefix line ''#'' then Inr trust
      else (case ParsePublicKey line of
          None \<Rightarrow> Inl (ErrMsg ''not a valid pinned key'')
        | Some pub \<Rightarrow> Inr (trust(line \<mapsto> pub))))"

definition PinnedUsersFromFile :: "(string \<Rightarrow> 'key option) \<Rightarrow> trust_file \<Rightarrow> (string \<rightharpoonup> 'key) res" where
  "PinnedUsersFromFile ParsePublicKey file = (case file of
       FileMissing \<Rightarrow> Inr Map.empty
     | FileError \<Rightarrow> Inl (ErrMsg ''read error'')
     | FileData text \<Rightarrow> rfold (pin_line ParsePublicKey) (Split CHR 0x0A text) Map.empty)"

text \<open>
  The library: the membership header, and \<open>VerifyWithPossession\<close> over a trust root, which returns
  the user id and may record presented operations in the log.
\<close>

record ('key, 'ops, 'm) voidbind =
  vb_trust :: "(string \<rightharpoonup> 'key) res"
  vb_ParseMembershipHeader :: "string \<Rightarrow> 'ops option"
  vb_VerifyWithPossession :: "(string \<rightharpoonup> 'key) \<Rightarrow> string \<Rightarrow> string \<Rightarrow> 'ops \<Rightarrow> 'm \<Rightarrow> 'm \<times> string option"
  vb_MembershipHeader :: string
  vb_CredentialSeparator :: char

definition Voidbind_EffectiveBearer :: "('key, 'ops, 'm) voidbind \<Rightarrow> 'm authorizer" where
  "Voidbind_EffectiveBearer v r m = (case deviceCredential (RQH_Header r ''Authorization'') of
       None \<Rightarrow> (m, [])
     | Some cred \<Rightarrow>
         (case vb_trust v of
            Inl e \<Rightarrow> (m, [])
          | Inr trust \<Rightarrow>
              (case Cut cred (vb_CredentialSeparator v) of
                 None \<Rightarrow> (m, [])
               | Some (credential, proof) \<Rightarrow>
                   if credential = [] \<or> proof = [] then (m, [])
                   else (case vb_ParseMembershipHeader v (RQH_Header r (vb_MembershipHeader v)) of
                       None \<Rightarrow> (m, [])
                     | Some presented \<Rightarrow>
                         (case vb_VerifyWithPossession v trust credential proof presented m of
                            (m', None) \<Rightarrow> (m', [])
                          | (m', Some user) \<Rightarrow> (m', user))))))"

section \<open>The server\<close>

record 'm http_server =
  hs_mcp :: mcp_server
  hs_auth :: "'m authorizer"
  hs_ready :: "gerr option option"

definition http_New :: "mcp_server \<Rightarrow> 'm http_server" where
  "http_New s = \<lparr>hs_mcp = s, hs_auth = BearerFunc (\<lambda>r. bearerFrom (RQH_Header r ''Authorization'')), hs_ready = None\<rparr>"

definition WithAuthorizer :: "'m authorizer option \<Rightarrow> 'm http_server \<Rightarrow> 'm http_server" where
  "WithAuthorizer a s = (case a of None \<Rightarrow> s | Some f \<Rightarrow> s\<lparr>hs_auth := f\<rparr>)"

definition maxBodyBytes :: int where
  "maxBodyBytes = 4 * 2 ^ 20"

definition writeText :: "int \<Rightarrow> string \<Rightarrow> http_reply" where
  "writeText status msg = \<lparr>HY_Status = status, HY_ContentType = ''text/plain; charset=utf-8'', HY_Session = [],
     HY_Body = BodyText msg\<rparr>"

definition handleReady :: "'m http_server \<Rightarrow> http_reply" where
  "handleReady s = (case hs_ready s of
       Some (Some e) \<Rightarrow> writeText 503 ''not ready''
     | _ \<Rightarrow> writeText 200 ''ready'')"

definition isInitialize :: "mcp_server \<Rightarrow> string \<Rightarrow> bool" where
  "isInitialize s body = (case unmarshal_text s (\<lambda>j. dec_struct
         (\<lambda>k v x. if k = ''method'' then dec_string v x else Inr x) j []) body of
       Inl e \<Rightarrow> False | Inr m \<Rightarrow> m = ''initialize'')"

definition id_char :: "char \<Rightarrow> bool" where
  "id_char c = (let n = (of_char c :: nat) in
     (97 \<le> n \<and> n \<le> 122) \<or> (65 \<le> n \<and> n \<le> 90) \<or> (48 \<le> n \<and> n \<le> 57) \<or>
     c = CHR ''.'' \<or> c = CHR ''_'' \<or> c = CHR '':'' \<or> c = CHR ''-'')"

definition inboundRequestID :: "http_request \<Rightarrow> string" where
  "inboundRequestID r = (let i = RQH_Header r ''X-Request-Id'' in
     if i = [] \<or> length i > 128 then [] else if \<not> list_all id_char i then [] else i)"

text \<open>\<open>uuid\<close> is the session id the call would draw. The request id travels in the context to the
  identity backend and does not affect the reply.\<close>

definition handleMCPPost ::
    "'m http_server \<Rightarrow> env \<Rightarrow> string \<Rightarrow> http_request \<Rightarrow> 'm \<Rightarrow> db \<Rightarrow> 'm \<times> db \<times> http_reply" where
  "handleMCPPost s env uuid r m db = (case RQH_Body r of
       None \<Rightarrow> (m, db, writeText 400 ''read error'')
     | Some raw \<Rightarrow>
         (let body = LimitReader raw maxBodyBytes;
              given = TrimSpace (RQH_Header r ''Mcp-Session-Id'');
              session = (if isInitialize (hs_mcp s) body then (if given = [] then uuid else given) else given);
              (m', bearer) = hs_auth s r m;
              (db', resp) = Handle (hs_mcp s) env bearer body db
          in (case resp of
                None \<Rightarrow> (m', db', \<lparr>HY_Status = 204, HY_ContentType = [], HY_Session = session, HY_Body = BodyEmpty\<rparr>)
              | Some x \<Rightarrow> (m', db', \<lparr>HY_Status = 200, HY_ContentType = ''application/json'', HY_Session = session,
                  HY_Body = BodyRpc x\<rparr>))))"

definition handleMCPStream :: "'m http_server \<Rightarrow> bool \<Rightarrow> http_request \<Rightarrow> 'm \<Rightarrow> 'm \<times> http_reply" where
  "handleMCPStream s flusher r m =
     (let (m', bearer) = hs_auth s r m in
      if bearer = [] then (m', writeText 401 ''unauthorized'')
      else if \<not> flusher then (m', writeText 500 ''streaming unsupported'')
      else (m', \<lparr>HY_Status = 200, HY_ContentType = ''text/event-stream'',
        HY_Session = TrimSpace (RQH_Header r ''Mcp-Session-Id''), HY_Body = BodyStream\<rparr>))"

definition handleMCPDelete :: "'m http_server \<Rightarrow> http_request \<Rightarrow> 'm \<Rightarrow> 'm \<times> http_reply" where
  "handleMCPDelete s r m =
     (let (m', bearer) = hs_auth s r m in
      if bearer = [] then (m', writeText 401 ''unauthorized'') else (m', writeText 200 ''ok''))"

text \<open>The mux: a path it does not know is 404, a method it does not know for the path 405; a GET
  pattern serves HEAD too.\<close>

definition Routes ::
    "'m http_server \<Rightarrow> env \<Rightarrow> string \<Rightarrow> bool \<Rightarrow> http_request \<Rightarrow> 'm \<Rightarrow> db \<Rightarrow> 'm \<times> db \<times> http_reply" where
  "Routes s env uuid flusher r m db =
     (let get = (RQH_Method r = ''GET'' \<or> RQH_Method r = ''HEAD'') in
      if RQH_Path r = ''/mcp'' then
        (if RQH_Method r = ''POST'' then handleMCPPost s env uuid r m db
         else if get then (let (m', y) = handleMCPStream s flusher r m in (m', db, y))
         else if RQH_Method r = ''DELETE'' then (let (m', y) = handleMCPDelete s r m in (m', db, y))
         else (m, db, writeText 405 ''Method Not Allowed''))
      else if RQH_Path r = ''/health/alive'' then
        (m, db, if get then writeText 200 ''ok'' else writeText 405 ''Method Not Allowed'')
      else if RQH_Path r = ''/health/ready'' then
        (m, db, if get then handleReady s else writeText 405 ''Method Not Allowed'')
      else (m, db, writeText 404 ''404 page not found''))"

section \<open>Trust\<close>

definition pins :: "string \<Rightarrow> string set" where
  "pins text = {u. u \<in> TrimSpace ` set (Split CHR 0x0A text) \<and> u \<noteq> [] \<and> \<not> HasPrefix u ''#''}"

lemma pin_lines:
  "rfold (pin_line P) ls t = Inr t' \<longleftrightarrow>
     (\<forall>u \<in> {u. u \<in> TrimSpace ` set ls \<and> u \<noteq> [] \<and> \<not> HasPrefix u ''#''}. P u \<noteq> None) \<and>
     t' = (\<lambda>u. if u \<in> TrimSpace ` set ls \<and> u \<noteq> [] \<and> \<not> HasPrefix u ''#'' then P u else t u)"
proof (induction ls arbitrary: t)
  case Nil
  then show ?case by auto
next
  case (Cons l ls)
  show ?case
  proof (cases "TrimSpace l = [] \<or> HasPrefix (TrimSpace l) ''#''")
    case True
    then have "pin_line P l = Inr" by (simp add: pin_line_def fun_eq_iff)
    moreover have "{u. u \<in> TrimSpace ` set (l # ls) \<and> u \<noteq> [] \<and> \<not> HasPrefix u ''#''} =
        {u. u \<in> TrimSpace ` set ls \<and> u \<noteq> [] \<and> \<not> HasPrefix u ''#''}" using True by auto
    moreover have "(u \<in> TrimSpace ` set (l # ls) \<and> u \<noteq> [] \<and> \<not> HasPrefix u ''#'') =
        (u \<in> TrimSpace ` set ls \<and> u \<noteq> [] \<and> \<not> HasPrefix u ''#'')" for u using True by auto
    ultimately show ?thesis unfolding rfold.simps by (simp only: rbind_simps Cons.IH)
  next
    case False
    then have s: "pin_line P l t = (case P (TrimSpace l) of None \<Rightarrow> Inl (ErrMsg ''not a valid pinned key'')
        | Some a \<Rightarrow> Inr (t(TrimSpace l \<mapsto> a)))" by (simp add: pin_line_def Let_def)
    show ?thesis
    proof (cases "P (TrimSpace l)")
      case None
      with False show ?thesis unfolding rfold.simps s by auto
    next
      case (Some a)
      with False show ?thesis
        unfolding rfold.simps s by (simp only: option.case rbind_simps Cons.IH) (auto simp: fun_eq_iff)
    qed
  qed
qed

lemma pinned_users:
  "PinnedUsersFromFile P (FileData text) = Inr trust \<longleftrightarrow>
     (\<forall>u \<in> pins text. P u \<noteq> None) \<and> trust = (\<lambda>u. if u \<in> pins text then P u else None)"
  by (simp add: PinnedUsersFromFile_def pin_lines pins_def)

lemma EffectiveBearer_verified:
  assumes "snd (Voidbind_EffectiveBearer v r m) = u" and "u \<noteq> []"
  shows "\<exists>cred trust c p ops. deviceCredential (RQH_Header r ''Authorization'') = Some cred \<and> vb_trust v = Inr trust \<and>
    Cut cred (vb_CredentialSeparator v) = Some (c, p) \<and>
    vb_VerifyWithPossession v trust c p ops m = (fst (Voidbind_EffectiveBearer v r m), Some u)"
  using assms by (auto simp: Voidbind_EffectiveBearer_def split: option.splits sum.splits prod.splits if_splits)

lemma Routes_changes:
  assumes "fst (snd (Routes s env uuid fl r m db)) \<noteq> db"
  shows "RQH_Method r = ''POST'' \<and> RQH_Path r = ''/mcp'' \<and>
    (\<exists>d. am_Authenticate (sv_access (ms_svc (hs_mcp s))) (snd (hs_auth s r m)) = Inr d)"
proof -
  from assms have mp: "RQH_Method r = ''POST''" "RQH_Path r = ''/mcp''"
    and c: "fst (snd (handleMCPPost s env uuid r m db)) \<noteq> db"
    by (auto simp: Routes_def Let_def split: if_splits prod.splits)
  then obtain raw where "fst (Handle (hs_mcp s) env (snd (hs_auth s r m)) (LimitReader raw maxBodyBytes) db) \<noteq> db"
    by (auto simp: handleMCPPost_def Let_def case_prod_beta split: option.splits)
  then have "\<exists>d. am_Authenticate (sv_access (ms_svc (hs_mcp s))) (snd (hs_auth s r m)) = Inr d"
    by (rule contrapos_np) (rule Handle_rejected)
  with mp show ?thesis by blast
qed

section \<open>Properties\<close>

text \<open>C19: Only pinned users write. With Device credentials, over a library whose verified user ids are
  in the trust root it was given, a request that changes the database is a POST to \<open>/mcp\<close> with a
  Device header, and the caller is a user whose key stands on a line of the trust file and whom
  the access model knows.\<close>

theorem only_pinned_users_write:
  assumes "hs_auth s = Voidbind_EffectiveBearer v" and "vb_trust v = PinnedUsersFromFile P file"
    and "\<forall>trust c p ops m m' u. vb_VerifyWithPossession v trust c p ops m = (m', Some u) \<longrightarrow> u \<in> dom trust"
    and "fst (snd (Routes s env uuid fl r m db)) \<noteq> db" and "am_Authenticate (sv_access (ms_svc (hs_mcp s))) [] = Inl x"
  shows "\<exists>text u d cred. file = FileData text \<and> u \<in> TrimSpace ` set (Split CHR 0x0A text) \<and> \<not> HasPrefix u ''#'' \<and> P u \<noteq> None \<and>
    deviceCredential (RQH_Header r ''Authorization'') = Some cred \<and> RQH_Method r = ''POST'' \<and> RQH_Path r = ''/mcp'' \<and>
    snd (hs_auth s r m) = u \<and> am_Authenticate (sv_access (ms_svc (hs_mcp s))) u = Inr d"
proof -
  from Routes_changes [OF assms(4)] obtain d where d: "RQH_Method r = ''POST''" "RQH_Path r = ''/mcp''"
    "am_Authenticate (sv_access (ms_svc (hs_mcp s))) (snd (hs_auth s r m)) = Inr d" by blast
  define u where "u = snd (Voidbind_EffectiveBearer v r m)"
  have "u \<noteq> []" using d(3) assms(1,5) by (auto simp: u_def)
  from EffectiveBearer_verified [OF u_def [symmetric] this] obtain cred trust c p ops where
    v: "deviceCredential (RQH_Header r ''Authorization'') = Some cred" "vb_trust v = Inr trust"
      "vb_VerifyWithPossession v trust c p ops m = (fst (Voidbind_EffectiveBearer v r m), Some u)" by blast
  from v(3) assms(3) have t: "u \<in> dom trust" by blast
  with v(2) assms(2) obtain body where f: "file = FileData body"
    by (cases "file") (auto simp: PinnedUsersFromFile_def)
  with v(2) assms(2) have "trust = (\<lambda>u. if u \<in> pins body then P u else None)" by (simp add: pinned_users)
  with t have "u \<in> pins body" "P u \<noteq> None" by (auto split: if_splits)
  with f v(1) d assms(1) show ?thesis by (auto simp: pins_def u_def)
qed

text \<open>The trust file and the library of the witness: \<open>kate\<close>'s key is pinned, under the bearer \<open>tk\<close>.\<close>

definition sample_trust_file :: trust_file where
  "sample_trust_file = FileData (''# users'' @ [CHR 0x0A] @ ''  tk'' @ [CHR 0x0A])"

definition sample_voidbind :: "(unit, unit, unit) voidbind" where
  "sample_voidbind = \<lparr>vb_trust = PinnedUsersFromFile (\<lambda>s. if s = ''tk'' then Some () else None) sample_trust_file,
     vb_ParseMembershipHeader = (\<lambda>_. Some ()),
     vb_VerifyWithPossession = (\<lambda>trust c p ops m. (m, if c = ''op'' \<and> p = ''proof'' \<and> trust ''tk'' \<noteq> None then Some ''tk'' else None)),
     vb_MembershipHeader = ''X-Membership'', vb_CredentialSeparator = CHR ''~''\<rparr>"

definition sample_request :: "string \<Rightarrow> http_request" where
  "sample_request h = \<lparr>RQH_Method = ''POST'', RQH_Path = ''/mcp'',
     RQH_Header = (\<lambda>n. if n = ''Authorization'' then h else []), RQH_Body = Some ''create''\<rparr>"

definition sample_http :: "unit http_server" where
  "sample_http = (http_New sample_mcp)\<lparr>hs_auth := Voidbind_EffectiveBearer sample_voidbind\<rparr>"

lemma sample_bearer: "Voidbind_EffectiveBearer sample_voidbind (sample_request ''device op~proof'') () = ((), ''tk'')"
  by code_simp

lemma sample_http_changes:
  "fst (snd (Routes sample_http sample_write_env ''sid'' True (sample_request ''device op~proof'') () sample_db)) \<noteq> sample_db"
proof -
  have "LimitReader ''create'' maxBodyBytes = ''create''" by (simp add: maxBodyBytes_def)
  moreover have "hs_mcp sample_http = sample_mcp" by (simp add: sample_http_def http_New_def)
  ultimately show ?thesis
    using sample_create_changes sample_bearer
    by (simp add: Routes_def handleMCPPost_def Let_def case_prod_beta sample_request_def sample_http_def split: option.split)
qed

theorem only_pinned_users_write_witness:
  "\<exists>txt u. sample_trust_file = FileData txt \<and> u \<in> TrimSpace ` set (Split CHR 0x0A txt) \<and> \<not> HasPrefix u ''#'' \<and>
     snd (hs_auth sample_http (sample_request ''device op~proof'') ()) = u \<and> u = ''tk''"
proof -
  have l: "\<forall>trust c p ops m m' u. vb_VerifyWithPossession sample_voidbind trust c p ops m = (m', Some u) \<longrightarrow> u \<in> dom trust"
    by (auto simp: sample_voidbind_def split: if_splits)
  have x: "am_Authenticate (sv_access (ms_svc (hs_mcp sample_http))) [] = Inl ErrUnauthenticated"
    by (simp add: sample_http_def http_New_def sample_mcp_def sample_service_def sample_starchart_def Starchart_Authenticate_def)
  have t: "vb_trust sample_voidbind = PinnedUsersFromFile (\<lambda>s. if s = ''tk'' then Some () else None) sample_trust_file"
    by (simp add: sample_voidbind_def)
  have a: "hs_auth sample_http = Voidbind_EffectiveBearer sample_voidbind" by (simp add: sample_http_def)
  from only_pinned_users_write [OF a t l sample_http_changes x, unfolded a sample_bearer snd_conv]
  obtain s u where w: "sample_trust_file = FileData s" "u \<in> TrimSpace ` set (Split CHR 0x0A s)"
    "\<not> HasPrefix u ''#''" "''tk'' = u" by (elim exE conjE)
  show ?thesis unfolding a sample_bearer snd_conv by (intro exI [of _ s] exI [of _ u] conjI w w(4) [symmetric])
qed

text \<open>The trust root is exactly the file. A readable trust file yields a trust root if and only if
  every line that is neither blank nor a comment is a valid key, and then it pins exactly those
  lines; a missing file pins nobody, an unreadable one refuses.\<close>

theorem trust_is_the_file:
  "(PinnedUsersFromFile P (FileData s) = Inr trust \<longleftrightarrow>
      (\<forall>u. u \<in> TrimSpace ` set (Split CHR 0x0A s) \<and> u \<noteq> [] \<and> \<not> HasPrefix u ''#'' \<longrightarrow> P u \<noteq> None) \<and>
      trust = (\<lambda>u. if u \<in> TrimSpace ` set (Split CHR 0x0A s) \<and> u \<noteq> [] \<and> \<not> HasPrefix u ''#'' then P u else None)) \<and>
   PinnedUsersFromFile P FileMissing = Inr Map.empty \<and> PinnedUsersFromFile P FileError \<noteq> Inr trust"
proof -
  have "PinnedUsersFromFile P FileMissing = Inr Map.empty" "PinnedUsersFromFile P FileError \<noteq> Inr trust"
    by (simp_all add: PinnedUsersFromFile_def)
  then show ?thesis unfolding pinned_users by (auto simp: pins_def)
qed

theorem trust_is_the_file_witness:
  "PinnedUsersFromFile (\<lambda>s. if s = ''tk'' then Some () else None) sample_trust_file =
     Inr (\<lambda>u. if u = ''tk'' then Some () else None)"
proof -
  have "set (map TrimSpace (Split CHR 0x0A (''# users'' @ [CHR 0x0A] @ ''  tk'' @ [CHR 0x0A]))) = {''# users'', ''tk'', []}"
    by code_simp
  then have s: "TrimSpace ` set (Split CHR 0x0A (''# users'' @ [CHR 0x0A] @ ''  tk'' @ [CHR 0x0A])) = {''# users'', ''tk'', []}"
    by (simp only: set_map)
  show ?thesis
    unfolding sample_trust_file_def
    by (rule conjunct1 [OF trust_is_the_file, THEN iffD2], unfold s) (auto simp: HasPrefix_def fun_eq_iff)
qed

text \<open>The event stream is not authenticated by the service in bearer mode: any non-empty token,
  however unknown to the access model, opens it, although no tool call with it succeeds.\<close>

theorem stream_accepts_any_token:
  "\<exists>r. handleMCPStream (http_New sample_mcp) True r () =
       ((), \<lparr>HY_Status = 200, HY_ContentType = ''text/event-stream'', HY_Session = [], HY_Body = BodyStream\<rparr>) \<and>
     snd (hs_auth (http_New sample_mcp :: unit http_server) r ()) = ''nobody'' \<and>
     am_Authenticate (sv_access (ms_svc sample_mcp)) ''nobody'' = Inl ErrUnauthenticated"
proof -
  let ?r = "(sample_request ''Bearer nobody'')"
  have "snd (hs_auth (http_New sample_mcp :: unit http_server) ?r ()) = ''nobody''" by code_simp
  moreover have "TrimSpace (RQH_Header ?r ''Mcp-Session-Id'') = []" by code_simp
  moreover have "am_Authenticate (sv_access (ms_svc sample_mcp)) ''nobody'' = Inl ErrUnauthenticated"
    by (simp add: sample_mcp_def sample_service_def sample_starchart_def Starchart_Authenticate_def)
  ultimately show ?thesis by (intro exI [of _ ?r]) (simp add: handleMCPStream_def case_prod_beta)
qed

end
