(* ===== verification/Jdx_Config.thy ===== *)
theory Jdx_Config
  imports Jdx_Golib Jdx_Resolve
begin

text \<open>
  The boot configuration of \<open>internal/config/config.go\<close>: every setting is read from the
  environment, every problem is collected, and nothing is returned unless there is none.
  \<open>url.Parse\<close> is a parameter that gives the scheme and the host of a text that parses.
\<close>

section \<open>The configuration\<close>

text \<open>An enumeration field holds one of its values, or the empty text where the setting was refused.\<close>

record config =
  Cf_Mode :: string
  Cf_Backend :: string
  Cf_IdentityMode :: string
  Cf_DSN :: string
  Cf_PrincipalsFile :: string
  Cf_LegacyStarchart :: bool
  Cf_JumpdriveURL :: string
  Cf_JumpdriveSecret :: string
  Cf_JumpdriveVerify :: string
  Cf_JumpdriveIssuer :: string
  Cf_HTTPAddr :: string
  Cf_AuthEnabled :: bool
  Cf_MCPAuthMode :: string
  Cf_MCPVoidbindTrustFile :: string
  Cf_MCPVoidbindMembershipDir :: string
  Cf_Thresholds :: thresholds
  Cf_HeyarrURL :: string
  Cf_HeyarrToken :: string

abbreviation ModeServe :: string where "ModeServe \<equiv> ''serve''"
abbreviation ModeMigrate :: string where "ModeMigrate \<equiv> ''migrate''"
abbreviation BackendSQLite :: string where "BackendSQLite \<equiv> ''sqlite''"
abbreviation BackendPostgres :: string where "BackendPostgres \<equiv> ''postgres''"
abbreviation IdentityStarchart :: string where "IdentityStarchart \<equiv> ''starchart''"
abbreviation IdentityJumpdrive :: string where "IdentityJumpdrive \<equiv> ''jumpdrive''"
abbreviation jumpdriveIndexPath :: string where "jumpdriveIndexPath \<equiv> ''/internal/index''"

text \<open>One constructor per complaint of \<open>Load\<close>, with the value it quotes.\<close>

datatype config_error = BadMode string | BadBackend string | BadIdentity string | BadAuth string
  | BadLegacy string | NoTrustFile | BadMCPAuthMode string | BadThresholds | NoDSN | BadVerify string
  | NoJumpdriveURL | BadJumpdriveURL string | NoJumpdriveSecret | NoIssuer string | StarchartOnPostgres
  | TokenWithoutURL | UnauthenticatedRoutable string

section \<open>Is an address reachable from outside\<close>

definition isRoutable :: "string \<Rightarrow> bool" where
  "isRoutable addr =
     (let host = Trim (before_last addr CHR '':'') {CHR ''['', CHR '']''} in
      if host = [] \<or> host = ''0.0.0.0'' \<or> host = ''::'' then True
      else if host = ''127.0.0.1'' \<or> host = ''::1'' \<or> host = ''localhost'' then False
      else \<not> HasPrefix host ''127.'')"

section \<open>Reading the environment\<close>

definition env_get :: "(string \<Rightarrow> string) \<Rightarrow> string \<Rightarrow> string \<Rightarrow> string" where
  "env_get getenv k def = (if getenv k \<noteq> [] then getenv k else def)"

definition read_env :: "(string \<Rightarrow> string) \<Rightarrow> config" where
  "read_env getenv = \<lparr>Cf_Mode = [], Cf_Backend = [], Cf_IdentityMode = [],
     Cf_DSN = getenv ''JDX_DSN'', Cf_PrincipalsFile = getenv ''JDX_PRINCIPALS_FILE'', Cf_LegacyStarchart = False,
     Cf_JumpdriveURL = TrimRight (getenv ''JDX_JUMPDRIVE_URL'') {CHR ''/''},
     Cf_JumpdriveSecret = getenv ''JDX_JUMPDRIVE_SECRET'', Cf_JumpdriveVerify = [],
     Cf_JumpdriveIssuer = getenv ''JDX_JUMPDRIVE_ISSUER'',
     Cf_HTTPAddr = env_get getenv ''JDX_HTTP_ADDR'' ''127.0.0.1:8090'', Cf_AuthEnabled = False,
     Cf_MCPAuthMode = ToLower (env_get getenv ''JDX_MCP_AUTH_MODE'' ''bearer''),
     Cf_MCPVoidbindTrustFile = getenv ''JDX_MCP_VOIDBIND_TRUST_FILE'',
     Cf_MCPVoidbindMembershipDir =
       env_get getenv ''JDX_MCP_VOIDBIND_MEMBERSHIP_DIR'' ''jumpdrive-index-membership'',
     Cf_Thresholds = \<lparr>AutoMerge = 0.94, Review = 0.86\<rparr>,
     Cf_HeyarrURL = getenv ''JDX_HEYARR_URL'', Cf_HeyarrToken = getenv ''JDX_HEYARR_TOKEN''\<rparr>"

text \<open>A switch over a closed set of values: store the value, or complain and leave the field.\<close>

definition read_enum ::
    "string list \<Rightarrow> (string \<Rightarrow> config \<Rightarrow> config) \<Rightarrow> (string \<Rightarrow> config_error) \<Rightarrow> string \<Rightarrow>
      config \<times> config_error list \<Rightarrow> config \<times> config_error list" where
  "read_enum vals put bad v s =
     (if List.member vals v then (put v (fst s), snd s) else (fst s, snd s @ [bad v]))"

definition read_bool ::
    "(bool \<Rightarrow> config \<Rightarrow> config) \<Rightarrow> (string \<Rightarrow> config_error) \<Rightarrow> string \<Rightarrow>
      config \<times> config_error list \<Rightarrow> config \<times> config_error list" where
  "read_bool put bad v s =
     (if v = ''1'' \<or> v = ''true'' then (put True (fst s), snd s)
      else if v = ''0'' \<or> v = ''false'' then (put False (fst s), snd s)
      else (fst s, snd s @ [bad v]))"

definition read_enums :: "(string \<Rightarrow> string) \<Rightarrow> config \<Rightarrow> config \<times> config_error list" where
  "read_enums getenv c =
     (let s1 = read_enum [ModeServe, ModeMigrate] (\<lambda>v. Cf_Mode_update (\<lambda>_. v)) BadMode
                 (env_get getenv ''JDX_MODE'' ''serve'') (c, []);
          s2 = read_enum [BackendSQLite, BackendPostgres] (\<lambda>v. Cf_Backend_update (\<lambda>_. v)) BadBackend
                 (env_get getenv ''JDX_BACKEND'' ''sqlite'') s1;
          s3 = read_enum [IdentityStarchart, IdentityJumpdrive] (\<lambda>v. Cf_IdentityMode_update (\<lambda>_. v)) BadIdentity
                 (env_get getenv ''JDX_IDENTITY'' ''starchart'') s2;
          s4 = read_bool (\<lambda>b. Cf_AuthEnabled_update (\<lambda>_. b)) BadAuth
                 (ToLower (env_get getenv ''JDX_AUTH'' ''true'')) s3;
          s5 = read_bool (\<lambda>b. Cf_LegacyStarchart_update (\<lambda>_. b)) BadLegacy
                 (ToLower (env_get getenv ''JDX_LEGACY_STARCHART'' ''false'')) s4 in
      s5)"

definition check_mcp_auth :: "config \<Rightarrow> config_error list" where
  "check_mcp_auth c =
     (if Cf_MCPAuthMode c = ''bearer'' then []
      else if Cf_MCPAuthMode c = ''voidbind'' then
        (if Cf_MCPVoidbindTrustFile c = [] then [NoTrustFile] else [])
      else [BadMCPAuthMode (Cf_MCPAuthMode c)])"

definition validateJumpdrive ::
    "(string \<Rightarrow> (string \<times> string) option) \<Rightarrow> config \<Rightarrow> config \<times> config_error list" where
  "validateJumpdrive url_Parse c =
     (let e1 = (if Cf_JumpdriveURL c = [] then [NoJumpdriveURL]
                else (case url_Parse (Cf_JumpdriveURL c) of
                    None \<Rightarrow> [BadJumpdriveURL (Cf_JumpdriveURL c)]
                  | Some (scheme, host) \<Rightarrow>
                      if (scheme \<noteq> ''https'' \<and> scheme \<noteq> ''http'') \<or> host = []
                      then [BadJumpdriveURL (Cf_JumpdriveURL c)] else []));
          e2 = (if Cf_JumpdriveSecret c = [] then [NoJumpdriveSecret] else []);
          c' = (if Cf_JumpdriveIssuer c = [] \<and> HasSuffix (Cf_JumpdriveURL c) jumpdriveIndexPath
                then c\<lparr>Cf_JumpdriveIssuer := TrimSuffix (Cf_JumpdriveURL c) jumpdriveIndexPath\<rparr> else c);
          e3 = (if Cf_JumpdriveIssuer c' = [] \<and> Cf_JumpdriveVerify c' \<noteq> ''authorize''
                then [NoIssuer (Cf_JumpdriveVerify c')] else [])
      in (c', e1 @ e2 @ e3))"

definition Load ::
    "(string \<Rightarrow> (string \<times> string) option) \<Rightarrow> (string \<Rightarrow> string) \<Rightarrow> config_error list + config" where
  "Load url_Parse getenv =
     (let (c1, e1) = read_enums getenv (read_env getenv);
          e2 = check_mcp_auth c1;
          e3 = (if Thresholds_Validate (Cf_Thresholds c1) \<noteq> None then [BadThresholds] else []);
          e4 = (if Cf_Backend c1 = BackendPostgres \<and> Cf_DSN c1 = [] then [NoDSN] else []);
          (c2, e5) = read_enum [''jwks'', ''authorize'', ''dual''] (\<lambda>v. Cf_JumpdriveVerify_update (\<lambda>_. v)) BadVerify
                       (ToLower (env_get getenv ''JDX_JUMPDRIVE_VERIFY'' ''jwks'')) (c1, []);
          (c3, e6) = (if Cf_Mode c2 = ModeServe \<and> Cf_IdentityMode c2 = IdentityJumpdrive
                      then validateJumpdrive url_Parse c2 else (c2, []));
          e7 = (if Cf_Mode c3 = ModeServe \<and> Cf_Backend c3 = BackendPostgres \<and>
                   Cf_IdentityMode c3 = IdentityStarchart \<and> \<not> Cf_LegacyStarchart c3 then [StarchartOnPostgres] else []);
          e8 = (if Cf_HeyarrToken c3 \<noteq> [] \<and> Cf_HeyarrURL c3 = [] then [TokenWithoutURL] else []);
          e9 = (if Cf_Mode c3 = ModeServe \<and> \<not> Cf_AuthEnabled c3 \<and> isRoutable (Cf_HTTPAddr c3)
                then [UnauthenticatedRoutable (Cf_HTTPAddr c3)] else []);
          errs = e1 @ e2 @ e3 @ e4 @ e5 @ e6 @ e7 @ e8 @ e9
      in if length errs > 0 then Inl errs else Inr c3)"

section \<open>What a loaded configuration satisfies\<close>

definition config_ok :: "(string \<Rightarrow> (string \<times> string) option) \<Rightarrow> config \<Rightarrow> bool" where
  "config_ok url_Parse c \<longleftrightarrow>
     Cf_Mode c \<in> {ModeServe, ModeMigrate} \<and> Cf_Backend c \<in> {BackendSQLite, BackendPostgres} \<and>
     Cf_IdentityMode c \<in> {IdentityStarchart, IdentityJumpdrive} \<and>
     Cf_JumpdriveVerify c \<in> {''jwks'', ''authorize'', ''dual''} \<and>
     (Cf_MCPAuthMode c = ''bearer'' \<or> Cf_MCPAuthMode c = ''voidbind'' \<and> Cf_MCPVoidbindTrustFile c \<noteq> []) \<and>
     (Cf_Backend c = BackendPostgres \<longrightarrow> Cf_DSN c \<noteq> []) \<and>
     (Cf_Mode c = ModeServe \<and> Cf_IdentityMode c = IdentityJumpdrive \<longrightarrow>
        (\<exists>scheme host. url_Parse (Cf_JumpdriveURL c) = Some (scheme, host) \<and> scheme \<in> {''http'', ''https''} \<and> host \<noteq> []) \<and>
        Cf_JumpdriveURL c \<noteq> [] \<and> Cf_JumpdriveSecret c \<noteq> [] \<and>
        (Cf_JumpdriveVerify c \<noteq> ''authorize'' \<longrightarrow> Cf_JumpdriveIssuer c \<noteq> [])) \<and>
     (Cf_Mode c = ModeServe \<and> Cf_Backend c = BackendPostgres \<and> Cf_IdentityMode c = IdentityStarchart \<longrightarrow>
        Cf_LegacyStarchart c) \<and>
     (Cf_HeyarrToken c \<noteq> [] \<longrightarrow> Cf_HeyarrURL c \<noteq> []) \<and>
     (Cf_Mode c = ModeServe \<and> isRoutable (Cf_HTTPAddr c) \<longrightarrow> Cf_AuthEnabled c)"

lemmas load_defs = Load_def read_enums_def read_enum_def read_bool_def read_env_def check_mcp_auth_def
  validateJumpdrive_def List.member_iff

lemma read_enum_snd: "snd (read_enum vals put bad v s) = [] \<longleftrightarrow> v \<in> set vals \<and> snd s = []"
  by (simp add: read_enum_def List.member_iff)

lemma read_enum_fst: "fst (read_enum vals put bad v s) = (if v \<in> set vals then put v (fst s) else fst s)"
  by (simp add: read_enum_def List.member_iff)

lemma read_bool_snd:
  "snd (read_bool put bad v s) = [] \<longleftrightarrow> v \<in> {''1'', ''true'', ''0'', ''false''} \<and> snd s = []"
  by (simp add: read_bool_def)

lemma read_bool_fst: "fst (read_bool put bad v s) = (if v \<in> {''1'', ''true''} then put True (fst s)
    else if v \<in> {''0'', ''false''} then put False (fst s) else fst s)"
  by (simp add: read_bool_def)

lemma LoadE:
  assumes "Load url g = Inr c"
  obtains c1 c2 where "read_enums g (read_env g) = (c1, [])" and "check_mcp_auth c1 = []"
    and "Cf_Backend c1 = BackendPostgres \<Longrightarrow> Cf_DSN c1 \<noteq> []"
    and "read_enum [''jwks'', ''authorize'', ''dual''] (\<lambda>v. Cf_JumpdriveVerify_update (\<lambda>_. v)) BadVerify
      (ToLower (env_get g ''JDX_JUMPDRIVE_VERIFY'' ''jwks'')) (c1, []) = (c2, [])"
    and "(if Cf_Mode c2 = ModeServe \<and> Cf_IdentityMode c2 = IdentityJumpdrive
      then validateJumpdrive url c2 else (c2, [])) = (c, [])"
    and "\<not> (Cf_Mode c = ModeServe \<and> Cf_Backend c = BackendPostgres \<and> Cf_IdentityMode c = IdentityStarchart \<and>
      \<not> Cf_LegacyStarchart c)"
    and "\<not> (Cf_HeyarrToken c \<noteq> [] \<and> Cf_HeyarrURL c = [])"
    and "\<not> (Cf_Mode c = ModeServe \<and> \<not> Cf_AuthEnabled c \<and> isRoutable (Cf_HTTPAddr c))"
  using assms unfolding Load_def Let_def case_prod_beta
  by (simp only: prod_eq_iff fst_conv snd_conv) (force split: if_split_asm)

lemma read_enums_ok:
  assumes "read_enums g c0 = (c1, [])"
  shows "Cf_Mode c1 \<in> {ModeServe, ModeMigrate} \<and> Cf_Backend c1 \<in> {BackendSQLite, BackendPostgres} \<and>
    Cf_IdentityMode c1 \<in> {IdentityStarchart, IdentityJumpdrive}"
proof -
  define mode backend ident where "mode = env_get g ''JDX_MODE'' ''serve''"
    and "backend = env_get g ''JDX_BACKEND'' ''sqlite''" and "ident = env_get g ''JDX_IDENTITY'' ''starchart''"
  from assms have "snd (read_enums g c0) = []" by simp
  then have m: "mode \<in> {ModeServe, ModeMigrate}" "backend \<in> {BackendSQLite, BackendPostgres}"
      "ident \<in> {IdentityStarchart, IdentityJumpdrive}"
    unfolding read_enums_def Let_def read_enum_snd read_bool_snd mode_def backend_def ident_def by simp_all
  from assms have c1: "c1 = fst (read_enums g c0)" by simp
  have "Cf_Mode c1 = mode" "Cf_Backend c1 = backend" "Cf_IdentityMode c1 = ident"
    unfolding c1 read_enums_def Let_def read_enum_fst read_bool_fst mode_def [symmetric]
      backend_def [symmetric] ident_def [symmetric] using m by simp_all
  with m show ?thesis by simp
qed

lemma validateJumpdrive_ok:
  assumes "validateJumpdrive url c = (c', [])"
  shows "\<exists>scheme host. url (Cf_JumpdriveURL c') = Some (scheme, host) \<and> scheme \<in> {''http'', ''https''} \<and> host \<noteq> []"
    and "Cf_JumpdriveURL c' \<noteq> []" and "Cf_JumpdriveSecret c' \<noteq> []"
    and "Cf_JumpdriveVerify c' \<noteq> ''authorize'' \<Longrightarrow> Cf_JumpdriveIssuer c' \<noteq> []"
    and "\<exists>i. c' = c\<lparr>Cf_JumpdriveIssuer := i\<rparr>"
proof -
  from assms have e: "snd (validateJumpdrive url c) = []" and c': "c' = fst (validateJumpdrive url c)" by simp_all
  show i: "\<exists>i. c' = c\<lparr>Cf_JumpdriveIssuer := i\<rparr>"
    by (rule exI [of _ "Cf_JumpdriveIssuer c'"]) (simp add: c' validateJumpdrive_def Let_def)
  from e i show "\<exists>scheme host. url (Cf_JumpdriveURL c') = Some (scheme, host) \<and> scheme \<in> {''http'', ''https''} \<and> host \<noteq> []"
    "Cf_JumpdriveURL c' \<noteq> []" "Cf_JumpdriveSecret c' \<noteq> []"
    by (auto simp: validateJumpdrive_def Let_def split: if_split_asm option.splits)
  show "Cf_JumpdriveVerify c' \<noteq> ''authorize'' \<Longrightarrow> Cf_JumpdriveIssuer c' \<noteq> []"
    using e unfolding c' by (simp add: validateJumpdrive_def Let_def split: if_split_asm)
qed

section \<open>Properties\<close>


text \<open>The environment of the witnesses: a hosted serve with a jumpdrive identity.\<close>

definition sample_env :: "string \<Rightarrow> string" where
  "sample_env k =
     (if k = ''JDX_BACKEND'' then ''postgres'' else if k = ''JDX_DSN'' then ''postgres://db''
      else if k = ''JDX_IDENTITY'' then ''jumpdrive''
      else if k = ''JDX_JUMPDRIVE_URL'' then ''https://jd/internal/index/''
      else if k = ''JDX_JUMPDRIVE_SECRET'' then ''s'' else if k = ''JDX_HTTP_ADDR'' then '':8090'' else [])"


text \<open>Every problem is reported at once, in order: a deployment with five mistakes, one of them
  an unauthenticated serve on all interfaces, gets five complaints and no configuration.\<close>

theorem Load_reports_all:
  "Load (\<lambda>_. None) (\<lambda>k. if k = ''JDX_BACKEND'' then ''mysql'' else if k = ''JDX_AUTH'' then ''FALSE''
      else if k = ''JDX_MCP_AUTH_MODE'' then ''voidbind'' else if k = ''JDX_HTTP_ADDR'' then '':8090''
      else if k = ''JDX_HEYARR_TOKEN'' then ''t'' else if k = ''JDX_LEGACY_STARCHART'' then ''yes'' else []) =
    Inl [BadBackend ''mysql'', BadLegacy ''yes'', NoTrustFile, TokenWithoutURL, UnauthenticatedRoutable '':8090'']"
  by code_simp

text \<open>The empty environment loads: the homelab defaults, on loopback, authenticated.\<close>

theorem Load_defaults:
  "case Load url (\<lambda>_. []) of Inl e \<Rightarrow> False | Inr c \<Rightarrow>
     Cf_Mode c = ModeServe \<and> Cf_Backend c = BackendSQLite \<and> Cf_IdentityMode c = IdentityStarchart \<and>
     Cf_MCPAuthMode c = ''bearer'' \<and> Cf_AuthEnabled c \<and> \<not> isRoutable (Cf_HTTPAddr c)"
  by code_simp

text \<open>What counts as loopback: an address is not routable only if its host, without brackets, is
  one of three names or starts with 127 and a dot. The last test is on text: a host name
  that starts with 127 and a dot is taken for loopback too, and may be served unauthenticated.\<close>

theorem isRoutable_text:
  "(isRoutable addr \<or> (\<exists>host. host = Trim (before_last addr CHR '':'') {CHR ''['', CHR '']''} \<and>
      (host \<in> {''127.0.0.1'', ''::1'', ''localhost''} \<or> (\<exists>r. host = ''127.'' @ r)))) \<and>
   isRoutable [] \<and> isRoutable '':8090'' \<and> isRoutable ''[::]:80'' \<and> \<not> isRoutable ''[::1]:80'' \<and>
   \<not> isRoutable ''127.example.com:80''"
proof -
  have p: "\<exists>r. h = ''127.'' @ r" if "HasPrefix h ''127.''" for h
    using that unfolding HasPrefix_def by (metis append_take_drop_id)
  have "isRoutable []" "isRoutable '':8090''" "isRoutable ''[::]:80''" "\<not> isRoutable ''[::1]:80''"
    "\<not> isRoutable ''127.example.com:80''" by code_simp+
  moreover define h where "h = Trim (before_last addr CHR '':'') {CHR ''['', CHR '']''}"
  have "isRoutable addr \<or> h \<in> {''127.0.0.1'', ''::1'', ''localhost''} \<or> HasPrefix h ''127.''"
    unfolding isRoutable_def h_def [symmetric] Let_def by simp
  with p have "isRoutable addr \<or> (h \<in> {''127.0.0.1'', ''::1'', ''localhost''} \<or> (\<exists>r. h = ''127.'' @ r))"
    by blast
  ultimately show ?thesis unfolding h_def by blast
qed

end
