(* ===== verification/Jdx_Verifier.thy ===== *)
theory Jdx_Verifier
  imports Jdx_Golib Jdx_Access
begin

text \<open>
  The JWKS verifier of \<open>internal/access/jumpdrive/verifier.go\<close>: a compact JWS is checked against
  keys fetched from the control plane, cached by kid, refetched at a bounded rate. Parameters:
  SHA-256, the P-256 point decoder, ECDSA verification, the JSON text reader (the value at the
  start of a text, and the text after it), float parsing, RFC 3339 parsing, and the answers of
  the network. The k-th reading of the clock within one call is \<open>clk k\<close>.
\<close>

section \<open>What is outside\<close>

type_synonym pubkey = "byte list"

record crypto =
  cr_sha256 :: "string \<Rightarrow> byte list"
  cr_point :: "byte list \<Rightarrow> pubkey option"
  cr_ecdsa :: "pubkey \<Rightarrow> byte list \<Rightarrow> nat \<Rightarrow> nat \<Rightarrow> bool"
  cr_json :: "string \<Rightarrow> (json \<times> string) option"
  cr_float :: "string \<Rightarrow> real option"
  cr_rfc3339 :: "string \<Rightarrow> time option"

record http_response =
  HR_Status :: int
  HR_Body :: string
  HR_CacheControl :: string

text \<open>The request cannot be built; the client fails (network, timeout); or there is a response.\<close>

datatype http_outcome = HttpNoRequest | HttpFailed | HttpResponse http_response

section \<open>Claims\<close>

abbreviation CredentialAlg :: string where "CredentialAlg \<equiv> ''ES256''"
abbreviation CredentialType :: string where "CredentialType \<equiv> ''jd-index+jwt''"
abbreviation CredentialAudience :: string where "CredentialAudience \<equiv> ''jumpdrive-index''"
abbreviation CredentialVersion :: int where "CredentialVersion \<equiv> 1"

definition second :: time where
  "second = 1000000000"

definition MaxClockSkew :: time where
  "MaxClockSkew = 30 * second"

record jd_spaces =
  JS_Read :: "string list option"
  JS_Write :: "string list option"
  JS_Approve :: "string list option"

record claims =
  C_Issuer :: string
  C_Audience :: "string list"
  C_Subject :: string
  C_Org :: string
  C_Ws :: string
  C_Access :: string
  C_Spaces :: jd_spaces
  C_Client :: string
  C_Version :: int
  C_JTI :: string
  C_IssuedAt :: "time option"
  C_NotEarly :: "time option"
  C_Expires :: "time option"

definition claims0 :: claims where
  "claims0 = \<lparr>C_Issuer = [], C_Audience = [], C_Subject = [], C_Org = [], C_Ws = [], C_Access = [],
     C_Spaces = \<lparr>JS_Read = None, JS_Write = None, JS_Approve = None\<rparr>, C_Client = [], C_Version = 0,
     C_JTI = [], C_IssuedAt = None, C_NotEarly = None, C_Expires = None\<rparr>"

text \<open>\<open>audience.UnmarshalJSON\<close>: one string (\<open>null\<close> reads as the empty one) or an array.\<close>

definition dec_audience :: "json \<Rightarrow> string list res" where
  "dec_audience j = (case dec_string j [] of
       Inr one \<Rightarrow> Inr [one]
     | Inl _ \<Rightarrow> dec_strings j)"

text \<open>\<open>jsonTime.UnmarshalJSON\<close> behind a pointer: a number, truncated to whole seconds.\<close>

definition dec_time :: "crypto \<Rightarrow> json \<Rightarrow> time option res" where
  "dec_time cr j = (case j of
       JNull \<Rightarrow> Inr None
     | JNum n \<Rightarrow> (case cr_float cr n of
           None \<Rightarrow> Inl ErrUnmarshal
         | Some f \<Rightarrow> Inr (Some ((if f < 0 then \<lceil>f\<rceil> else \<lfloor>f\<rfloor>) * second)))
     | _ \<Rightarrow> Inl ErrUnmarshal)"

definition dec_strings_ptr :: "json \<Rightarrow> string list option res" where
  "dec_strings_ptr j = (if j = JNull then Inr None else rbind (dec_strings j) (\<lambda>xs. Inr (Some xs)))"

definition spaces_field :: "string \<Rightarrow> json \<Rightarrow> jd_spaces \<Rightarrow> jd_spaces res" where
  "spaces_field k v s =
     (if k = ''read'' then upd (\<lambda>x. JS_Read_update (\<lambda>_. x)) (dec_strings_ptr v) s
      else if k = ''write'' then upd (\<lambda>x. JS_Write_update (\<lambda>_. x)) (dec_strings_ptr v) s
      else if k = ''approve'' then upd (\<lambda>x. JS_Approve_update (\<lambda>_. x)) (dec_strings_ptr v) s
      else Inr s)"

definition claims_field :: "crypto \<Rightarrow> string \<Rightarrow> json \<Rightarrow> claims \<Rightarrow> claims res" where
  "claims_field cr k v c =
     (if k = ''iss'' then upd (\<lambda>x. C_Issuer_update (\<lambda>_. x)) (dec_string v (C_Issuer c)) c
      else if k = ''aud'' then upd (\<lambda>x. C_Audience_update (\<lambda>_. x)) (dec_audience v) c
      else if k = ''sub'' then upd (\<lambda>x. C_Subject_update (\<lambda>_. x)) (dec_string v (C_Subject c)) c
      else if k = ''jd_org'' then upd (\<lambda>x. C_Org_update (\<lambda>_. x)) (dec_string v (C_Org c)) c
      else if k = ''jd_ws'' then upd (\<lambda>x. C_Ws_update (\<lambda>_. x)) (dec_string v (C_Ws c)) c
      else if k = ''jd_access'' then upd (\<lambda>x. C_Access_update (\<lambda>_. x)) (dec_string v (C_Access c)) c
      else if k = ''jd_spaces'' then upd (\<lambda>x. C_Spaces_update (\<lambda>_. x)) (dec_struct spaces_field v (C_Spaces c)) c
      else if k = ''jd_client'' then upd (\<lambda>x. C_Client_update (\<lambda>_. x)) (dec_string v (C_Client c)) c
      else if k = ''jd_ver'' then upd (\<lambda>x. C_Version_update (\<lambda>_. x)) (dec_int v (C_Version c)) c
      else if k = ''jti'' then upd (\<lambda>x. C_JTI_update (\<lambda>_. x)) (dec_string v (C_JTI c)) c
      else if k = ''iat'' then upd (\<lambda>x. C_IssuedAt_update (\<lambda>_. x)) (dec_time cr v) c
      else if k = ''nbf'' then upd (\<lambda>x. C_NotEarly_update (\<lambda>_. x)) (dec_time cr v) c
      else if k = ''exp'' then upd (\<lambda>x. C_Expires_update (\<lambda>_. x)) (dec_time cr v) c
      else Inr c)"

record jws_header =
  H_Alg :: string
  H_Kid :: string
  H_Typ :: string
  H_Crit :: "string list"

definition header0 :: jws_header where
  "header0 = \<lparr>H_Alg = [], H_Kid = [], H_Typ = [], H_Crit = []\<rparr>"

definition header_field :: "string \<Rightarrow> json \<Rightarrow> jws_header \<Rightarrow> jws_header res" where
  "header_field k v h =
     (if k = ''alg'' then upd (\<lambda>x. H_Alg_update (\<lambda>_. x)) (dec_string v (H_Alg h)) h
      else if k = ''kid'' then upd (\<lambda>x. H_Kid_update (\<lambda>_. x)) (dec_string v (H_Kid h)) h
      else if k = ''typ'' then upd (\<lambda>x. H_Typ_update (\<lambda>_. x)) (dec_string v (H_Typ h)) h
      else if k = ''crit'' then upd (\<lambda>x. H_Crit_update (\<lambda>_. x)) (dec_strings v) h
      else Inr h)"

text \<open>\<open>dec.More()\<close>: another character than white space, a closing bracket or a closing brace.\<close>

definition More :: "string \<Rightarrow> bool" where
  "More rest = (case dropWhile is_space rest of [] \<Rightarrow> False | c # _ \<Rightarrow> c \<noteq> CHR '']'' \<and> c \<noteq> CHR ''}'')"

definition decodeSegment :: "crypto \<Rightarrow> (json \<Rightarrow> 'a res) \<Rightarrow> string \<Rightarrow> 'a res" where
  "decodeSegment cr into seg = (case RawURL_DecodeString seg of
       None \<Rightarrow> Inl (ErrMsg ''bad base64url'')
     | Some b \<Rightarrow>
         (case cr_json cr (bytes_text b) of
            None \<Rightarrow> Inl ErrUnmarshal
          | Some (j, rest) \<Rightarrow>
              rbind (into j) (\<lambda>v. if More rest then Inl (ErrMsg ''trailing data'') else Inr v)))"

fun jd_contains :: "string list \<Rightarrow> string \<Rightarrow> bool" where
  "jd_contains [] s = False"
| "jd_contains (x # xs) s = (if x = s then True else jd_contains xs s)"

section \<open>The verifier and its key cache\<close>

record verifier_config =
  VC_JWKSURL :: string
  VC_Issuer :: string
  VC_MinRefetchInterval :: time
  VC_RefreshAfter :: time

record verifier =
  vf_jwksURL :: string
  vf_issuer :: string
  vf_minRefetch :: time
  vf_refreshAfter :: time
  vf_keys :: "string \<rightharpoonup> pubkey"
  vf_fetchedAt :: "time option"
  vf_triedAt :: "time option"

definition NewVerifier :: "verifier_config \<Rightarrow> verifier res" where
  "NewVerifier cfg =
     (if VC_JWKSURL cfg = [] then Inl ErrConfig
      else if VC_Issuer cfg = [] then Inl ErrConfig
      else Inr \<lparr>vf_jwksURL = VC_JWKSURL cfg, vf_issuer = VC_Issuer cfg,
        vf_minRefetch = (if VC_MinRefetchInterval cfg \<le> 0 then 10 * second else VC_MinRefetchInterval cfg),
        vf_refreshAfter = (if VC_RefreshAfter cfg \<le> 0 then 300 * second else VC_RefreshAfter cfg),
        vf_keys = Map.empty, vf_fetchedAt = None, vf_triedAt = None\<rparr>)"

record jwk =
  K_Kty :: string
  K_Crv :: string
  K_X :: string
  K_Y :: string
  K_Use :: string
  K_Alg :: string
  K_Kid :: string

definition jwk0 :: jwk where
  "jwk0 = \<lparr>K_Kty = [], K_Crv = [], K_X = [], K_Y = [], K_Use = [], K_Alg = [], K_Kid = []\<rparr>"

definition jwk_field :: "string \<Rightarrow> json \<Rightarrow> jwk \<Rightarrow> jwk res" where
  "jwk_field k v w =
     (if k = ''kty'' then upd (\<lambda>x. K_Kty_update (\<lambda>_. x)) (dec_string v (K_Kty w)) w
      else if k = ''crv'' then upd (\<lambda>x. K_Crv_update (\<lambda>_. x)) (dec_string v (K_Crv w)) w
      else if k = ''x'' then upd (\<lambda>x. K_X_update (\<lambda>_. x)) (dec_string v (K_X w)) w
      else if k = ''y'' then upd (\<lambda>x. K_Y_update (\<lambda>_. x)) (dec_string v (K_Y w)) w
      else if k = ''use'' then upd (\<lambda>x. K_Use_update (\<lambda>_. x)) (dec_string v (K_Use w)) w
      else if k = ''alg'' then upd (\<lambda>x. K_Alg_update (\<lambda>_. x)) (dec_string v (K_Alg w)) w
      else if k = ''kid'' then upd (\<lambda>x. K_Kid_update (\<lambda>_. x)) (dec_string v (K_Kid w)) w
      else Inr w)"

definition publicKey :: "crypto \<Rightarrow> jwk \<Rightarrow> pubkey res" where
  "publicKey cr k =
     (if K_Kid k = [] then Inl (ErrMsg ''no kid'')
      else if K_Kty k \<noteq> ''EC'' \<or> K_Crv k \<noteq> ''P-256'' then Inl (ErrMsg ''not EC P-256'')
      else if K_Alg k \<noteq> [] \<and> K_Alg k \<noteq> CredentialAlg then Inl (ErrMsg ''not ES256'')
      else if K_Use k \<noteq> [] \<and> K_Use k \<noteq> ''sig'' then Inl (ErrMsg ''not sig'')
      else (case (RawURL_DecodeString (K_X k), RawURL_DecodeString (K_Y k)) of
          (Some x, Some y) \<Rightarrow>
            if length x \<noteq> 32 \<or> length y \<noteq> 32 then Inl (ErrMsg ''malformed coordinates'')
            else (case cr_point cr ([4] @ x @ y) of
                None \<Rightarrow> Inl (ErrMsg ''not on the curve'')
              | Some p \<Rightarrow> Inr p)
        | _ \<Rightarrow> Inl (ErrMsg ''malformed coordinates'')))"

fun parseJWKS :: "crypto \<Rightarrow> jwk list \<Rightarrow> (string \<rightharpoonup> pubkey) \<Rightarrow> (string \<rightharpoonup> pubkey)" where
  "parseJWKS cr [] out = out"
| "parseJWKS cr (k # ks) out = (case publicKey cr k of
       Inl e \<Rightarrow> parseJWKS cr ks out
     | Inr pub \<Rightarrow> parseJWKS cr ks (out(K_Kid k \<mapsto> pub)))"

definition keys_field :: "string \<Rightarrow> json \<Rightarrow> jwk list \<Rightarrow> jwk list res" where
  "keys_field k v ks = (if k = ''keys'' then dec_slice (\<lambda>j. dec_struct jwk_field j jwk0) v else Inr ks)"

definition limit_1MiB :: "string \<Rightarrow> string" where
  "limit_1MiB s = LimitReader s 1048576"

definition fetch :: "crypto \<Rightarrow> http_outcome \<Rightarrow> (string \<rightharpoonup> pubkey) res" where
  "fetch cr net = (case net of
       HttpNoRequest \<Rightarrow> Inl ErrRequest
     | HttpFailed \<Rightarrow> Inl ErrRequest
     | HttpResponse resp \<Rightarrow>
         if HR_Status resp \<noteq> 200 then Inl ErrRequest
         else (case cr_json cr (limit_1MiB (HR_Body resp)) of
             None \<Rightarrow> Inl ErrUnmarshal
           | Some (j, _) \<Rightarrow>
               rbind (dec_struct keys_field j []) (\<lambda>ks. Inr (parseJWKS cr ks Map.empty))))"

definition refetch :: "crypto \<Rightarrow> http_outcome \<Rightarrow> (nat \<Rightarrow> time) \<Rightarrow> verifier \<Rightarrow> verifier" where
  "refetch cr net clk v =
     (let recent = (case vf_triedAt v of None \<Rightarrow> False | Some t \<Rightarrow> clk 1 - t < vf_minRefetch v) in
      if recent then v
      else
        let v1 = v\<lparr>vf_triedAt := Some (clk 2)\<rparr> in
        (case fetch cr net of
           Inl e \<Rightarrow> v1
         | Inr keys \<Rightarrow> v1\<lparr>vf_keys := keys, vf_fetchedAt := Some (clk 3)\<rparr>))"

definition verifier_key ::
    "crypto \<Rightarrow> http_outcome \<Rightarrow> (nat \<Rightarrow> time) \<Rightarrow> string \<Rightarrow> verifier \<Rightarrow> verifier \<times> pubkey res" where
  "verifier_key cr net clk kid v =
     (let stale = (case vf_fetchedAt v of None \<Rightarrow> True | Some t \<Rightarrow> clk 0 - t \<ge> vf_refreshAfter v) in
      case vf_keys v kid of
        Some k \<Rightarrow>
          if \<not> stale then (v, Inr k)
          else
            let v' = refetch cr net clk v in
            (case vf_keys v' kid of None \<Rightarrow> (v', Inl (ErrMsg ''unknown kid'')) | Some k' \<Rightarrow> (v', Inr k'))
      | None \<Rightarrow>
          let v' = refetch cr net clk v in
          (case vf_keys v' kid of None \<Rightarrow> (v', Inl (ErrMsg ''unknown kid'')) | Some k' \<Rightarrow> (v', Inr k')))"

section \<open>Verification\<close>

definition checkClaims :: "verifier \<Rightarrow> time \<Rightarrow> claims \<Rightarrow> gerr option" where
  "checkClaims v now c =
     (if C_Issuer c \<noteq> vf_issuer v then Some (ErrMsg ''iss not trusted'')
      else if \<not> jd_contains (C_Audience c) CredentialAudience then Some (ErrMsg ''aud is not jumpdrive-index'')
      else if C_Version c \<noteq> CredentialVersion then Some (ErrMsg ''unsupported jd_ver'')
      else if C_Subject c = [] \<or> C_Org c = [] \<or> C_Ws c = [] \<or> C_JTI c = []
        then Some (ErrMsg ''missing sub, jd_org, jd_ws or jti'')
      else if C_Access c \<noteq> ''read'' \<and> C_Access c \<noteq> ''full'' then Some (ErrMsg ''jd_access not recognised'')
      else if JS_Read (C_Spaces c) = None \<or> JS_Write (C_Spaces c) = None \<or> JS_Approve (C_Spaces c) = None
        then Some (ErrMsg ''jd_spaces must carry read, write and approve'')
      else (case (C_IssuedAt c, C_NotEarly c, C_Expires c) of
          (Some _, Some nbf, Some expires) \<Rightarrow>
            if now > expires + MaxClockSkew then Some (ErrMsg ''expired'')
            else if now < nbf - MaxClockSkew then Some (ErrMsg ''not yet valid'')
            else None
        | _ \<Rightarrow> Some (ErrMsg ''missing iat, nbf or exp'')))"

definition check_signature :: "crypto \<Rightarrow> pubkey \<Rightarrow> string \<Rightarrow> string \<Rightarrow> byte list \<Rightarrow> bool" where
  "check_signature cr key seg0 seg1 sig =
     cr_ecdsa cr key (cr_sha256 cr (seg0 @ ''.'' @ seg1)) (SetBytes (take 32 sig)) (SetBytes (drop 32 sig))"

definition verify_claims :: "crypto \<Rightarrow> (nat \<Rightarrow> time) \<Rightarrow> string \<Rightarrow> verifier \<Rightarrow> claims res" where
  "verify_claims cr clk seg1 v =
     rbind (decodeSegment cr (\<lambda>j. dec_struct (claims_field cr) j claims0) seg1) (\<lambda>c.
       case checkClaims v (clk 4) c of Some e \<Rightarrow> Inl e | None \<Rightarrow> Inr c)"

definition check_header :: "jws_header \<Rightarrow> gerr option" where
  "check_header h =
     (if H_Alg h \<noteq> CredentialAlg then Some (ErrMsg ''alg not allowed'')
      else if H_Typ h \<noteq> CredentialType then Some (ErrMsg ''typ not allowed'')
      else if length (H_Crit h) > 0 then Some (ErrMsg ''crit header not supported'')
      else if H_Kid h = [] then Some (ErrMsg ''missing kid'')
      else None)"

definition jd_verify ::
    "crypto \<Rightarrow> http_outcome \<Rightarrow> (nat \<Rightarrow> time) \<Rightarrow> string \<Rightarrow> verifier \<Rightarrow> verifier \<times> claims res" where
  "jd_verify cr net clk token v = (case Split CHR ''.'' token of
       [seg0, seg1, seg2] \<Rightarrow>
         (case decodeSegment cr (\<lambda>j. dec_struct header_field j header0) seg0 of
            Inl e \<Rightarrow> (v, Inl e)
          | Inr h \<Rightarrow>
              (case check_header h of
                 Some e \<Rightarrow> (v, Inl e)
               | None \<Rightarrow>
                   (case RawURL_DecodeString seg2 of
                      None \<Rightarrow> (v, Inl (ErrMsg ''malformed ES256 signature''))
                    | Some sig \<Rightarrow>
                        if length sig \<noteq> 64 then (v, Inl (ErrMsg ''malformed ES256 signature''))
                        else (case verifier_key cr net clk (H_Kid h) v of
                            (v', Inl e) \<Rightarrow> (v', Inl e)
                          | (v', Inr key) \<Rightarrow>
                              if \<not> check_signature cr key seg0 seg1 sig then (v', Inl (ErrMsg ''bad signature''))
                              else (v', verify_claims cr clk seg1 v')))))
     | _ \<Rightarrow> (v, Inl (ErrMsg ''not a compact JWS'')))"

definition Verify ::
    "crypto \<Rightarrow> http_outcome \<Rightarrow> (nat \<Rightarrow> time) \<Rightarrow> string \<Rightarrow> verifier \<Rightarrow> verifier \<times> claims res" where
  "Verify cr net clk token v = (case jd_verify cr net clk token v of
       (v', Inl e) \<Rightarrow> (v', Inl ErrCredential)
     | (v', Inr c) \<Rightarrow> (v', Inr c))"

section \<open>Keys that may be used\<close>

lemma jd_contains_iff [simp]: "jd_contains xs s \<longleftrightarrow> s \<in> set xs"
  by (induction xs) auto

definition es256_key :: "crypto \<Rightarrow> pubkey \<Rightarrow> bool" where
  "es256_key cr p \<longleftrightarrow> (\<exists>x y. length x = 32 \<and> length y = 32 \<and> cr_point cr ([4] @ x @ y) = Some p)"

lemma publicKeyE:
  assumes "publicKey cr k = Inr p"
  shows "K_Kid k \<noteq> [] \<and> K_Kty k = ''EC'' \<and> K_Crv k = ''P-256'' \<and> K_Alg k \<in> {[], CredentialAlg} \<and>
    K_Use k \<in> {[], ''sig''} \<and> es256_key cr p"
  using assms by (auto simp: publicKey_def es256_key_def split: if_splits option.splits)

text \<open>What the cache may hold: keys of non-empty kids that were decoded as points of the curve.\<close>

definition keys_ok :: "crypto \<Rightarrow> (string \<rightharpoonup> pubkey) \<Rightarrow> bool" where
  "keys_ok cr ks \<longleftrightarrow> ks [] = None \<and> (\<forall>p \<in> ran ks. es256_key cr p)"

lemma keys_ok_parseJWKS: "keys_ok cr out \<Longrightarrow> keys_ok cr (parseJWKS cr ks out)"
proof (induction cr ks out rule: parseJWKS.induct)
  case (1 cr out)
  then show ?case by simp
next
  case (2 cr k ks out)
  show ?case
  proof (cases "publicKey cr k")
    case (Inl e)
    with 2 show ?thesis by simp
  next
    case (Inr p)
    from publicKeyE [OF Inr] "2.prems" have "keys_ok cr (out(K_Kid k \<mapsto> p))"
      by (auto simp: keys_ok_def ran_def split: if_splits)
    from "2.IH"(2) [OF Inr this] show ?thesis unfolding parseJWKS.simps Inr sum.case .
  qed
qed

lemma keys_ok_fetch: "fetch cr net = Inr ks \<Longrightarrow> keys_ok cr ks"
  by (auto simp: fetch_def keys_ok_def [of cr Map.empty] elim!: rbindE intro!: keys_ok_parseJWKS
      split: http_outcome.splits if_splits option.splits prod.splits)

lemma keys_ok_refetch: "keys_ok cr (vf_keys v) \<Longrightarrow> keys_ok cr (vf_keys (refetch cr net clk v))"
  by (auto simp: refetch_def Let_def dest: keys_ok_fetch split: sum.split)

section \<open>One verification step\<close>

text \<open>Whether the step may ask the network: the kid is unknown or the cache is stale, and the last
  attempt is not too recent.\<close>

definition fetches :: "(nat \<Rightarrow> time) \<Rightarrow> string \<Rightarrow> verifier \<Rightarrow> bool" where
  "fetches clk kid v \<longleftrightarrow>
     (vf_keys v kid = None \<or>
        (case vf_fetchedAt v of None \<Rightarrow> True | Some t \<Rightarrow> vf_refreshAfter v \<le> clk 0 - t)) \<and>
     (case vf_triedAt v of None \<Rightarrow> True | Some t \<Rightarrow> vf_minRefetch v \<le> clk 1 - t)"

definition after_fetch :: "crypto \<Rightarrow> http_outcome \<Rightarrow> (nat \<Rightarrow> time) \<Rightarrow> verifier \<Rightarrow> verifier" where
  "after_fetch cr net clk v = (case fetch cr net of
       Inl e \<Rightarrow> v\<lparr>vf_triedAt := Some (clk 2)\<rparr>
     | Inr ks \<Rightarrow> v\<lparr>vf_triedAt := Some (clk 2), vf_keys := ks, vf_fetchedAt := Some (clk 3)\<rparr>)"

lemma verifier_key_step:
  "verifier_key cr net clk kid v =
     (let v' = (if fetches clk kid v then after_fetch cr net clk v else v) in
      (v', case vf_keys v' kid of Some k \<Rightarrow> Inr k | None \<Rightarrow> Inl (ErrMsg ''unknown kid'')))"
  by (auto simp: verifier_key_def refetch_def fetches_def after_fetch_def Let_def
      split: option.split sum.split)

lemma verifier_key_frame:
  "verifier_key cr net clk kid v = (v', r) \<Longrightarrow> vf_issuer v' = vf_issuer v \<and> vf_minRefetch v' = vf_minRefetch v"
  by (auto simp: verifier_key_step Let_def after_fetch_def split: if_splits sum.splits)

lemma jd_verifyE:
  assumes "jd_verify cr net clk token v = (v', Inr c)"
  obtains seg0 seg1 seg2 h sig key where "Split CHR ''.'' token = [seg0, seg1, seg2]"
    and "decodeSegment cr (\<lambda>j. dec_struct header_field j header0) seg0 = Inr h"
    and "check_header h = None" and "RawURL_DecodeString seg2 = Some sig" and "length sig = 64"
    and "verifier_key cr net clk (H_Kid h) v = (v', Inr key)"
    and "check_signature cr key seg0 seg1 sig"
    and "decodeSegment cr (\<lambda>j. dec_struct (claims_field cr) j claims0) seg1 = Inr c"
    and "checkClaims v' (clk 4) c = None"
  using assms
  by (auto simp: jd_verify_def verify_claims_def elim!: rbindE split: list.splits sum.splits
      option.splits if_splits prod.splits)

section \<open>Properties\<close>

text \<open>A credential and the outside world of the witnesses: the texts h and c read as a header and
  as claims, every curve point decodes, and every signature is accepted.\<close>

definition sample_claims_json :: json where
  "sample_claims_json = JObj [(''iss'', JStr ''https://jd''), (''aud'', JArr [JStr ''other'', JStr ''jumpdrive-index'']),
     (''sub'', JStr ''kate''), (''jd_org'', JStr ''o''), (''jd_ws'', JStr ''w''), (''jd_access'', JStr ''full''),
     (''jd_spaces'', JObj [(''read'', JArr [JStr ''home'', JStr ''work'']), (''write'', JArr [JStr ''home'']), (''approve'', JArr [])]),
     (''jd_ver'', JNum ''1''), (''jti'', JStr ''j''), (''iat'', JNum ''100''), (''nbf'', JNum ''100''), (''exp'', JNum ''160'')]"

definition sample_header_json :: json where
  "sample_header_json = JObj [(''alg'', JStr ''ES256''), (''typ'', JStr ''jd-index+jwt''), (''kid'', JStr ''k1'')]"

definition sample_crypto :: crypto where
  "sample_crypto = \<lparr>cr_sha256 = (\<lambda>s. [word_of_nat (length s)]), cr_point = Some, cr_ecdsa = (\<lambda>_ _ _ _. True),
     cr_json = (\<lambda>s. if s = ''h'' then Some (sample_header_json, [])
        else if s = ''c'' then Some (sample_claims_json, [])
        else if s = ''c}'' then Some (sample_claims_json, ''}'') else None),
     cr_float = (\<lambda>s. map_option real_of_int (Atoi s)), cr_rfc3339 = (\<lambda>s. map_option (\<lambda>n. n * second) (Atoi s))\<rparr>"

definition sample_token :: string where
  "sample_token = ''aA.Yw.'' @ replicate 86 CHR ''A''"

definition sample_verifier :: verifier where
  "sample_verifier = \<lparr>vf_jwksURL = ''https://jd/jwks.json'', vf_issuer = ''https://jd'',
     vf_minRefetch = 10 * second, vf_refreshAfter = 300 * second, vf_keys = [''k1'' \<mapsto> [4]],
     vf_fetchedAt = Some (100 * second), vf_triedAt = Some (100 * second)\<rparr>"

text \<open>C16: A credential is accepted only in the pinned form: three segments, a header with algorithm
  ES256, the fixed type, no crit and a kid; a 64-byte signature over the first two segments that
  verifies under the key cached for that kid; and claims that pass every check at the reading of
  the clock.\<close>

theorem Verify_accepts_only_pinned:
  assumes "Verify cr net clk token v = (v', Inr c)"
  shows "\<exists>seg0 seg1 seg2 h sig key. token = seg0 @ ''.'' @ seg1 @ ''.'' @ seg2 \<and>
    decodeSegment cr (\<lambda>j. dec_struct header_field j header0) seg0 = Inr h \<and>
    H_Alg h = ''ES256'' \<and> H_Typ h = ''jd-index+jwt'' \<and> H_Crit h = [] \<and>
    vf_keys v' (H_Kid h) = Some key \<and>
    RawURL_DecodeString seg2 = Some sig \<and> length sig = 64 \<and>
    cr_ecdsa cr key (cr_sha256 cr (seg0 @ ''.'' @ seg1)) (SetBytes (take 32 sig)) (SetBytes (drop 32 sig)) \<and>
    decodeSegment cr (\<lambda>j. dec_struct (claims_field cr) j claims0) seg1 = Inr c \<and>
    checkClaims v (clk 4) c = None"
proof -
  from assms have "jd_verify cr net clk token v = (v', Inr c)"
    by (auto simp: Verify_def split: prod.splits sum.splits)
  then obtain seg0 seg1 seg2 h sig key where s: "Split CHR ''.'' token = [seg0, seg1, seg2]"
    and h: "decodeSegment cr (\<lambda>j. dec_struct header_field j header0) seg0 = Inr h" "check_header h = None"
    and sig: "RawURL_DecodeString seg2 = Some sig" "length sig = 64"
    and key: "verifier_key cr net clk (H_Kid h) v = (v', Inr key)"
    and ok: "check_signature cr key seg0 seg1 sig"
    and c: "decodeSegment cr (\<lambda>j. dec_struct (claims_field cr) j claims0) seg1 = Inr c" "checkClaims v' (clk 4) c = None"
    by (rule jd_verifyE) blast
  from s have "token = seg0 @ ''.'' @ seg1 @ ''.'' @ seg2" using Join_Split [of "CHR ''.''" token] by simp
  moreover from key have "vf_keys v' (H_Kid h) = Some key"
    by (auto simp: verifier_key_step Let_def split: option.splits)
  moreover from verifier_key_frame [OF key] c(2) have "checkClaims v (clk 4) c = None"
    by (simp add: checkClaims_def)
  ultimately show ?thesis
    using h sig ok c(1)
    by (intro exI [of _ seg0] exI [of _ seg1] exI [of _ seg2] exI [of _ h] exI [of _ sig] exI [of _ key])
       (auto simp: check_header_def check_signature_def split: if_splits)
qed

theorem Verify_accepts_only_pinned_witness:
  "case Verify sample_crypto HttpFailed (\<lambda>_. 120 * second) sample_token sample_verifier of
     (v', Inr c) \<Rightarrow> C_Subject c = ''kate'' \<and> checkClaims sample_verifier (120 * second) c = None
   | _ \<Rightarrow> False"
proof -
  have e: "case Verify sample_crypto HttpFailed (\<lambda>_. 120 * second) sample_token sample_verifier of
     (v', Inr c) \<Rightarrow> C_Subject c = ''kate'' | _ \<Rightarrow> False" by code_simp
  then obtain v' c where v: "Verify sample_crypto HttpFailed (\<lambda>_. 120 * second) sample_token sample_verifier = (v', Inr c)"
    by (auto split: prod.splits sum.splits)
  from e Verify_accepts_only_pinned [OF v] show ?thesis by (auto simp: v)
qed

text \<open>The claims check accepts exactly the credentials for this index and issuer, of the known
  version and access, with all identifying claims and the three space sets, from 30 seconds
  before nbf to 30 seconds after exp.\<close>

theorem checkClaims_iff:
  "checkClaims v now c = None \<longleftrightarrow>
     C_Issuer c = vf_issuer v \<and> ''jumpdrive-index'' \<in> set (C_Audience c) \<and> C_Version c = 1 \<and>
     C_Subject c \<noteq> [] \<and> C_Org c \<noteq> [] \<and> C_Ws c \<noteq> [] \<and> C_JTI c \<noteq> [] \<and>
     C_Access c \<in> {''read'', ''full''} \<and>
     (\<exists>r w a. C_Spaces c = \<lparr>JS_Read = Some r, JS_Write = Some w, JS_Approve = Some a\<rparr>) \<and>
     (\<exists>iat nbf expires. C_IssuedAt c = Some iat \<and> C_NotEarly c = Some nbf \<and> C_Expires c = Some expires \<and>
        nbf - 30 * second \<le> now \<and> now \<le> expires + 30 * second)"
proof -
  have s: "(\<exists>r w a. C_Spaces c = \<lparr>JS_Read = Some r, JS_Write = Some w, JS_Approve = Some a\<rparr>) \<longleftrightarrow>
      \<not> (JS_Read (C_Spaces c) = None \<or> JS_Write (C_Spaces c) = None \<or> JS_Approve (C_Spaces c) = None)"
    by (cases "C_Spaces c") auto
  show ?thesis unfolding s
    by (auto simp: checkClaims_def MaxClockSkew_def split: option.splits)
qed

text \<open>The key cache. A step consults the network only for an unknown kid or a stale cache, and not
  within the refetch interval of the last attempt; what it then answers is the key the cache
  holds for the kid. A failed fetch leaves the keys in place, so a known kid keeps verifying in an
  outage and an unknown one is refused; a successful one replaces all keys, so a withdrawn key
  stops verifying.\<close>

theorem verifier_key_exact:
  "verifier_key cr net clk kid v =
    (let v' = (if fetches clk kid v
        then (case fetch cr net of
            Inl e \<Rightarrow> v\<lparr>vf_triedAt := Some (clk 2)\<rparr>
          | Inr ks \<Rightarrow> v\<lparr>vf_triedAt := Some (clk 2), vf_keys := ks, vf_fetchedAt := Some (clk 3)\<rparr>)
        else v) in
     (v', case vf_keys v' kid of Some k \<Rightarrow> Inr k | None \<Rightarrow> Inl (ErrMsg ''unknown kid'')))"
  by (simp add: verifier_key_step after_fetch_def)

text \<open>Only ES256 keys are ever cached: verification keeps the invariant that the cache maps
  non-empty kids to points that were decoded from 32-byte coordinates.\<close>

theorem Verify_keeps_keys:
  assumes "keys_ok cr (vf_keys v)"
  shows "keys_ok cr (vf_keys (fst (Verify cr net clk token v)))"
proof -
  have k: "keys_ok cr (vf_keys (fst (verifier_key cr net clk kid v)))" for kid
    using assms by (auto simp: verifier_key_step Let_def after_fetch_def dest: keys_ok_fetch split: sum.split)
  have "vf_keys (fst (jd_verify cr net clk token v)) = vf_keys v \<or>
      (\<exists>kid. vf_keys (fst (jd_verify cr net clk token v)) = vf_keys (fst (verifier_key cr net clk kid v)))"
    by (auto simp: jd_verify_def split: list.split sum.split option.split prod.split) (metis fst_conv)+
  with k assms show ?thesis by (auto simp: Verify_def split: prod.splits sum.splits)
qed

theorem Verify_keeps_keys_witness:
  "keys_ok sample_crypto (vf_keys (fst (Verify sample_crypto HttpFailed (\<lambda>_. 900 * second) sample_token
     (sample_verifier\<lparr>vf_keys := Map.empty\<rparr>))))"
  by (rule Verify_keeps_keys) (simp add: keys_ok_def)

text \<open>A segment is not free of trailing data: text that starts with a closing brace or bracket
  after the JSON value is accepted, because the decoder's More answers no there.\<close>

theorem decodeSegment_trailing_brace:
  "decodeSegment sample_crypto (\<lambda>j. Inr j) ''Y30'' = Inr sample_claims_json \<and>
   cr_json sample_crypto ''c}'' = Some (sample_claims_json, ''}'') \<and>
   map_option bytes_text (RawURL_DecodeString ''Y30'') = Some ''c}''"
  by code_simp

end
