(* ===== verification/Jdx_Jumpdrive.thy ===== *)
theory Jdx_Jumpdrive
  imports Jdx_Verifier Jdx_Starchart
begin

text \<open>
  The hosted access model of \<open>internal/access/jumpdrive/jumpdrive.go\<close>: the principal comes from a
  credential that is verified locally, by asking the control plane, or both. A model value holds
  the two pieces of mutable state, the verifier and the decision cache; the operations return it
  updated, with the mismatches they log.
\<close>

section \<open>Configuration\<close>

datatype verify_mode = VerifyJWKS | VerifyAuthorize | VerifyDual | VerifyOther string

abbreviation AuthorizeContract :: string where "AuthorizeContract \<equiv> ''jumpdrive-authorize/v1''"
abbreviation AuthorizeErrServiceSecret :: string where
  "AuthorizeErrServiceSecret \<equiv> ''invalid_service_secret''"

text \<open>The cache list has the most recently used entry first; the Go map only indexes it.\<close>

type_synonym cache_key = "byte list"
type_synonym cache_entry = "cache_key \<times> decision \<times> time"

record decision_cache =
  dc_max :: nat
  dc_ll :: "cache_entry list"

definition newDecisionCache :: "int \<Rightarrow> decision_cache" where
  "newDecisionCache n = \<lparr>dc_max = nat (if n \<le> 0 then 1024 else n), dc_ll = []\<rparr>"

record jd_config =
  JC_BaseURL :: string
  JC_SharedSecret :: string
  JC_Mode :: verify_mode
  JC_Issuer :: string
  JC_RestrictedDenyTypes :: "etype list"
  JC_CacheSize :: int
  JC_Verifier :: "verifier option"

record jd_model =
  jm_baseURL :: string
  jm_secret :: string
  jm_mode :: verify_mode
  jm_denyTypes :: "etype list"
  jm_verifier :: "verifier option"
  jm_cache :: decision_cache

definition jd_New :: "jd_config \<Rightarrow> jd_model res" where
  "jd_New cfg =
     (if JC_BaseURL cfg = [] then Inl ErrConfig
      else (case JC_Mode cfg of
          VerifyOther _ \<Rightarrow> Inl ErrConfig
        | mode \<Rightarrow>
            if mode \<noteq> VerifyJWKS \<and> JC_SharedSecret cfg = [] then Inl ErrConfig
            else
              let base = TrimRight (JC_BaseURL cfg) {CHR ''/''};
                  m = \<lparr>jm_baseURL = base, jm_secret = JC_SharedSecret cfg, jm_mode = mode,
                    jm_denyTypes = JC_RestrictedDenyTypes cfg, jm_verifier = None,
                    jm_cache = newDecisionCache (JC_CacheSize cfg)\<rparr> in
              if mode \<noteq> VerifyAuthorize then
                (case JC_Verifier cfg of
                   Some v \<Rightarrow> Inr (m\<lparr>jm_verifier := Some v\<rparr>)
                 | None \<Rightarrow> rbind (NewVerifier \<lparr>VC_JWKSURL = base @ ''/jwks.json'', VC_Issuer = JC_Issuer cfg,
                     VC_MinRefetchInterval = 0, VC_RefreshAfter = 0\<rparr>)
                     (\<lambda>v. Inr (m\<lparr>jm_verifier := Some v\<rparr>)))
              else Inr m))"

section \<open>The decision cache\<close>

fun cache_find :: "cache_key \<Rightarrow> cache_entry list \<Rightarrow> (decision \<times> time) option" where
  "cache_find k [] = None"
| "cache_find k ((k', e) # es) = (if k' = k then Some e else cache_find k es)"

definition cache_remove :: "cache_key \<Rightarrow> cache_entry list \<Rightarrow> cache_entry list" where
  "cache_remove k es = filter (\<lambda>e. fst e \<noteq> k) es"

definition cache_get :: "cache_key \<Rightarrow> time \<Rightarrow> decision_cache \<Rightarrow> decision_cache \<times> decision option" where
  "cache_get k now c = (case cache_find k (dc_ll c) of
       None \<Rightarrow> (c, None)
     | Some (d, until) \<Rightarrow>
         if \<not> now < until then (c\<lparr>dc_ll := cache_remove k (dc_ll c)\<rparr>, None)
         else (c\<lparr>dc_ll := (k, d, until) # cache_remove k (dc_ll c)\<rparr>, Some d))"

text \<open>\<open>for c.ll.Len() > c.max\<close>: drop the last element.\<close>

fun evict :: "nat \<Rightarrow> cache_entry list \<Rightarrow> cache_entry list" where
  "evict n es = (if length es > n then evict n (butlast es) else es)"

definition cache_put :: "cache_key \<Rightarrow> decision \<Rightarrow> time \<Rightarrow> decision_cache \<Rightarrow> decision_cache" where
  "cache_put k d until c = (case cache_find k (dc_ll c) of
       Some _ \<Rightarrow> c\<lparr>dc_ll := (k, d, until) # cache_remove k (dc_ll c)\<rparr>
     | None \<Rightarrow> c\<lparr>dc_ll := evict (dc_max c) ((k, d, until) # dc_ll c)\<rparr>)"

section \<open>How long a decision may be reused\<close>

text \<open>The loop over the directives; \<open>None\<close> is its early return on no-store or no-cache.\<close>

fun max_age :: "string list \<Rightarrow> int \<Rightarrow> int option" where
  "max_age [] n = Some n"
| "max_age (x # xs) n = (let dir = ToLower (TrimSpace x) in
     if dir = ''no-store'' \<or> dir = ''no-cache'' then None
     else if HasPrefix dir ''max-age='' then
       (case Atoi (TrimPrefix dir ''max-age='') of
          Some m \<Rightarrow> max_age xs (if m \<ge> 0 then m else n)
        | None \<Rightarrow> max_age xs n)
     else max_age xs n)"

text \<open>\<open>time.Duration(maxAge) * time.Second\<close> is an int64 product and wraps.\<close>

definition seconds_duration :: "int \<Rightarrow> time" where
  "seconds_duration n = sint (word_of_int (n * second) :: 64 word)"

definition cacheUntil :: "crypto \<Rightarrow> time \<Rightarrow> string \<Rightarrow> string \<Rightarrow> time option" where
  "cacheUntil cr now cacheControl expiresAt = (case max_age (Split CHR '','' cacheControl) (-1) of
       None \<Rightarrow> None
     | Some maxAge \<Rightarrow>
         if maxAge \<le> 0 then None
         else (case cr_rfc3339 cr expiresAt of
             None \<Rightarrow> None
           | Some expires \<Rightarrow>
               let until = now + seconds_duration maxAge;
                   until' = (if expires < until then expires else until) in
               if \<not> now < until' then None else Some until'))"

section \<open>Sets of spaces\<close>

fun intersect_from :: "space_id list \<Rightarrow> space_id list \<Rightarrow> space_id list \<Rightarrow> space_id list" where
  "intersect_from out [] b = out"
| "intersect_from out (s # a) b =
     intersect_from (if ContainsSpace b s \<and> \<not> ContainsSpace out s then out @ [s] else out) a b"

definition jd_intersect :: "space_id list \<Rightarrow> space_id list \<Rightarrow> space_id list" where
  "jd_intersect a b = intersect_from [] a b"

definition sameSet :: "space_id list \<Rightarrow> space_id list \<Rightarrow> bool" where
  "sameSet a b \<longleftrightarrow> remdups_adj (sort a) = remdups_adj (sort b)"

definition toSpaces :: "string list \<Rightarrow> space_id list" where
  "toSpaces xs = filter (\<lambda>s. s \<noteq> []) xs"

definition ProvenanceSource :: "string \<Rightarrow> string \<Rightarrow> string \<Rightarrow> string \<Rightarrow> string" where
  "ProvenanceSource org ws jti client = ''jumpdrive'' @
     concat (map (\<lambda>(k, v). if v \<noteq> [] then '';'' @ k @ ''='' @ v else [])
       [(''jd_org'', org), (''jd_ws'', ws), (''jti'', jti), (''jd_client'', client)])"

section \<open>The two ways to a decision\<close>

datatype jd_log = LogSecretRejected
  | LogJwksRejected principal_id
  | LogAuthorizeRejected principal_id string
  | LogPrincipalMismatch principal_id principal_id string
  | LogSpacesMismatch string principal_id string "space_id list" "space_id list"
  | LogRestrictedMismatch principal_id string

definition option_list :: "string list option \<Rightarrow> string list" where
  "option_list x = (case x of None \<Rightarrow> [] | Some xs \<Rightarrow> xs)"

definition decisionFromClaims :: "claims \<Rightarrow> decision" where
  "decisionFromClaims c = \<lparr>Principal = \<lparr>P_ID = C_Subject c,
       P_Spaces = toSpaces (option_list (JS_Read (C_Spaces c))),
       P_WriteSpaces = toSpaces (option_list (JS_Write (C_Spaces c))),
       P_ApproverSpaces = toSpaces (option_list (JS_Approve (C_Spaces c))), P_Restricted = False\<rparr>,
     Lenses = [], D_Source = ProvenanceSource (C_Org c) (C_Ws c) (C_JTI c) (C_Client c)\<rparr>"

text \<open>The world one call sees: the answers to the JWKS fetch and to the authorize request, the clock.\<close>

record jd_world =
  jw_jwks :: http_outcome
  jw_authorize :: http_outcome
  jw_clk :: "nat \<Rightarrow> time"

definition authenticateJWKS :: "crypto \<Rightarrow> jd_world \<Rightarrow> string \<Rightarrow> jd_model \<Rightarrow> jd_model \<times> decision res" where
  "authenticateJWKS cr w bearer m = (case jm_verifier m of
       None \<Rightarrow> (m, Inl ErrUnauthenticated)
     | Some v \<Rightarrow>
         (case Verify cr (jw_jwks w) (jw_clk w) bearer v of
            (v', Inl e) \<Rightarrow> (m\<lparr>jm_verifier := Some v'\<rparr>, Inl ErrUnauthenticated)
          | (v', Inr c) \<Rightarrow> (m\<lparr>jm_verifier := Some v'\<rparr>, Inr (decisionFromClaims c))))"

record authorize_response =
  AR_Contract :: string
  AR_PrincipalID :: string
  AR_Spaces :: "string list"
  AR_WriteSpaces :: "string list"
  AR_ApproverSpaces :: "string list"
  AR_Restricted :: bool
  AR_OrgID :: string
  AR_WorkspaceID :: string
  AR_Access :: string
  AR_ExpiresAt :: string

definition response0 :: authorize_response where
  "response0 = \<lparr>AR_Contract = [], AR_PrincipalID = [], AR_Spaces = [], AR_WriteSpaces = [],
     AR_ApproverSpaces = [], AR_Restricted = False, AR_OrgID = [], AR_WorkspaceID = [], AR_Access = [],
     AR_ExpiresAt = []\<rparr>"

definition response_field :: "string \<Rightarrow> json \<Rightarrow> authorize_response \<Rightarrow> authorize_response res" where
  "response_field k v r =
     (if k = ''contract'' then upd (\<lambda>x. AR_Contract_update (\<lambda>_. x)) (dec_string v (AR_Contract r)) r
      else if k = ''principal_id'' then upd (\<lambda>x. AR_PrincipalID_update (\<lambda>_. x)) (dec_string v (AR_PrincipalID r)) r
      else if k = ''spaces'' then upd (\<lambda>x. AR_Spaces_update (\<lambda>_. x)) (dec_strings v) r
      else if k = ''write_spaces'' then upd (\<lambda>x. AR_WriteSpaces_update (\<lambda>_. x)) (dec_strings v) r
      else if k = ''approver_spaces'' then upd (\<lambda>x. AR_ApproverSpaces_update (\<lambda>_. x)) (dec_strings v) r
      else if k = ''restricted'' then upd (\<lambda>x. AR_Restricted_update (\<lambda>_. x)) (dec_bool v (AR_Restricted r)) r
      else if k = ''org_id'' then upd (\<lambda>x. AR_OrgID_update (\<lambda>_. x)) (dec_string v (AR_OrgID r)) r
      else if k = ''workspace_id'' then upd (\<lambda>x. AR_WorkspaceID_update (\<lambda>_. x)) (dec_string v (AR_WorkspaceID r)) r
      else if k = ''access'' then upd (\<lambda>x. AR_Access_update (\<lambda>_. x)) (dec_string v (AR_Access r)) r
      else if k = ''expires_at'' then upd (\<lambda>x. AR_ExpiresAt_update (\<lambda>_. x)) (dec_string v (AR_ExpiresAt r)) r
      else Inr r)"

text \<open>The error code of a refusal; a body that does not decode leaves it empty.\<close>

definition authorize_error_code :: "crypto \<Rightarrow> http_response \<Rightarrow> string" where
  "authorize_error_code cr resp = (case cr_json cr (limit_1MiB (HR_Body resp)) of
       Some (JObj kvs, _) \<Rightarrow>
         foldl (\<lambda>a (k, v). if ToLower k = ''error'' then (case v of JStr s \<Rightarrow> s | _ \<Rightarrow> a) else a) [] kvs
     | _ \<Rightarrow> [])"

definition decisionFromResponse :: "authorize_response \<Rightarrow> decision" where
  "decisionFromResponse ar = \<lparr>Principal = \<lparr>P_ID = AR_PrincipalID ar, P_Spaces = toSpaces (AR_Spaces ar),
       P_WriteSpaces = toSpaces (AR_WriteSpaces ar), P_ApproverSpaces = toSpaces (AR_ApproverSpaces ar),
       P_Restricted = AR_Restricted ar\<rparr>,
     Lenses = [], D_Source = ProvenanceSource (AR_OrgID ar) (AR_WorkspaceID ar) [] []\<rparr>"

definition read_authorize_response :: "crypto \<Rightarrow> http_response \<Rightarrow> authorize_response res" where
  "read_authorize_response cr resp = (case cr_json cr (limit_1MiB (HR_Body resp)) of
       None \<Rightarrow> Inl ErrAuthorizer
     | Some (j, _) \<Rightarrow>
         (case dec_struct response_field j response0 of
            Inl e \<Rightarrow> Inl ErrAuthorizer
          | Inr ar \<Rightarrow>
              if AR_Contract ar \<noteq> AuthorizeContract then Inl ErrAuthorizer
              else if AR_PrincipalID ar = [] then Inl ErrUnauthenticated
              else Inr ar))"

definition authorize ::
    "crypto \<Rightarrow> jd_world \<Rightarrow> string \<Rightarrow> jd_model \<Rightarrow> jd_model \<times> jd_log list \<times> decision res" where
  "authorize cr w bearer m =
     (let key = cr_sha256 cr bearer;
          (c1, hit) = cache_get key (jw_clk w 5) (jm_cache m);
          m1 = m\<lparr>jm_cache := c1\<rparr> in
      case hit of
        Some d \<Rightarrow> (m1, [], Inr d)
      | None \<Rightarrow>
          (case jw_authorize w of
             HttpNoRequest \<Rightarrow> (m1, [], Inl ErrRequest)
           | HttpFailed \<Rightarrow> (m1, [], Inl ErrAuthorizer)
           | HttpResponse resp \<Rightarrow>
               if HR_Status resp = 401 \<or> HR_Status resp = 403 then
                 (m1, if authorize_error_code cr resp = AuthorizeErrServiceSecret then [LogSecretRejected] else [],
                  Inl ErrUnauthenticated)
               else if HR_Status resp \<noteq> 200 then (m1, [], Inl ErrAuthorizer)
               else (case read_authorize_response cr resp of
                   Inl e \<Rightarrow> (m1, [], Inl e)
                 | Inr ar \<Rightarrow>
                     let d = decisionFromResponse ar in
                     (case cacheUntil cr (jw_clk w 6) (HR_CacheControl resp) (AR_ExpiresAt ar) of
                        None \<Rightarrow> (m1, [], Inr d)
                      | Some until \<Rightarrow> (m1\<lparr>jm_cache := cache_put key d until c1\<rparr>, [], Inr d)))))"

definition dual_decision :: "decision \<Rightarrow> decision \<Rightarrow> decision" where
  "dual_decision jd ad =
     (let j = Principal jd; a = Principal ad in
      jd\<lparr>Principal := j\<lparr>P_Spaces := jd_intersect (P_Spaces j) (P_Spaces a),
         P_WriteSpaces := jd_intersect (P_WriteSpaces j) (P_WriteSpaces a),
         P_ApproverSpaces := jd_intersect (P_ApproverSpaces j) (P_ApproverSpaces a),
         P_Restricted := (P_Restricted j \<or> P_Restricted a)\<rparr>\<rparr>)"

definition dual_logs :: "decision \<Rightarrow> decision \<Rightarrow> jd_log list" where
  "dual_logs jd ad =
     (let j = Principal jd; a = Principal ad in
      concat (map (\<lambda>(name, x, y). if \<not> sameSet x y
           then [LogSpacesMismatch name (P_ID j) (D_Source jd) x y] else [])
        [(''read'', P_Spaces j, P_Spaces a), (''write'', P_WriteSpaces j, P_WriteSpaces a),
         (''approve'', P_ApproverSpaces j, P_ApproverSpaces a)]) @
      (if (P_Restricted j \<or> P_Restricted a) \<noteq> P_Restricted j
       then [LogRestrictedMismatch (P_ID j) (D_Source jd)] else []))"

definition authenticateDual ::
    "crypto \<Rightarrow> jd_world \<Rightarrow> string \<Rightarrow> jd_model \<Rightarrow> jd_model \<times> jd_log list \<times> decision res" where
  "authenticateDual cr w bearer m =
     (let (m1, jr) = authenticateJWKS cr w bearer m; (m2, logs, ar) = authorize cr w bearer m1 in
      case (jr, ar) of
        (Inl jerr, Inl _) \<Rightarrow> (m2, logs, Inl jerr)
      | (Inl jerr, Inr ad) \<Rightarrow> (m2, logs @ [LogJwksRejected (P_ID (Principal ad))], Inl jerr)
      | (Inr jd, Inl aerr) \<Rightarrow>
          (m2, logs @ (if err_is aerr ErrUnauthenticated
              then [LogAuthorizeRejected (P_ID (Principal jd)) (D_Source jd)] else []), Inl aerr)
      | (Inr jd, Inr ad) \<Rightarrow>
          if P_ID (Principal jd) \<noteq> P_ID (Principal ad) then
            (m2, logs @ [LogPrincipalMismatch (P_ID (Principal jd)) (P_ID (Principal ad)) (D_Source jd)],
             Inl ErrUnauthenticated)
          else (m2, logs @ dual_logs jd ad, Inr (dual_decision jd ad)))"

definition jd_Authenticate ::
    "crypto \<Rightarrow> jd_world \<Rightarrow> string \<Rightarrow> jd_model \<Rightarrow> jd_model \<times> jd_log list \<times> decision res" where
  "jd_Authenticate cr w bearer m =
     (if bearer = [] then (m, [], Inl ErrUnauthenticated)
      else (case jm_mode m of
          VerifyJWKS \<Rightarrow> (case authenticateJWKS cr w bearer m of (m', r) \<Rightarrow> (m', [], r))
        | VerifyAuthorize \<Rightarrow> authorize cr w bearer m
        | _ \<Rightarrow> authenticateDual cr w bearer m))"

section \<open>The ACL methods\<close>

definition jd_FilterFor :: "jd_model \<Rightarrow> decision \<Rightarrow> acl_filter" where
  "jd_FilterFor m d =
     (let f = \<lparr>F_Principal = P_ID (Principal d), F_Spaces = P_Spaces (Principal d),
        F_Restricted = P_Restricted (Principal d), F_DenyTypes = [], F_AllowPublic = True\<rparr>
      in if P_Restricted (Principal d) then f\<lparr>F_DenyTypes := jm_denyTypes m\<rparr> else f)"

definition jd_CanRead :: "jd_model \<Rightarrow> decision \<Rightarrow> guarded \<Rightarrow> bool" where
  "jd_CanRead m d g =
     (if P_Restricted (Principal d) \<and> containsType (jm_denyTypes m) (G_Type g) then False
      else (case G_Visibility g of
          VisPublic \<Rightarrow> True
        | VisSpace \<Rightarrow> ContainsSpace (P_Spaces (Principal d)) (G_Space g)
        | VisPrivate \<Rightarrow> G_Owner g = P_ID (Principal d)
        | VisOther _ \<Rightarrow> False))"

definition jd_CanWrite :: "jd_model \<Rightarrow> decision \<Rightarrow> space_id \<Rightarrow> bool" where
  "jd_CanWrite m d space = ContainsSpace (P_WriteSpaces (Principal d)) space"

definition jd_CanApprove :: "jd_model \<Rightarrow> decision \<Rightarrow> space_id \<Rightarrow> bool" where
  "jd_CanApprove m d space = ContainsSpace (P_ApproverSpaces (Principal d)) space"

interpretation jd: access_model "jd_FilterFor m" "jd_CanRead m" "jd_CanWrite m" "jd_CanApprove m" for m
  by unfold_locales
     (auto simp: Let_def jd_FilterFor_def jd_CanRead_def jd_CanWrite_def jd_CanApprove_def accessWhere_iff
       visible_spec_def split: visibility.split)

section \<open>Stores whose entries expire\<close>

text \<open>The contract of the decision cache: a lookup answers with an entry of the store that has not
  expired, no operation invents an entry, and a put changes only its own key.\<close>

datatype ('k, 'v) store_op = OpGet 'k time | OpPut 'k 'v time

fun store_run :: "('k \<Rightarrow> time \<Rightarrow> 's \<Rightarrow> 's \<times> 'v option) \<Rightarrow> ('k \<Rightarrow> 'v \<Rightarrow> time \<Rightarrow> 's \<Rightarrow> 's) \<Rightarrow>
    ('k, 'v) store_op list \<Rightarrow> 's \<Rightarrow> 's" where
  "store_run get put [] s = s"
| "store_run get put (OpGet k t # ops) s = store_run get put ops (fst (get k t s))"
| "store_run get put (OpPut k v u # ops) s = store_run get put ops (put k v u s)"

fun latest :: "('k \<rightharpoonup> 'v \<times> time) \<Rightarrow> ('k, 'v) store_op list \<Rightarrow> ('k \<rightharpoonup> 'v \<times> time)" where
  "latest m [] = m"
| "latest m (OpGet k t # ops) = latest m ops"
| "latest m (OpPut k v u # ops) = latest (m(k \<mapsto> (v, u))) ops"

locale expiring_store =
  fixes get :: "'k \<Rightarrow> time \<Rightarrow> 's \<Rightarrow> 's \<times> 'v option"
    and put :: "'k \<Rightarrow> 'v \<Rightarrow> time \<Rightarrow> 's \<Rightarrow> 's"
    and view :: "'s \<Rightarrow> ('k \<rightharpoonup> 'v \<times> time)"
    and ok :: "'s \<Rightarrow> bool"
  assumes get_ok: "ok s \<Longrightarrow> ok (fst (get k t s))"
    and put_ok: "ok s \<Longrightarrow> ok (put k v u s)"
    and get_view: "ok s \<Longrightarrow> view (fst (get k t s)) \<subseteq>\<^sub>m view s"
    and put_view: "ok s \<Longrightarrow> view (put k v u s) \<subseteq>\<^sub>m (view s)(k \<mapsto> (v, u))"
    and get_hit: "ok s \<Longrightarrow> snd (get k t s) = Some v \<Longrightarrow> \<exists>u. view s k = Some (v, u) \<and> t < u"
begin

lemma run_ok: "ok s \<Longrightarrow> ok (store_run get put ops s)"
proof (induction ops arbitrary: s)
  case Nil
  then show ?case by simp
next
  case (Cons op ops)
  then show ?case by (cases op) (simp_all add: get_ok put_ok)
qed

lemma run_latest: "ok s \<Longrightarrow> view s \<subseteq>\<^sub>m m \<Longrightarrow> view (store_run get put ops s) \<subseteq>\<^sub>m latest m ops"
proof (induction m ops arbitrary: s rule: latest.induct)
  case (1 m)
  then show ?case by simp
next
  case (2 m k t ops)
  from get_view [OF "2.prems"(1), of k t] "2.prems"(2) have "view (fst (get k t s)) \<subseteq>\<^sub>m m"
    by (rule map_le_trans)
  with "2.IH" "2.prems"(1) show ?case by (simp add: get_ok)
next
  case (3 m k v u ops)
  have "view (put k v u s) \<subseteq>\<^sub>m m(k \<mapsto> (v, u))"
    using put_view [OF "3.prems"(1), of k v u] map_le_upd [OF "3.prems"(2)] by (rule map_le_trans)
  from "3.IH" [OF put_ok [OF "3.prems"(1)] this] show ?case unfolding store_run.simps latest.simps .
qed

lemma hit_is_latest:
  assumes "ok s" and "view s = Map.empty" and "snd (get k t (store_run get put ops s)) = Some v"
  shows "\<exists>u. latest Map.empty ops k = Some (v, u) \<and> t < u"
proof -
  from get_hit [OF run_ok [OF assms(1)] assms(3)] obtain u where
    u: "view (store_run get put ops s) k = Some (v, u)" "t < u" by blast
  have "view (store_run get put ops s) \<subseteq>\<^sub>m latest Map.empty ops"
    using run_latest [OF assms(1), of Map.empty] assms(2) by simp
  with u show ?thesis by (metis domI map_le_def)
qed

end

declare evict.simps [simp del]

lemma evict_take: "evict n es = take n es"
proof (induction n es rule: evict.induct)
  case (1 n es)
  show ?case
  proof (cases "length es > n")
    case True
    with 1 show ?thesis by (subst evict.simps) (simp add: take_butlast)
  next
    case False
    then show ?thesis by (subst evict.simps) simp
  qed
qed

lemma cache_find_map_of: "cache_find k es = map_of es k"
  by (induction k es rule: cache_find.induct) simp_all

lemma map_of_cache_remove: "map_of (cache_remove k es) x = (if x = k then None else map_of es x)"
  by (induction es) (auto simp: cache_remove_def)

lemma map_of_take: "map_of (take n es) \<subseteq>\<^sub>m map_of es"
proof (induction es arbitrary: n)
  case Nil
  then show ?case by simp
next
  case (Cons e es)
  show ?case
  proof (cases n)
    case 0
    then show ?thesis by simp
  next
    case (Suc j)
    have "(map_of (take j es))(fst e \<mapsto> snd e) \<subseteq>\<^sub>m (map_of es)(fst e \<mapsto> snd e)"
      by (rule map_le_upd [OF Cons.IH])
    with Suc show ?thesis by (cases e) (simp del: fun_upd_apply)
  qed
qed

definition cache_ok :: "decision_cache \<Rightarrow> bool" where
  "cache_ok c \<longleftrightarrow> distinct (map fst (dc_ll c)) \<and> length (dc_ll c) \<le> dc_max c"

lemma length_cache_remove:
  "k \<in> fst ` set es \<Longrightarrow> Suc (length (cache_remove k es)) \<le> length es"
  by (auto simp: cache_remove_def Suc_le_eq intro: length_filter_less)

lemma cache_remove_keys: "fst ` set (cache_remove k es) = fst ` set es - {k}"
  by (auto simp: cache_remove_def)

lemma distinct_cache_remove: "distinct (map fst es) \<Longrightarrow> distinct (map fst (cache_remove k es))"
  by (simp add: cache_remove_def distinct_map_filter)

lemma cache_find_Some_key: "cache_find k es = Some e \<Longrightarrow> k \<in> fst ` set es"
  by (induction k es rule: cache_find.induct) (auto split: if_splits)

lemma cache_ok_get: "cache_ok c \<Longrightarrow> cache_ok (fst (cache_get k now c))"
  by (cases "cache_find k (dc_ll c)")
     (auto simp: cache_ok_def cache_get_def distinct_cache_remove cache_remove_keys split: prod.split
       dest!: cache_find_Some_key length_cache_remove)

lemma cache_ok_put:
  assumes "cache_ok c"
  shows "cache_ok (cache_put k d u c)"
proof (cases "cache_find k (dc_ll c)")
  case None
  then have "k \<notin> fst ` set (dc_ll c)" by (simp add: cache_find_map_of map_of_eq_None_iff)
  with assms have "distinct (map fst ((k, d, u) # dc_ll c))" by (simp add: cache_ok_def)
  then have "distinct (take (dc_max c) (map fst ((k, d, u) # dc_ll c)))" by (rule distinct_take)
  with None show ?thesis by (simp only: cache_ok_def cache_put_def evict_take option.case) (simp flip: take_map)
next
  case (Some e)
  from length_cache_remove [OF cache_find_Some_key [OF Some]] assms Some show ?thesis
    by (auto simp: cache_ok_def cache_put_def distinct_cache_remove cache_remove_keys)
qed

interpretation cache: expiring_store cache_get cache_put "\<lambda>c. map_of (dc_ll c)" cache_ok
proof unfold_locales
  show "cache_ok (fst (cache_get k t s))" if "cache_ok s" for s k t using that by (rule cache_ok_get)
  show "cache_ok (cache_put k v u s)" if "cache_ok s" for s k v u using that by (rule cache_ok_put)
  show "map_of (dc_ll (fst (cache_get k t s))) \<subseteq>\<^sub>m map_of (dc_ll s)" for s k t
    by (auto simp: cache_get_def cache_find_map_of map_of_cache_remove map_le_def split: option.split)
  show "map_of (dc_ll (cache_put k v u s)) \<subseteq>\<^sub>m (map_of (dc_ll s))(k \<mapsto> (v, u))" for s k v u
  proof (cases "cache_find k (dc_ll s)")
    case None
    then show ?thesis
      using map_of_take [of "dc_max s" "(k, v, u) # dc_ll s"] by (simp add: cache_put_def evict_take)
  next
    case (Some e)
    then show ?thesis by (auto simp: cache_put_def map_of_cache_remove map_le_def)
  qed
  show "\<exists>u. map_of (dc_ll s) k = Some (v, u) \<and> t < u" if "snd (cache_get k t s) = Some v" for s k t v
    using that by (auto simp: cache_get_def cache_find_map_of split: option.splits if_splits)
qed

lemma cache_ok_new: "cache_ok (newDecisionCache n)"
  by (simp add: cache_ok_def newDecisionCache_def)

section \<open>Facts about the pieces\<close>

lemma set_intersect_from: "set (intersect_from out a b) = set out \<union> (set a \<inter> set b)"
  by (induction out a b rule: intersect_from.induct) auto

lemma set_intersect [simp]: "set (jd_intersect a b) = set a \<inter> set b"
  by (simp add: jd_intersect_def set_intersect_from)

lemma sorted_remdups_adj_distinct: "sorted xs \<Longrightarrow> sorted (remdups_adj xs) \<and> distinct (remdups_adj xs)"
  for xs :: "string list"
  by (induction xs rule: remdups_adj.induct) (auto simp: order.order_iff_strict)

lemma sameSet_iff [simp]: "sameSet a b \<longleftrightarrow> set a = set b"
proof
  assume "sameSet a b"
  then have "set (remdups_adj (sort a)) = set (remdups_adj (sort b))" by (simp add: sameSet_def)
  then show "set a = set b" by simp
next
  assume "set a = set b"
  then have "set (remdups_adj (sort a)) = set (remdups_adj (sort b))" by simp
  moreover have "sorted (sort a)" "sorted (sort b)" by simp_all
  ultimately show "sameSet a b"
    unfolding sameSet_def using sorted_remdups_adj_distinct by (metis sorted_distinct_set_unique)
qed

lemma max_age_source:
  "max_age xs n = Some m \<Longrightarrow>
     (m = n \<or> 0 \<le> m \<and> (\<exists>x \<in> set xs. Atoi (TrimPrefix (ToLower (TrimSpace x)) ''max-age='') = Some m)) \<and>
     (\<forall>x \<in> set xs. ToLower (TrimSpace x) \<noteq> ''no-store'' \<and> ToLower (TrimSpace x) \<noteq> ''no-cache'')"
proof (induction xs n rule: max_age.induct)
  case (1 n)
  then show ?case by simp
next
  case (2 x xs n)
  let ?dir = "ToLower (TrimSpace x)"
  from "2.prems" have ns: "?dir \<noteq> ''no-store'' \<and> ?dir \<noteq> ''no-cache''" by (auto simp: Let_def split: if_splits)
  then have ns': "\<not> (?dir = ''no-store'' \<or> ?dir = ''no-cache'')" by simp
  show ?case
  proof (cases "HasPrefix ?dir ''max-age=''")
    case True
    show ?thesis
    proof (cases "Atoi (TrimPrefix ?dir ''max-age='')")
      case None
      with 2 ns ns' True show ?thesis by (auto simp: Let_def)
    next
      case (Some k)
      with "2.IH"(2) [OF refl ns' True Some] "2.prems" ns ns' True show ?thesis
        by (cases "0 \<le> k") (auto simp: Let_def)
    qed
  next
    case False
    with 2 ns ns' show ?thesis by (auto simp: Let_def)
  qed
qed

lemma seconds_duration_le: "0 \<le> n \<Longrightarrow> seconds_duration n \<le> n * second"
proof -
  assume "0 \<le> n"
  then have "signed_take_bit 63 (n * second) \<le> n * second"
    by (intro signed_take_bit_int_less_eq_self_iff [THEN iffD2]) (simp add: second_def order_trans [of _ 0])
  then show ?thesis by (simp only: seconds_duration_def sint_sbintrunc') simp
qed

lemma authenticateJWKS_cache: "authenticateJWKS cr w b m = (m1, r) \<Longrightarrow> jm_cache m1 = jm_cache m"
  by (auto simp: authenticateJWKS_def split: option.splits prod.splits sum.splits)

lemma case_Inr:
  "case snd p of Inl e \<Rightarrow> False | Inr d \<Rightarrow> P d \<Longrightarrow> \<exists>m d. p = (m, Inr d) \<and> P d"
  by (cases p) (auto split: sum.splits)

lemma case_pair_Inr:
  "case snd p of (l, r) \<Rightarrow> Q l \<and> (case r of Inl e \<Rightarrow> False | Inr d \<Rightarrow> P d) \<Longrightarrow>
     \<exists>m l d. p = (m, l, Inr d) \<and> Q l \<and> P d"
  by (cases p) (auto split: sum.splits)

lemma authorize_cong: "jm_cache m1 = jm_cache m \<Longrightarrow> snd (authorize cr w b m1) = snd (authorize cr w b m)"
  by (auto simp: authorize_def Let_def split: prod.splits option.splits http_outcome.splits sum.splits)

section \<open>Properties\<close>

text \<open>C17: Dual verification enforces the intersection. It succeeds only when both the locally
  verified credential and the control plane give a decision for the same principal, and then
  every space it grants for reading, writing or approving is granted by both, every space both
  grant is kept, a restriction by either side holds, and the recorded source is the verified
  one.\<close>

theorem dual_is_intersection:
  assumes "authenticateDual cr w bearer m = (m', logs, Inr d)"
  shows "\<exists>m1 jd ad. authenticateJWKS cr w bearer m = (m1, Inr jd) \<and> (\<exists>l. authorize cr w bearer m1 = (m', l, Inr ad)) \<and>
    P_ID (Principal d) = P_ID (Principal jd) \<and> P_ID (Principal d) = P_ID (Principal ad) \<and>
    set (P_Spaces (Principal d)) = set (P_Spaces (Principal jd)) \<inter> set (P_Spaces (Principal ad)) \<and>
    set (P_WriteSpaces (Principal d)) = set (P_WriteSpaces (Principal jd)) \<inter> set (P_WriteSpaces (Principal ad)) \<and>
    set (P_ApproverSpaces (Principal d)) =
      set (P_ApproverSpaces (Principal jd)) \<inter> set (P_ApproverSpaces (Principal ad)) \<and>
    P_Restricted (Principal d) = (P_Restricted (Principal jd) \<or> P_Restricted (Principal ad)) \<and>
    D_Source d = D_Source jd"
  using assms
  by (auto simp: authenticateDual_def dual_decision_def Let_def split: prod.splits sum.splits if_splits)

text \<open>The control plane of the witnesses: it grants kate reading and writing of home and approving
  of work, for a minute.\<close>

definition sample_authorize_json :: json where
  "sample_authorize_json = JObj [(''contract'', JStr ''jumpdrive-authorize/v1''), (''principal_id'', JStr ''kate''),
     (''spaces'', JArr [JStr ''home'']), (''write_spaces'', JArr [JStr ''home'']),
     (''approver_spaces'', JArr [JStr ''work'']), (''expires_at'', JStr ''180'')]"

definition sample_world :: jd_world where
  "sample_world = \<lparr>jw_jwks = HttpFailed,
     jw_authorize = HttpResponse \<lparr>HR_Status = 200, HR_Body = ''a'', HR_CacheControl = ''private, max-age=30''\<rparr>,
     jw_clk = (\<lambda>_. 120 * second)\<rparr>"

definition sample_jd_crypto :: crypto where
  "sample_jd_crypto = sample_crypto\<lparr>cr_json := (\<lambda>s. if s = ''a'' then Some (sample_authorize_json, [])
     else cr_json sample_crypto s)\<rparr>"

definition sample_jd_model :: jd_model where
  "sample_jd_model = \<lparr>jm_baseURL = ''https://jd/internal/index'', jm_secret = ''s'', jm_mode = VerifyDual,
     jm_denyTypes = [], jm_verifier = Some sample_verifier, jm_cache = newDecisionCache 2\<rparr>"

definition sample_jwks_grant :: "decision \<Rightarrow> bool" where
  "sample_jwks_grant d \<longleftrightarrow> P_ID (Principal d) = ''kate'' \<and> P_Spaces (Principal d) = [''home'', ''work''] \<and>
     P_WriteSpaces (Principal d) = [''home''] \<and> P_ApproverSpaces (Principal d) = [] \<and> \<not> P_Restricted (Principal d)"

definition sample_authorize_grant :: "decision \<Rightarrow> bool" where
  "sample_authorize_grant d \<longleftrightarrow> P_ID (Principal d) = ''kate'' \<and> P_Spaces (Principal d) = [''home''] \<and>
     P_WriteSpaces (Principal d) = [''home''] \<and> P_ApproverSpaces (Principal d) = [''work''] \<and> \<not> P_Restricted (Principal d)"

theorem dual_is_intersection_witness:
  "\<exists>m' logs d. authenticateDual sample_jd_crypto sample_world sample_token sample_jd_model = (m', logs, Inr d) \<and>
     P_ID (Principal d) = ''kate'' \<and> set (P_Spaces (Principal d)) = {''home''} \<and>
     set (P_ApproverSpaces (Principal d)) = {} \<and> length logs = 2"
proof -
  have "case snd (authenticateJWKS sample_jd_crypto sample_world sample_token sample_jd_model) of
      Inr d \<Rightarrow> sample_jwks_grant d | _ \<Rightarrow> False" by code_simp
  then obtain m1 jd where j: "authenticateJWKS sample_jd_crypto sample_world sample_token sample_jd_model = (m1, Inr jd)"
    and jd: "sample_jwks_grant jd" by (auto dest: case_Inr)
  have "case snd (authorize sample_jd_crypto sample_world sample_token sample_jd_model) of
      (l, r) \<Rightarrow> l = [] \<and> (case r of Inr d \<Rightarrow> sample_authorize_grant d | _ \<Rightarrow> False)" by code_simp
  then have "case snd (authorize sample_jd_crypto sample_world sample_token m1) of
      (l, r) \<Rightarrow> l = [] \<and> (case r of Inr d \<Rightarrow> sample_authorize_grant d | _ \<Rightarrow> False)"
    by (simp only: authorize_cong [OF authenticateJWKS_cache [OF j]])
  from case_pair_Inr [where Q = "\<lambda>l. l = []" and P = sample_authorize_grant, OF this]
  obtain m2 ad where a: "authorize sample_jd_crypto sample_world sample_token m1 = (m2, [], Inr ad)"
    and ad: "sample_authorize_grant ad" by blast
  note g = jd [unfolded sample_jwks_grant_def] ad [unfolded sample_authorize_grant_def]
  have v: "authenticateDual sample_jd_crypto sample_world sample_token sample_jd_model =
      (m2, dual_logs jd ad, Inr (dual_decision jd ad))"
    using g by (simp add: authenticateDual_def j a)
  have "length (dual_logs jd ad) = 2" using g by (auto simp: dual_logs_def Let_def)
  with v dual_is_intersection [OF v] g j a show ?thesis by auto
qed

text \<open>C34: A decision is cached no longer than the credential lives and no longer than the control
  plane allows: the end of reuse is in the future, not after expires_at, not after now plus a
  max-age the header carries, and there is none when the header says no-store or no-cache. The
  64-bit product of the max-age with a second can only shorten it.\<close>

theorem cacheUntil_bounds:
  assumes "cacheUntil cr now cc ea = Some u"
  shows "now < u \<and> (\<exists>e. cr_rfc3339 cr ea = Some e \<and> u \<le> e) \<and>
    (\<exists>x \<in> set (Split CHR '','' cc). \<exists>n. Atoi (TrimPrefix (ToLower (TrimSpace x)) ''max-age='') = Some n \<and>
       u \<le> now + n * second) \<and>
    (\<forall>x \<in> set (Split CHR '','' cc). ToLower (TrimSpace x) \<noteq> ''no-store'' \<and> ToLower (TrimSpace x) \<noteq> ''no-cache'')"
proof -
  from assms obtain n e where n: "max_age (Split CHR '','' cc) (-1) = Some n" "0 < n"
    and e: "cr_rfc3339 cr ea = Some e"
    and u: "u = (if e < now + seconds_duration n then e else now + seconds_duration n)" "now < u"
    by (auto simp: cacheUntil_def Let_def split: option.splits if_splits)
  have "seconds_duration n \<le> n * second" using n(2) by (intro seconds_duration_le) simp
  with u have "u \<le> now + n * second" "u \<le> e" by auto
  with max_age_source [OF n(1)] n(2) e u(2) show ?thesis by (metis neg_0_le_iff_le not_less not_one_le_zero order_less_imp_le)
qed

theorem cacheUntil_bounds_witness:
  "(120 * second) < 150 * second \<and> (\<exists>e. cr_rfc3339 sample_crypto ''180'' = Some e \<and> 150 * second \<le> e)"
proof -
  have "cacheUntil sample_crypto (120 * second) ''private, max-age=30'' ''180'' = Some (150 * second)"
    by code_simp
  from cacheUntil_bounds [OF this] show ?thesis by blast
qed

text \<open>C33: The decision cache is transparent: after any sequence of lookups and insertions, a hit
  gives the decision last inserted under that digest, and it has not expired.\<close>

theorem decision_cache_hit_is_latest:
  assumes "snd (cache_get k now (store_run cache_get cache_put ops (newDecisionCache n))) = Some d"
  shows "\<exists>u. latest Map.empty ops k = Some (d, u) \<and> now < u"
  by (rule cache.hit_is_latest [OF cache_ok_new [of n] _ assms]) (simp add: newDecisionCache_def)

theorem decision_cache_hit_is_latest_witness:
  "\<exists>u. latest Map.empty [OpPut [1::8 word] (decisionFromClaims claims0) 9, OpGet [2] 3] [1] = Some (decisionFromClaims claims0, u) \<and> 5 < u"
proof (rule decision_cache_hit_is_latest)
  show "snd (cache_get [1] 5 (store_run cache_get cache_put [OpPut [1::8 word] (decisionFromClaims claims0) 9, OpGet [2] 3]
      (newDecisionCache 4))) = Some (decisionFromClaims claims0)"
    by (simp add: newDecisionCache_def cache_put_def cache_get_def evict_take cache_remove_def)
qed

text \<open>The decision cache is bounded: after any sequence of operations it holds at most the
  configured number of entries (1024 when none is configured), one per digest.\<close>

theorem decision_cache_bounded:
  "length (dc_ll (store_run cache_get cache_put ops (newDecisionCache n))) \<le> nat (if n \<le> 0 then 1024 else n) \<and>
   distinct (map fst (dc_ll (store_run cache_get cache_put ops (newDecisionCache n))))"
proof -
  have "dc_max (fst (cache_get k t c)) = dc_max c" "dc_max (cache_put k d u c) = dc_max c" for k t c d u
    by (auto simp: cache_get_def cache_put_def split: option.split)
  then have m: "dc_max (store_run cache_get cache_put ops c) = dc_max c" for c
    by (induction cache_get cache_put ops c rule: store_run.induct) simp_all
  show ?thesis
    using cache.run_ok [OF cache_ok_new [of n], of ops] m [of "newDecisionCache n"]
    by (simp add: cache_ok_def newDecisionCache_def)
qed

text \<open>The authorize path, outcome by outcome. A live cache entry answers without a request.
  Otherwise only a 200 answer that speaks the contract and names a principal gives a decision, with
  exactly the answer's sets; 401 and 403 reject the credential and everything else is a failure of
  the authorizer. A failure inserts nothing into the cache.\<close>

theorem authorize_outcomes:
  "case authorize cr w bearer m of (m', logs, r) \<Rightarrow>
    let (c1, hit) = cache_get (cr_sha256 cr bearer) (jw_clk w 5) (jm_cache m) in
    (case r of
       Inr d \<Rightarrow> hit = Some d \<and> jm_cache m' = c1 \<or>
         hit = None \<and> (\<exists>resp ar. jw_authorize w = HttpResponse resp \<and> HR_Status resp = 200 \<and>
           read_authorize_response cr resp = Inr ar \<and> AR_Contract ar = ''jumpdrive-authorize/v1'' \<and>
           AR_PrincipalID ar \<noteq> [] \<and> d = decisionFromResponse ar)
     | Inl e \<Rightarrow> hit = None \<and> jm_cache m' = c1 \<and> e \<in> {ErrUnauthenticated, ErrAuthorizer, ErrRequest})"
  by (auto simp: authorize_def read_authorize_response_def Let_def split: prod.splits option.splits
      http_outcome.splits sum.splits if_splits)

text \<open>The hosted model applies the same rules as the self-contained one: for the same decision and
  the same denied types they build the same filter and agree on every read, write and approval.\<close>

theorem jumpdrive_rules_are_starcharts:
  "jd_FilterFor m = Starchart_FilterFor \<lparr>byToken = b, denyTypes = jm_denyTypes m\<rparr> \<and>
   jd_CanRead m = Starchart_CanRead \<lparr>byToken = b, denyTypes = jm_denyTypes m\<rparr> \<and>
   jd_CanWrite m d s = Starchart_CanWrite sm d s \<and> jd_CanApprove m d s = Starchart_CanApprove sm d s"
  by (auto simp: Let_def fun_eq_iff jd_FilterFor_def Starchart_FilterFor_def jd_CanRead_def Starchart_CanRead_def
      jd_CanWrite_def Starchart_CanWrite_def jd_CanApprove_def Starchart_CanApprove_def)

end
