(* ===== verification/Jdx_Embed.thy ===== *)
theory Jdx_Embed
  imports Jdx_Heyarr
begin

text \<open>
  The embedding providers of \<open>internal/embed\<close>. The network is a parameter, and so is \<open>f32\<close>: the
  float32 a JSON number is converted to (through float64), nothing when it is no float64. The
  service sees a provider through \<open>Embed\<close> and \<open>Model\<close> only.
\<close>

section \<open>Requests\<close>

record embed_request =
  EQ_URL :: string
  EQ_Headers :: "(string \<times> string) list"
  EQ_Body :: json

definition dec_floats :: "(string \<Rightarrow> f32bits option) \<Rightarrow> json \<Rightarrow> f32bits list res" where
  "dec_floats f32 = dec_slice (\<lambda>j. case j of
       JNum n \<Rightarrow> (case f32 n of None \<Rightarrow> Inl ErrUnmarshal | Some w \<Rightarrow> Inr w)
     | JNull \<Rightarrow> Inr 0 | _ \<Rightarrow> Inl ErrUnmarshal)"

section \<open>Ollama: one request per text\<close>

record ollama =
  OL_baseURL :: string
  OL_model :: string

definition NewOllama :: "string \<Rightarrow> string \<Rightarrow> ollama res" where
  "NewOllama baseURL model =
     (if baseURL = [] \<or> model = [] then Inl (ErrMsg ''embed: ollama requires baseURL and model'')
      else Inr \<lparr>OL_baseURL = baseURL, OL_model = model\<rparr>)"

definition Ollama_Model :: "ollama \<Rightarrow> string" where
  "Ollama_Model o1 = OL_model o1"

definition embedOne ::
    "(embed_request \<Rightarrow> heyarr_outcome) \<Rightarrow> (string \<Rightarrow> json option) \<Rightarrow> (string \<Rightarrow> f32bits option) \<Rightarrow> ollama \<Rightarrow> string \<Rightarrow> f32bits list res" where
  "embedOne net first_json f32 o1 txt1 =
     (case net \<lparr>EQ_URL = OL_baseURL o1 @ ''/api/embeddings'', EQ_Headers = [(''Content-Type'', ''application/json'')],
          EQ_Body = JObj [(''model'', JStr (OL_model o1)), (''prompt'', JStr txt1)]\<rparr> of
        NetNoRequest \<Rightarrow> Inl ErrRequest
      | NetFailed \<Rightarrow> Inl (ErrMsg ''embed: ollama request'')
      | NetReadError \<Rightarrow> Inl (ErrMsg ''embed: decode ollama response'')
      | NetResponse status body \<Rightarrow>
          if status \<noteq> 200 then Inl (ErrMsg ''embed: ollama status'')
          else (case Option.bind (first_json body) (\<lambda>j. case dec_struct
                  (\<lambda>k v old. if k = ''embedding'' then dec_floats f32 v else Inr old) j [] of Inl _ \<Rightarrow> None | Inr v \<Rightarrow> Some v) of
              None \<Rightarrow> Inl (ErrMsg ''embed: decode ollama response'')
            | Some [] \<Rightarrow> Inl (ErrMsg ''embed: ollama returned an empty embedding'')
            | Some v \<Rightarrow> Inr v))"

definition Ollama_Embed ::
    "(embed_request \<Rightarrow> heyarr_outcome) \<Rightarrow> (string \<Rightarrow> json option) \<Rightarrow> (string \<Rightarrow> f32bits option) \<Rightarrow> ollama \<Rightarrow> string list \<Rightarrow> f32bits list list res" where
  "Ollama_Embed net first_json f32 o1 texts = rmap (embedOne net first_json f32 o1) texts"

section \<open>The fabric: one request, vectors by index\<close>

record fabric =
  FB_baseURL :: string
  FB_model :: string
  FB_token :: secret_value
  FB_dim :: int

definition NewFabric :: "string \<Rightarrow> string \<Rightarrow> secret_value \<Rightarrow> fabric res" where
  "NewFabric baseURL model token =
     (if baseURL = [] \<or> model = [] then Inl (ErrMsg ''embed: fabric requires baseURL and model'')
      else Inr \<lparr>FB_baseURL = TrimRight baseURL {CHR ''/''}, FB_model = model, FB_token = token, FB_dim = 0\<rparr>)"

text \<open>\<open>strconv.FormatInt\<close> of a positive number.\<close>

fun decimal :: "nat \<Rightarrow> string" where
  "decimal n = (if n < 10 then [digit_char n] else decimal (n div 10) @ [digit_char (n mod 10)])"

definition Fabric_Model :: "fabric \<Rightarrow> string" where
  "Fabric_Model f = (if FB_dim f > 0 then FB_model f @ ''@'' @ decimal (nat (FB_dim f)) else FB_model f)"

record datum =
  DT_Index :: int
  DT_Embedding :: "f32bits list"

definition datum_field :: "(string \<Rightarrow> f32bits option) \<Rightarrow> string \<Rightarrow> json \<Rightarrow> datum \<Rightarrow> datum res" where
  "datum_field f32 k v d =
     (if k = ''index'' then upd (\<lambda>x. DT_Index_update (\<lambda>_. x)) (dec_int v (DT_Index d)) d
      else if k = ''embedding'' then upd (\<lambda>x. DT_Embedding_update (\<lambda>_. x)) (dec_floats f32 v) d
      else Inr d)"

definition embed_response :: "(string \<Rightarrow> f32bits option) \<Rightarrow> json \<Rightarrow> datum list res" where
  "embed_response f32 j = rbind (dec_struct (\<lambda>k v r.
       if k = ''data'' then upd (\<lambda>x p. (x, snd p))
         (dec_slice (\<lambda>e. dec_struct (datum_field f32) e \<lparr>DT_Index = 0, DT_Embedding = []\<rparr>) v) r
       else if k = ''model'' then upd (\<lambda>x p. (fst p, x)) (dec_string v (snd r)) r
       else Inr r) j ([], [])) (\<lambda>r. Inr (fst r))"

text \<open>The loop that puts each vector at its index: \<open>vecs\<close> starts with as many unset entries as texts.\<close>

definition place :: "datum \<Rightarrow> f32bits list option list \<Rightarrow> f32bits list option list res" where
  "place d vecs =
     (if DT_Index d < 0 \<or> DT_Index d \<ge> int (length vecs) then Inl (ErrMsg ''embed: fabric returned out-of-range index'')
      else if vecs ! nat (DT_Index d) \<noteq> None then Inl (ErrMsg ''embed: fabric returned duplicate index'')
      else if DT_Embedding d = [] then Inl (ErrMsg ''embed: fabric returned an empty embedding'')
      else Inr (vecs[nat (DT_Index d) := Some (DT_Embedding d)]))"

text \<open>An entry left unset is a nil vector.\<close>

definition restore_order :: "string list \<Rightarrow> datum list \<Rightarrow> f32bits list list res" where
  "restore_order texts ds =
     (if length ds \<noteq> length texts then Inl (ErrMsg ''embed: fabric returned vectors for inputs'')
      else rbind (rfold place ds (replicate (length texts) None)) (\<lambda>vecs.
        Inr (map (\<lambda>v. case v of None \<Rightarrow> [] | Some x \<Rightarrow> x) vecs)))"

definition fabric_request :: "fabric \<Rightarrow> string list \<Rightarrow> embed_request" where
  "fabric_request f texts =
     \<lparr>EQ_URL = FB_baseURL f @ ''/v1/embeddings'',
      EQ_Headers = [(''Content-Type'', ''application/json''), (''Accept'', ''application/json'')] @
        (if \<not> secret_IsZero (FB_token f) then [(''Authorization'', ''Bearer '' @ secret_Reveal (FB_token f))] else []),
      EQ_Body = JObj [(''model'', JStr (FB_model f)), (''input'', JArr (map JStr texts))]\<rparr>"

definition Fabric_Embed ::
    "(embed_request \<Rightarrow> heyarr_outcome) \<Rightarrow> (string \<Rightarrow> json option) \<Rightarrow> (string \<Rightarrow> f32bits option) \<Rightarrow> string list \<Rightarrow>
     fabric \<Rightarrow> fabric \<times> f32bits list list res" where
  "Fabric_Embed net first_json f32 texts f =
     (if texts = [] then (f, Inr [])
      else (case net (fabric_request f texts) of
          NetNoRequest \<Rightarrow> (f, Inl ErrRequest)
        | NetFailed \<Rightarrow> (f, Inl (ErrMsg ''embed: fabric request''))
        | NetReadError \<Rightarrow> (f, Inl (ErrMsg ''embed: decode fabric response''))
        | NetResponse status body \<Rightarrow>
            if status \<noteq> 200 then (f, Inl (ErrMsg ''embed: fabric status''))
            else (case first_json body of
                None \<Rightarrow> (f, Inl (ErrMsg ''embed: decode fabric response''))
              | Some j \<Rightarrow> (case embed_response f32 j of
                  Inl _ \<Rightarrow> (f, Inl (ErrMsg ''embed: decode fabric response''))
                | Inr ds \<Rightarrow> (case restore_order texts ds of
                    Inl e \<Rightarrow> (f, Inl e)
                  | Inr vecs \<Rightarrow>
                      (if FB_dim f = 0 then f\<lparr>FB_dim := int (length (vecs ! 0))\<rparr> else f, Inr vecs))))))"

section \<open>The order is restored\<close>

lemma place_step:
  assumes "place d vecs = Inr vecs'"
  shows "0 \<le> DT_Index d \<and> DT_Index d < int (length vecs) \<and> vecs ! nat (DT_Index d) = None \<and> DT_Embedding d \<noteq> [] \<and>
    vecs' = vecs[nat (DT_Index d) := Some (DT_Embedding d)] \<and> length vecs' = length vecs"
  using assms by (auto simp: place_def split: if_splits)

text \<open>What the loop has set is kept, and each datum ends up at its index.\<close>

lemma place_all:
  assumes "rfold place ds vecs = Inr vecs'"
  shows "length vecs' = length vecs \<and> (\<forall>i. i < length vecs \<longrightarrow> vecs ! i \<noteq> None \<longrightarrow> vecs' ! i = vecs ! i) \<and>
    (\<forall>d \<in> set ds. 0 \<le> DT_Index d \<and> DT_Index d < int (length vecs) \<and> vecs ! nat (DT_Index d) = None \<and>
       DT_Embedding d \<noteq> [] \<and> vecs' ! nat (DT_Index d) = Some (DT_Embedding d)) \<and>
    distinct (map DT_Index ds) \<and>
    (\<forall>i < length vecs. vecs' ! i \<noteq> vecs ! i \<longrightarrow> int i \<in> DT_Index ` set ds)"
  using assms
proof (induction ds arbitrary: vecs)
  case Nil
  then show ?case by simp
next
  case (Cons d ds)
  from Cons.prems obtain v1 where 1: "place d vecs = Inr v1" and 2: "rfold place ds v1 = Inr vecs'" by (auto elim: rbindE)
  note s = place_step [OF 1]
  note ih = Cons.IH [OF 2]
  have i: "nat (DT_Index d) < length vecs" using s by linarith
  have v1: "v1 ! nat (DT_Index d) = Some (DT_Embedding d)" using s i by simp
  have kept: "vecs' ! j = vecs ! j" if "j < length vecs" "vecs ! j \<noteq> None" for j
    using ih s that by (metis nth_list_update_neq)
  have here: "vecs' ! nat (DT_Index d) = Some (DT_Embedding d)" using ih v1 i s by simp
  have rest: "0 \<le> DT_Index e \<and> DT_Index e < int (length vecs) \<and> vecs ! nat (DT_Index e) = None \<and> DT_Embedding e \<noteq> [] \<and>
      vecs' ! nat (DT_Index e) = Some (DT_Embedding e) \<and> DT_Index e \<noteq> DT_Index d" if "e \<in> set ds" for e
  proof -
    from ih that have e: "0 \<le> DT_Index e" "DT_Index e < int (length v1)" "v1 ! nat (DT_Index e) = None" "DT_Embedding e \<noteq> []"
      "vecs' ! nat (DT_Index e) = Some (DT_Embedding e)" by blast+
    with v1 have "DT_Index e \<noteq> DT_Index d" by auto
    moreover from this e(1) s have "nat (DT_Index e) \<noteq> nat (DT_Index d)" by linarith
    ultimately show ?thesis using e s by (metis nth_list_update_neq)
  qed
  have new: "int j \<in> DT_Index ` set (d # ds)" if "j < length vecs" "vecs' ! j \<noteq> vecs ! j" for j
  proof (cases "j = nat (DT_Index d)")
    case True
    with s show ?thesis by simp
  next
    case False
    with s that ih have "int j \<in> DT_Index ` set ds" by (metis nth_list_update_neq)
    then show ?thesis by simp
  qed
  have "DT_Index d \<notin> DT_Index ` set ds" using rest by force
  then have "distinct (map DT_Index (d # ds))" using ih by simp
  moreover have "length vecs' = length vecs" using ih s by simp
  ultimately show ?case using kept here rest new s by (simp del: distinct.simps)
qed

lemma place_total:
  assumes "distinct (map DT_Index ds)" and "\<forall>d \<in> set ds. 0 \<le> DT_Index d \<and> DT_Index d < int (length vecs) \<and>
     vecs ! nat (DT_Index d) = None \<and> DT_Embedding d \<noteq> []"
  shows "\<exists>vecs'. rfold place ds vecs = Inr vecs'"
  using assms
proof (induction ds arbitrary: vecs)
  case (Cons d ds)
  let ?v = "vecs[nat (DT_Index d) := Some (DT_Embedding d)]"
  have "place d vecs = Inr ?v" using Cons.prems(2) by (simp add: place_def)
  moreover have "\<exists>vecs'. rfold place ds ?v = Inr vecs'"
  proof (rule Cons.IH)
    show "distinct (map DT_Index ds)" using Cons.prems(1) by simp
    show "\<forall>e \<in> set ds. 0 \<le> DT_Index e \<and> DT_Index e < int (length ?v) \<and> ?v ! nat (DT_Index e) = None \<and> DT_Embedding e \<noteq> []"
    proof
      fix e assume e: "e \<in> set ds"
      with Cons.prems(1) have "DT_Index e \<noteq> DT_Index d" by (metis distinct.simps(2) image_eqI list.simps(9) set_map)
      with e Cons.prems(2) have "nat (DT_Index e) \<noteq> nat (DT_Index d)" by (simp add: nat_eq_iff2)
      with e Cons.prems(2) show "0 \<le> DT_Index e \<and> DT_Index e < int (length ?v) \<and> ?v ! nat (DT_Index e) = None \<and> DT_Embedding e \<noteq> []"
        by simp
    qed
  qed
  ultimately show ?case by simp
qed simp

lemma indices_cover:
  assumes "distinct xs" and "\<forall>x \<in> set xs. 0 \<le> x \<and> x < int n" and "length xs = n"
  shows "mset xs = mset (map int [0..<n])"
proof -
  have "set xs \<subseteq> int ` {0..<n}"
  proof
    fix x assume "x \<in> set xs"
    with assms(2) show "x \<in> int ` {0..<n}" by (intro image_eqI [of _ _ "nat x"]) auto
  qed
  moreover have "card (set xs) = n" using assms(1,3) by (simp add: distinct_card)
  moreover have "card (int ` {0..<n}) = n" by (simp add: card_image)
  ultimately have "set xs = int ` {0..<n}" by (intro card_subset_eq) auto
  then show ?thesis
    using assms(1) by (intro iffD1 [OF set_eq_iff_mset_eq_distinct]) (simp_all add: distinct_map)
qed

text \<open>C31: The fabric embedder returns the vectors in the order of the texts, whatever the order of the reply: it
  accepts a reply exactly when the indices are those of the texts, each once, and no vector is empty, and then the
  vector of each text is the one the reply gives for its index.\<close>

theorem fabric_restores_order:
  "restore_order texts ds = Inr vecs \<longleftrightarrow>
     mset (map DT_Index ds) = mset (map int [0..<length texts]) \<and> (\<forall>d \<in> set ds. DT_Embedding d \<noteq> []) \<and>
     length vecs = length texts \<and> (\<forall>d \<in> set ds. vecs ! nat (DT_Index d) = DT_Embedding d)"
  (is "_ \<longleftrightarrow> ?spec")
proof
  assume "restore_order texts ds = Inr vecs"
  then obtain v where l: "length ds = length texts" and v: "rfold place ds (replicate (length texts) None) = Inr v"
    and m: "vecs = map (\<lambda>x. case x of None \<Rightarrow> [] | Some y \<Rightarrow> y) v"
    by (auto simp: restore_order_def elim!: rbindE split: if_splits)
  note p = place_all [OF v]
  have "mset (map DT_Index ds) = mset (map int [0..<length texts])"
    by (rule indices_cover) (use p l in auto)
  moreover have "vecs ! nat (DT_Index d) = DT_Embedding d" if "d \<in> set ds" for d
  proof -
    from p that have "v ! nat (DT_Index d) = Some (DT_Embedding d)" "nat (DT_Index d) < length v" by auto
    then show ?thesis by (simp add: m)
  qed
  ultimately show ?spec using p by (auto simp: m)
next
  assume s: ?spec
  from s have l: "length ds = length texts" by (metis diff_zero length_map length_upt size_mset)
  from s have d: "distinct (map DT_Index ds)" by (metis distinct_map inj_on_of_nat distinct_upt mset_eq_imp_distinct_iff)
  have sets: "DT_Index ` set ds = int ` {0..<length texts}"
    using s by (metis image_set set_mset_mset set_upt)
  then have r: "0 \<le> DT_Index e \<and> DT_Index e < int (length texts)" if "e \<in> set ds" for e
    using that by (metis (no_types, lifting) atLeastLessThan_iff imageE image_eqI of_nat_0_le_iff of_nat_less_iff)
  have "replicate (length texts) None ! nat (DT_Index e) = None" if "e \<in> set ds" for e
    using r [OF that] by (intro nth_replicate) linarith
  then obtain v where v: "rfold place ds (replicate (length texts) None) = Inr v"
    using place_total [OF d, of "replicate (length texts) None"] r s by auto
  note p = place_all [OF v]
  have "map (\<lambda>x. case x of None \<Rightarrow> [] | Some y \<Rightarrow> y) v = vecs"
  proof (rule nth_equalityI)
    show "length (map (\<lambda>x. case x of None \<Rightarrow> [] | Some y \<Rightarrow> y) v) = length vecs" using p s by simp
    fix i assume "i < length (map (\<lambda>x. case x of None \<Rightarrow> [] | Some y \<Rightarrow> y) v)"
    then have i: "i < length texts" "i < length v" using p by simp_all
    then have "int i \<in> DT_Index ` set ds" unfolding sets by simp
    then obtain e where e: "e \<in> set ds" "DT_Index e = int i" by auto
    with p have "v ! i = Some (DT_Embedding e)" by fastforce
    moreover from s e have "vecs ! i = DT_Embedding e" by fastforce
    ultimately show "map (\<lambda>x. case x of None \<Rightarrow> [] | Some y \<Rightarrow> y) v ! i = vecs ! i" using i by simp
  qed
  with v l show "restore_order texts ds = Inr vecs" by (simp add: restore_order_def)
qed

text \<open>Nothing compares the lengths of the vectors of one reply, or of later replies, with the dimension in the
  descriptor, which is that of the first vector ever returned.\<close>

theorem fabric_restores_order_witness:
  "restore_order [''a'', ''b''] [\<lparr>DT_Index = 1, DT_Embedding = [0]\<rparr>, \<lparr>DT_Index = 0, DT_Embedding = [0, 0]\<rparr>] = Inr [[0, 0], [0]]"
  unfolding fabric_restores_order by code_simp

end
