(* ===== verification/Jdx_Capability.thy ===== *)
theory Jdx_Capability
  imports Jdx_Ingest
begin

text \<open>
  Where an ingestion gets its metadata (\<open>internal/ingest/capability.go\<close>, \<open>fabric.go\<close>): the
  programs run out of process, the fixed metadata of tests, and the two ways of transcribing. The
  operating system is a parameter: which programs are found, what a command line prints when it
  succeeds, temporary directories, files. The deadline of the HTTP client is not modelled.
\<close>

section \<open>The remote transcriber\<close>

record fabric_transcriber =
  FT_baseURL :: string
  FT_model :: string
  FT_token :: secret_value

definition NewFabricTranscriber :: "string \<Rightarrow> string \<Rightarrow> secret_value \<Rightarrow> fabric_transcriber res" where
  "NewFabricTranscriber baseURL model token =
     (if baseURL = [] \<or> model = [] then Inl (ErrMsg ''ingest: fabric transcriber requires baseURL and model'')
      else Inr \<lparr>FT_baseURL = TrimRight baseURL {CHR ''/''}, FT_model = model, FT_token = token\<rparr>)"

text \<open>The request: the multipart parts as name, file name and content. The reply as of \<open>heyarr_outcome\<close>;
  \<open>first_json\<close> is what \<open>json.Decoder\<close> reads first from a body.\<close>

record upload =
  UP_URL :: string
  UP_Parts :: "(string \<times> string \<times> string) list"
  UP_Accept :: string
  UP_Authorization :: "string option"

definition filepath_Base :: "string \<Rightarrow> string" where
  "filepath_Base p =
     (if p = [] then ''.'' else
      let q = TrimRight p {CHR ''/''} in
      if q = [] then ''/'' else rev (takeWhile (\<lambda>c. c \<noteq> CHR ''/'') (rev q)))"

definition transcription_text :: "json \<Rightarrow> string res" where
  "transcription_text j = dec_struct (\<lambda>k v t. if k = ''text'' then dec_string v t else Inr t) j []"

definition Transcribe ::
    "(string \<Rightarrow> string option) \<Rightarrow> (upload \<Rightarrow> heyarr_outcome) \<Rightarrow> (string \<Rightarrow> json option) \<Rightarrow> fabric_transcriber \<Rightarrow>
     string \<Rightarrow> string res" where
  "Transcribe open_file net first_json f audioPath = (case open_file audioPath of
       None \<Rightarrow> Inl (ErrMsg ''ingest: open staged audio'')
     | Some audio \<Rightarrow>
         (case net \<lparr>UP_URL = FT_baseURL f @ ''/v1/audio/transcriptions'',
              UP_Parts = [(''file'', filepath_Base audioPath, audio), (''model'', [], FT_model f)],
              UP_Accept = ''application/json'',
              UP_Authorization = (if \<not> secret_IsZero (FT_token f) then Some (''Bearer '' @ secret_Reveal (FT_token f)) else None)\<rparr> of
            NetNoRequest \<Rightarrow> Inl (ErrMsg ''ingest: build transcription request'')
          | NetFailed \<Rightarrow> Inl (ErrMsg ''ingest: fabric transcription request'')
          | NetReadError \<Rightarrow> Inl (ErrMsg ''ingest: decode fabric transcription'')
          | NetResponse status body \<Rightarrow>
              if status \<noteq> 200 then Inl (ErrMsg ''ingest: fabric transcription status'')
              else (case first_json body of
                  None \<Rightarrow> Inl (ErrMsg ''ingest: decode fabric transcription'')
                | Some j \<Rightarrow> (case transcription_text j of
                    Inl _ \<Rightarrow> Inl (ErrMsg ''ingest: decode fabric transcription'')
                  | Inr t \<Rightarrow> Inr (TrimSpace t)))))"

text \<open>A transcriber is a function from the staged file to its text.\<close>

definition bestEffortTranscribe :: "(string \<Rightarrow> string res) \<Rightarrow> string \<Rightarrow> string" where
  "bestEffortTranscribe t audioPath = (case t audioPath of Inl _ \<Rightarrow> [] | Inr x \<Rightarrow> TrimSpace x)"

section \<open>The programs run out of process\<close>

record exec_capability =
  EC_YtDlpPath :: string
  EC_WhisperPath :: string
  EC_WorkDir :: string
  EC_Transcriber :: "(string \<Rightarrow> string res) option"

definition NewExecCapability :: exec_capability where
  "NewExecCapability = \<lparr>EC_YtDlpPath = ''yt-dlp'', EC_WhisperPath = ''whisper'', EC_WorkDir = [], EC_Transcriber = None\<rparr>"

text \<open>The operating system as an ingestion uses it, at the moment of each use.\<close>

record exec_world =
  EW_LookPath :: "string \<Rightarrow> bool"
  EW_Output :: "string list \<Rightarrow> string option"
  EW_MkdirTemp :: "string option"
  EW_ReadFile :: "string \<Rightarrow> string option"

definition filepath_Join :: "string \<Rightarrow> string \<Rightarrow> string" where
  "filepath_Join dir file = TrimRight dir {CHR ''/''} @ ''/'' @ file"

definition whisperPath :: "exec_capability \<Rightarrow> string" where
  "whisperPath c = (if EC_WhisperPath c = [] then ''whisper'' else EC_WhisperPath c)"

definition transcribe :: "exec_world \<Rightarrow> exec_capability \<Rightarrow> string \<Rightarrow> string" where
  "transcribe w c ref =
     (let whisper = whisperPath c in
      if EC_Transcriber c = None \<and> \<not> EW_LookPath w whisper then []
      else (case (if EC_WorkDir c = [] then EW_MkdirTemp w else Some (EC_WorkDir c)) of
          None \<Rightarrow> []
        | Some dir \<Rightarrow>
            let audio = filepath_Join dir ''audio.wav'' in
            (case EW_Output w [EC_YtDlpPath c, ''-x'', ''--audio-format'', ''wav'', ''-o'', audio, ref] of
               None \<Rightarrow> []
             | Some _ \<Rightarrow>
                 (case EC_Transcriber c of
                    Some t \<Rightarrow> bestEffortTranscribe t audio
                  | None \<Rightarrow>
                      (case EW_Output w [whisper, audio, ''--output_format'', ''txt'', ''--output_dir'', dir] of
                         None \<Rightarrow> []
                       | Some _ \<Rightarrow> (case EW_ReadFile w (filepath_Join dir ''audio.txt'') of
                           None \<Rightarrow> []
                         | Some t \<Rightarrow> TrimSpace t))))))"

record ytdlp_info =
  YT_ID :: string
  YT_Title :: string
  YT_Description :: string
  YT_UploadDate :: string
  YT_WebpageURL :: string
  YT_ChannelID :: string
  YT_Channel :: string
  YT_ChannelURL :: string

definition ytdlp_info0 :: ytdlp_info where
  "ytdlp_info0 = \<lparr>YT_ID = [], YT_Title = [], YT_Description = [], YT_UploadDate = [], YT_WebpageURL = [],
     YT_ChannelID = [], YT_Channel = [], YT_ChannelURL = []\<rparr>"

definition ytdlp_field :: "string \<Rightarrow> json \<Rightarrow> ytdlp_info \<Rightarrow> ytdlp_info res" where
  "ytdlp_field k v i =
     (if k = ''id'' then upd (\<lambda>x. YT_ID_update (\<lambda>_. x)) (dec_string v (YT_ID i)) i
      else if k = ''title'' then upd (\<lambda>x. YT_Title_update (\<lambda>_. x)) (dec_string v (YT_Title i)) i
      else if k = ''description'' then upd (\<lambda>x. YT_Description_update (\<lambda>_. x)) (dec_string v (YT_Description i)) i
      else if k = ''upload_date'' then upd (\<lambda>x. YT_UploadDate_update (\<lambda>_. x)) (dec_string v (YT_UploadDate i)) i
      else if k = ''webpage_url'' then upd (\<lambda>x. YT_WebpageURL_update (\<lambda>_. x)) (dec_string v (YT_WebpageURL i)) i
      else if k = ''channel_id'' then upd (\<lambda>x. YT_ChannelID_update (\<lambda>_. x)) (dec_string v (YT_ChannelID i)) i
      else if k = ''channel'' then upd (\<lambda>x. YT_Channel_update (\<lambda>_. x)) (dec_string v (YT_Channel i)) i
      else if k = ''channel_url'' then upd (\<lambda>x. YT_ChannelURL_update (\<lambda>_. x)) (dec_string v (YT_ChannelURL i)) i
      else Inr i)"

definition isoDate :: "string \<Rightarrow> string" where
  "isoDate s = (if length s \<noteq> 8 then s
     else take 4 s @ ''-'' @ take 2 (drop 4 s) @ ''-'' @ take 2 (drop 6 s))"

definition exec_Fetch :: "exec_world \<Rightarrow> (string \<Rightarrow> json option) \<Rightarrow> exec_capability \<Rightarrow> string \<Rightarrow> metadata res" where
  "exec_Fetch w parse c ref =
     (let ytDlp = (if EC_YtDlpPath c = [] then ''yt-dlp'' else EC_YtDlpPath c) in
      if \<not> EW_LookPath w ytDlp then Inl ErrCapabilityUnavailable
      else (case EW_Output w [ytDlp, ''-J'', ''--no-warnings'', ref] of
          None \<Rightarrow> Inl ErrCapabilityUnavailable
        | Some out \<Rightarrow>
            (case parse out of
               None \<Rightarrow> Inl ErrUnmarshal
             | Some j \<Rightarrow>
                 rbind (dec_struct ytdlp_field j ytdlp_info0) (\<lambda>i.
                 Inr \<lparr>MD_VideoID = YT_ID i, MD_Title = YT_Title i, MD_URL = YT_WebpageURL i,
                   MD_Description = YT_Description i, MD_UploadDate = isoDate (YT_UploadDate i),
                   MD_ChannelID = YT_ChannelID i, MD_ChannelName = YT_Channel i, MD_ChannelURL = YT_ChannelURL i,
                   MD_Transcript = transcribe w c ref, MD_Segments = []\<rparr>))))"

definition static_Fetch :: "metadata \<Rightarrow> string \<Rightarrow> metadata res" where
  "static_Fetch m ref = Inr (if MD_VideoID m = [] then m\<lparr>MD_VideoID := ref\<rparr> else m)"

section \<open>Properties\<close>

text \<open>Transcription is best effort: on two systems that agree on the programs found and on what yt-dlp reports
  about the video, with whatever transcribers, temporary directories and files, a fetch fails alike or gives the same
  metadata up to the transcript, which is empty when anything fails.\<close>

theorem transcription_is_best_effort:
  assumes "\<forall>p. EW_LookPath w' p = EW_LookPath w p"
    and "\<forall>y. EW_Output w' [y, ''-J'', ''--no-warnings'', ref] = EW_Output w [y, ''-J'', ''--no-warnings'', ref]"
  shows "exec_Fetch w' parse (c\<lparr>EC_Transcriber := t'\<rparr>) ref =
      (case exec_Fetch w parse c ref of Inl e \<Rightarrow> Inl e
       | Inr md \<Rightarrow> Inr (md\<lparr>MD_Transcript := transcribe w' (c\<lparr>EC_Transcriber := t'\<rparr>) ref\<rparr>))"
  using assms by (simp add: exec_Fetch_def Let_def rbind_def split: option.split sum.split)

text \<open>The zero value of the capability, which \<open>Fetch\<close> accepts, defaulting the name of yt-dlp, never transcribes:
  the staging command is run with the empty name, and a command with an empty name does not start.\<close>

theorem zero_capability_never_transcribes:
  assumes "EC_YtDlpPath c = []" and "\<forall>args. EW_Output w ([] # args) = None"
  shows "transcribe w c ref = [] \<and>
    (\<forall>md. exec_Fetch w parse c ref = Inr md \<longrightarrow> MD_Transcript md = [])"
proof
  show "transcribe w c ref = []"
    using assms by (simp add: transcribe_def Let_def split: option.split)
  then show "\<forall>md. exec_Fetch w parse c ref = Inr md \<longrightarrow> MD_Transcript md = []"
    by (auto simp: exec_Fetch_def Let_def elim!: rbindE split: if_splits option.splits)
qed

end
