(* ===== verification/Jdx_Lifecycle.thy ===== *)
theory Jdx_Lifecycle
  imports Jdx_Golib Jdx_Codec Jdx_Resolve
begin

text \<open>
  The life of a store before it serves: opening it (\<open>Open\<close>, \<open>verifyPragmas\<close>) and migrating it
  (\<open>Migrate\<close>), in \<open>internal/store/sqlite/sqlite.go\<close> and \<open>internal/store/postgres/postgres.go\<close>.
  The database drivers and what a migration script does to a schema are parameters; the schema
  they build is modelled in \<open>Jdx_Db\<close>. Lost connections are not modelled.
\<close>

section \<open>Opening\<close>

record store_options =
  OP_Location :: string
  OP_Thresholds :: thresholds

text \<open>What \<open>database/sql\<close> and the SQLite driver provide: a handle for a DSN, and the two pragmas a
  handle reports.\<close>

record 'h sqlite_driver =
  dv_Open :: "string \<Rightarrow> 'h res"
  dv_journal_mode :: "'h \<Rightarrow> string res"
  dv_foreign_keys :: "'h \<Rightarrow> int res"

abbreviation writePragmas :: string where
  "writePragmas \<equiv> ''?_pragma=busy_timeout(5000)&_pragma=journal_mode(WAL)&_pragma=foreign_keys(ON)&_txlock=immediate''"
abbreviation readPragmas :: string where
  "readPragmas \<equiv> ''?_pragma=busy_timeout(5000)&_pragma=journal_mode(WAL)&_pragma=foreign_keys(ON)''"

record 'h sqlite_store =
  st_write :: 'h
  st_read :: 'h
  st_th :: thresholds

definition verify_handle :: "'h sqlite_driver \<Rightarrow> 'h \<Rightarrow> unit res" where
  "verify_handle dv h =
     rbind (dv_journal_mode dv h) (\<lambda>jm.
       if \<not> EqualFold jm ''wal'' then Inl (ErrMsg ''journal_mode'')
       else rbind (dv_foreign_keys dv h) (\<lambda>fk.
         if fk \<noteq> 1 then Inl (ErrMsg ''foreign_keys'') else Inr ()))"

text \<open>The handles come out of a Go map, so either may be verified first.\<close>

definition verifyPragmas :: "'h sqlite_driver \<Rightarrow> bool \<Rightarrow> 'h sqlite_store \<Rightarrow> unit res" where
  "verifyPragmas dv write_first st =
     (let hs = (if write_first then [st_write st, st_read st] else [st_read st, st_write st]) in
      rfold (\<lambda>h u. verify_handle dv h) hs ())"

definition sqlite_Open :: "'h sqlite_driver \<Rightarrow> bool \<Rightarrow> store_options \<Rightarrow> 'h sqlite_store res" where
  "sqlite_Open dv write_first opts =
     (if OP_Location opts = [] then Inl ErrInvalidInput
      else (case Thresholds_Validate (OP_Thresholds opts) of
          Some e \<Rightarrow> Inl e
        | None \<Rightarrow>
            rbind (dv_Open dv (''file:'' @ OP_Location opts @ writePragmas)) (\<lambda>w.
            rbind (dv_Open dv (''file:'' @ OP_Location opts @ readPragmas)) (\<lambda>r.
              let s = \<lparr>st_write = w, st_read = r, st_th = OP_Thresholds opts\<rparr> in
              rbind (verifyPragmas dv write_first s) (\<lambda>_. Inr s)))))"

record 'p pg_pool =
  pl_pool :: 'p
  pl_th :: thresholds

definition pg_Open :: "(string \<Rightarrow> 'p res) \<Rightarrow> store_options \<Rightarrow> 'p pg_pool res" where
  "pg_Open pgxpool_New opts =
     (if OP_Location opts = [] then Inl ErrInvalidInput
      else (case Thresholds_Validate (OP_Thresholds opts) of
          Some e \<Rightarrow> Inl e
        | None \<Rightarrow> rbind (pgxpool_New (OP_Location opts)) (\<lambda>p. Inr \<lparr>pl_pool = p, pl_th = OP_Thresholds opts\<rparr>)))"

section \<open>Migrating\<close>

text \<open>A database as migrations see it: the rows of \<open>schema_migrations\<close>, once that table exists, and
  the schema. A script takes the schema to another one or fails.\<close>

record 's disk =
  DK_Versions :: "(string \<times> tstext) list option"
  DK_Schema :: 's

type_synonym 's scripting = "string \<Rightarrow> 's \<Rightarrow> 's res"

definition applied :: "'s disk \<Rightarrow> string list" where
  "applied d = (case DK_Versions d of None \<Rightarrow> [] | Some vs \<Rightarrow> map fst vs)"

definition ensure_versions :: "'s disk \<Rightarrow> 's disk" where
  "ensure_versions d = (case DK_Versions d of None \<Rightarrow> d\<lparr>DK_Versions := Some []\<rparr> | Some vs \<Rightarrow> d)"

definition record_version :: "string \<Rightarrow> tstext \<Rightarrow> 's disk \<Rightarrow> 's disk res" where
  "record_version name ts d =
     (if name \<in> set (applied d) then Inl ErrSQL
      else Inr (d\<lparr>DK_Versions := Some (case DK_Versions d of None \<Rightarrow> [(name, ts)] | Some vs \<Rightarrow> vs @ [(name, ts)])\<rparr>))"

text \<open>The transaction of one migration; when it fails, the database stays as it was.\<close>

definition apply_migration :: "'s scripting \<Rightarrow> string \<Rightarrow> string \<Rightarrow> tstext \<Rightarrow> 's disk \<Rightarrow> 's disk res" where
  "apply_migration exec name body ts d =
     rbind (exec body (DK_Schema d)) (\<lambda>s. record_version name ts (d\<lparr>DK_Schema := s\<rparr>))"

fun migrate_files ::
    "'s scripting \<Rightarrow> (nat \<Rightarrow> time) \<Rightarrow> (string \<times> string) list \<Rightarrow> 's disk \<Rightarrow> 's disk \<times> gerr option" where
  "migrate_files exec now [] d = (d, None)"
| "migrate_files exec now ((name, body) # files) d =
     (if name \<in> set (applied d) then migrate_files exec now files d
      else (case apply_migration exec name body (fmtTS (now 0)) d of
          Inl e \<Rightarrow> (d, Some e)
        | Inr d' \<Rightarrow> migrate_files exec (\<lambda>n. now (Suc n)) files d'))"

text \<open>The embedded files that match \<open>migrations/*.sql\<close>, sorted by name.\<close>

definition glob_sql :: "(string \<times> string) list \<Rightarrow> (string \<times> string) list" where
  "glob_sql fs = filter (\<lambda>(name, body). HasPrefix name ''migrations/'' \<and> HasSuffix name ''.sql'' \<and>
     CHR ''/'' \<notin> set (drop (length ''migrations/'') name)) fs"

definition Migrate ::
    "'s scripting \<Rightarrow> (nat \<Rightarrow> time) \<Rightarrow> (string \<times> string) list \<Rightarrow> 's disk \<Rightarrow> 's disk \<times> gerr option" where
  "Migrate exec now migrationsFS d = migrate_files exec now (sort_key fst (glob_sql migrationsFS)) (ensure_versions d)"

text \<open>The Postgres adapter runs the same loop over its own files.\<close>

definition pg_Migrate ::
    "'s scripting \<Rightarrow> (nat \<Rightarrow> time) \<Rightarrow> (string \<times> string) list \<Rightarrow> 's disk \<Rightarrow> 's disk \<times> gerr option" where
  "pg_Migrate exec now migrationsFS d =
     (let names = sort_key fst (glob_sql migrationsFS) in migrate_files exec now names (ensure_versions d))"

section \<open>What migrating does\<close>

lemma applied_ensure [simp]: "applied (ensure_versions d) = applied d"
  by (simp add: applied_def ensure_versions_def split: option.split)

lemma ensure_idem [simp]: "ensure_versions (ensure_versions d) = ensure_versions d"
  by (simp add: ensure_versions_def split: option.split)

text \<open>Two databases that differ only in when their migrations were applied.\<close>

definition same_schema :: "'s disk \<Rightarrow> 's disk \<Rightarrow> bool" where
  "same_schema d d' \<longleftrightarrow> DK_Schema d = DK_Schema d' \<and> applied d = applied d' \<and>
     (DK_Versions d = None \<longleftrightarrow> DK_Versions d' = None)"

lemma same_schema_refl [simp]: "same_schema d d" by (simp add: same_schema_def)

lemma apply_migration_Inr:
  "apply_migration exec name body ts d = Inr d' \<longleftrightarrow>
     name \<notin> set (applied d) \<and> exec body (DK_Schema d) = Inr (DK_Schema d') \<and>
     d' = d\<lparr>DK_Schema := DK_Schema d', DK_Versions := Some (case DK_Versions d of None \<Rightarrow> [(name, ts)] | Some vs \<Rightarrow> vs @ [(name, ts)])\<rparr>"
  by (cases "exec body (DK_Schema d)") (auto simp: apply_migration_def record_version_def applied_def)

lemma apply_migration_applied:
  "apply_migration exec name body ts d = Inr d' \<Longrightarrow> applied d' = applied d @ [name] \<and> DK_Versions d' \<noteq> None"
  unfolding apply_migration_Inr by (cases d, cases d') (auto simp: applied_def split: option.splits)

lemma apply_migration_same:
  assumes "apply_migration exec name body ts d = Inr d1" and "same_schema d e" and "exec body (DK_Schema d) = exec' body (DK_Schema d)"
  shows "\<exists>e1. apply_migration exec' name body ts' e = Inr e1 \<and> same_schema d1 e1"
proof -
  let ?e1 = "e\<lparr>DK_Schema := DK_Schema d1, DK_Versions := Some (case DK_Versions e of None \<Rightarrow> [(name, ts')] | Some vs \<Rightarrow> vs @ [(name, ts')])\<rparr>"
  have e1: "apply_migration exec' name body ts' e = Inr ?e1"
    using assms by (simp add: apply_migration_Inr same_schema_def)
  moreover have "same_schema d1 ?e1"
    using apply_migration_applied [OF assms(1)] apply_migration_applied [OF e1] assms(2) by (simp add: same_schema_def)
  ultimately show ?thesis by blast
qed

lemma apply_migration_Inl:
  "name \<notin> set (applied d) \<Longrightarrow> apply_migration exec name body ts d = Inl x \<longleftrightarrow> exec body (DK_Schema d) = Inl x"
  by (cases "exec body (DK_Schema d)") (auto simp: apply_migration_def record_version_def applied_def)

lemma migrate_files_applied:
  "migrate_files exec now files d = (d', r) \<Longrightarrow>
     set (applied d) \<subseteq> set (applied d') \<and> set (applied d') \<subseteq> set (applied d) \<union> fst ` set files \<and>
     (r = None \<longrightarrow> fst ` set files \<subseteq> set (applied d')) \<and> (DK_Versions d \<noteq> None \<longrightarrow> DK_Versions d' \<noteq> None)"
proof (induction exec now files d arbitrary: d' rule: migrate_files.induct)
  case (2 exec now name body files d)
  show ?case
  proof (cases "name \<in> set (applied d)")
    case True
    with 2 show ?thesis by auto
  next
    case False
    show ?thesis
    proof (cases "apply_migration exec name body (fmtTS (now 0)) d")
      case (Inl e)
      with False 2 show ?thesis by auto
    next
      case (Inr d1)
      with False 2 have "migrate_files exec (\<lambda>n. now (Suc n)) files d1 = (d', r)" by simp
      from 2(2) [OF False Inr this] apply_migration_applied [OF Inr] show ?thesis by auto
    qed
  qed
qed auto

lemma migrate_files_done: "fst ` set files \<subseteq> set (applied d) \<Longrightarrow> migrate_files exec now files d = (d, None)"
  by (induction exec now files d rule: migrate_files.induct) auto

text \<open>From databases alike, with scripts that agree, a run ends alike.\<close>

lemma migrate_files_same:
  assumes "same_schema d e"
  shows "same_schema (fst (migrate_files exec now files d)) (fst (migrate_files exec now' files e)) \<and>
    snd (migrate_files exec now files d) = snd (migrate_files exec now' files e)"
  using assms
proof (induction exec now files d arbitrary: e now' rule: migrate_files.induct)
  case (2 exec now name body files d)
  show ?case
  proof (cases "apply_migration exec name body (fmtTS (now 0)) d")
    case (Inl x)
    show ?thesis
    proof (cases "name \<in> set (applied d)")
      case True
      then have "name \<in> set (applied e)" using 2(3) by (simp add: same_schema_def)
      with True 2(1) [OF True 2(3)] show ?thesis by simp
    next
      case False
      then have n: "name \<notin> set (applied e)" using 2(3) by (simp add: same_schema_def)
      then have "apply_migration exec name body (fmtTS (now' 0)) e = Inl x"
        using Inl False 2(3) by (simp add: apply_migration_Inl same_schema_def)
      with Inl False n 2(3) show ?thesis by simp
    qed
  next
    case (Inr d1)
    from apply_migration_same [OF this 2(3), of exec] obtain e1 where
      e1: "apply_migration exec name body (fmtTS (now' 0)) e = Inr e1" "same_schema d1 e1" by blast
    have n: "name \<notin> set (applied d)" "name \<notin> set (applied e)"
      using Inr e1(1) by (simp_all add: apply_migration_Inr)
    from 2(2) [OF n(1) Inr e1(2)] show ?thesis by (simp add: n Inr e1(1))
  qed
qed simp

lemma migrate_files_resume:
  assumes "migrate_files exec now files d = (d', r)" and "\<forall>b s s'. exec b s = Inr s' \<longrightarrow> exec' b s = Inr s'"
  shows "same_schema (fst (migrate_files exec' now1 files d')) (fst (migrate_files exec' now2 files d)) \<and>
    snd (migrate_files exec' now1 files d') = snd (migrate_files exec' now2 files d)"
  using assms
proof (induction exec now files d arbitrary: d' now1 now2 rule: migrate_files.induct)
  case (2 exec now name body files d)
  show ?case
  proof (cases "name \<in> set (applied d)")
    case True
    with 2(3) have "migrate_files exec now files d = (d', r)" by simp
    with True 2(1) [OF True this 2(4)] migrate_files_applied [OF this] show ?thesis by auto
  next
    case False
    show ?thesis
    proof (cases "apply_migration exec name body (fmtTS (now 0)) d")
      case (Inl e)
      with False 2(3) have "d' = d" by simp
      then show ?thesis using migrate_files_same [OF same_schema_refl] by blast
    next
      case (Inr d1)
      then have run: "migrate_files exec (\<lambda>n. now (Suc n)) files d1 = (d', r)" using False 2(3) by simp
      have "exec body (DK_Schema d) = exec' body (DK_Schema d)"
        using Inr 2(4) by (simp add: apply_migration_Inr)
      from apply_migration_same [where e = d and exec' = exec' and ts' = "fmtTS (now2 0)", OF Inr same_schema_refl this] obtain e1 where
        e1: "apply_migration exec' name body (fmtTS (now2 0)) d = Inr e1" "same_schema d1 e1" by blast
      have "name \<in> set (applied d')" using apply_migration_applied [OF Inr] migrate_files_applied [OF run] by auto
      then have "migrate_files exec' now1 ((name, body) # files) d' = migrate_files exec' now1 files d'" by simp
      moreover have "migrate_files exec' now2 ((name, body) # files) d = migrate_files exec' (\<lambda>n. now2 (Suc n)) files e1"
        using False e1(1) by simp
      ultimately show ?thesis
        using 2(2) [OF False Inr run 2(4), of now1 "\<lambda>n. now2 (Suc n)"]
          migrate_files_same [OF e1(2), of exec' "\<lambda>n. now2 (Suc n)" files "\<lambda>n. now2 (Suc n)"] by (simp add: same_schema_def)
    qed
  qed
qed (use migrate_files_same [OF same_schema_refl] in auto)

lemma Migrate_again: "Migrate exec now fs d = (d', None) \<Longrightarrow> Migrate exec' now' fs d' = (d', None)"
proof -
  assume m: "Migrate exec now fs d = (d', None)"
  then have run: "migrate_files exec now (sort_key fst (glob_sql fs)) (ensure_versions d) = (d', None)" by (simp add: Migrate_def)
  have "DK_Versions (ensure_versions d) \<noteq> None" by (simp add: ensure_versions_def split: option.split)
  with migrate_files_applied [OF run] have "ensure_versions d' = d'" by (auto simp: ensure_versions_def split: option.split)
  with migrate_files_applied [OF run] show ?thesis by (simp add: Migrate_def migrate_files_done)
qed

section \<open>Properties\<close>

text \<open>C25: Migrations can be repeated and resumed. After a run, complete or stopped by a script that failed, a
  later run with scripts that still do what they did (a failing one may have been repaired) ends with
  the schema, the recorded versions and the answer that one run from the start would have given. After
  a complete run, later runs change nothing and execute no script, whatever the scripts would do.\<close>

theorem migrate_resumes:
  assumes "Migrate exec now fs d = (d', r)" and "\<forall>b s s'. exec b s = Inr s' \<longrightarrow> exec' b s = Inr s'"
  shows "same_schema (fst (Migrate exec' now1 fs d')) (fst (Migrate exec' now2 fs d)) \<and>
    snd (Migrate exec' now1 fs d') = snd (Migrate exec' now2 fs d) \<and>
    (r = None \<longrightarrow> (\<forall>other now3. Migrate other now3 fs d' = (d', None)))"
proof -
  from assms(1) have run: "migrate_files exec now (sort_key fst (glob_sql fs)) (ensure_versions d) = (d', r)"
    by (simp add: Migrate_def)
  have "DK_Versions (ensure_versions d) \<noteq> None" by (simp add: ensure_versions_def split: option.split)
  with migrate_files_applied [OF run] have "ensure_versions d' = d'" by (auto simp: ensure_versions_def split: option.split)
  then have "Migrate exec' n fs d' = migrate_files exec' n (sort_key fst (glob_sql fs)) d'" for n by (simp add: Migrate_def)
  with migrate_files_resume [OF run assms(2)] have "same_schema (fst (Migrate exec' now1 fs d')) (fst (Migrate exec' now2 fs d)) \<and>
      snd (Migrate exec' now1 fs d') = snd (Migrate exec' now2 fs d)" unfolding Migrate_def [of exec' now2 fs d] by simp
  with Migrate_again assms(1) show ?thesis by auto
qed

text \<open>A schema as the list of its statements; the second script fails until it is repaired.\<close>

definition sample_scripts :: "(string \<times> string) list" where
  "sample_scripts = [(''migrations/0002.sql'', ''b''), (''migrations/0001.sql'', ''a''), (''migrations/README'', ''c'')]"

definition broken_script :: "string list scripting" where
  "broken_script b s = (if b = ''b'' then Inl ErrSQL else Inr (s @ [b]))"

definition repaired_script :: "string list scripting" where
  "repaired_script b s = Inr (s @ [b])"

theorem migrate_resumes_witness:
  "let d = \<lparr>DK_Versions = None, DK_Schema = []\<rparr>; d' = fst (Migrate broken_script (\<lambda>n. 7) sample_scripts d) in
   snd (Migrate broken_script (\<lambda>n. 7) sample_scripts d) = Some ErrSQL \<and> applied d' = [''migrations/0001.sql''] \<and>
   DK_Schema (fst (Migrate repaired_script (\<lambda>n. 8) sample_scripts d')) = [''a'', ''b''] \<and>
   snd (Migrate repaired_script (\<lambda>n. 8) sample_scripts d') = None"
proof -
  let ?d = "\<lparr>DK_Versions = None, DK_Schema = []\<rparr>" and ?d' = "\<lparr>DK_Versions = Some [(''migrations/0001.sql'', fmtTS 7)], DK_Schema = [''a'']\<rparr>"
  have run: "Migrate broken_script (\<lambda>n. 7) sample_scripts ?d = (?d', Some ErrSQL)" by code_simp
  have full: "DK_Schema (fst (Migrate repaired_script (\<lambda>n. 8) sample_scripts ?d)) = [''a'', ''b''] \<and>
    snd (Migrate repaired_script (\<lambda>n. 8) sample_scripts ?d) = None" by code_simp
  have "\<forall>b s s'. broken_script b s = Inr s' \<longrightarrow> repaired_script b s = Inr s'"
    by (auto simp: broken_script_def repaired_script_def)
  from migrate_resumes [OF run this, of "\<lambda>n. 8" "\<lambda>n. 8"] full show ?thesis
    by (simp add: run same_schema_def applied_def)
qed

definition sound_handle :: "'h sqlite_driver \<Rightarrow> 'h \<Rightarrow> bool" where
  "sound_handle dv h \<longleftrightarrow> (\<exists>jm. dv_journal_mode dv h = Inr jm \<and> EqualFold jm ''wal'') \<and> dv_foreign_keys dv h = Inr 1"

text \<open>A store that opens has what the adapter relies on: its path is not empty, its thresholds are
  ordered, and both handles report write-ahead logging and enforced foreign keys, in whichever
  order they are verified. Conversely, that is all it takes.\<close>

theorem Open_verifies:
  "sqlite_Open dv first opts = Inr st \<longleftrightarrow>
     OP_Location opts \<noteq> [] \<and> 0 < Review (OP_Thresholds opts) \<and> Review (OP_Thresholds opts) < AutoMerge (OP_Thresholds opts) \<and>
     AutoMerge (OP_Thresholds opts) \<le> 1 \<and> st_th st = OP_Thresholds opts \<and>
     dv_Open dv (''file:'' @ OP_Location opts @ writePragmas) = Inr (st_write st) \<and>
     dv_Open dv (''file:'' @ OP_Location opts @ readPragmas) = Inr (st_read st) \<and>
     sound_handle dv (st_write st) \<and> sound_handle dv (st_read st)"
proof -
  have h: "verify_handle dv h = Inr u \<longleftrightarrow> sound_handle dv h"
    for h and u by (cases "dv_journal_mode dv h"; cases "dv_foreign_keys dv h") (auto simp: verify_handle_def sound_handle_def)
  have p: "verifyPragmas dv first s = Inr u \<longleftrightarrow> verify_handle dv (st_write s) = Inr () \<and> verify_handle dv (st_read s) = Inr ()"
    for s u by (cases "verify_handle dv (st_write s)"; cases "verify_handle dv (st_read s)") (auto simp: verifyPragmas_def)
  have t: "Thresholds_Validate t = None \<longleftrightarrow> 0 < Review t \<and> Review t < AutoMerge t \<and> AutoMerge t \<le> 1" for t
    by (auto simp: Thresholds_Validate_def)
  have b: "rbind m (\<lambda>_. Inr x) = Inr y \<longleftrightarrow> m = Inr () \<and> x = y" for m :: "unit res" and x y :: "'a sqlite_store"
    by (cases m) auto
  let ?p = "OP_Location opts" and ?t = "OP_Thresholds opts"
  have "sqlite_Open dv first opts = Inr st \<longleftrightarrow> ?p \<noteq> [] \<and> Thresholds_Validate ?t = None \<and>
      (\<exists>w r. dv_Open dv (''file:'' @ ?p @ writePragmas) = Inr w \<and> dv_Open dv (''file:'' @ ?p @ readPragmas) = Inr r \<and>
        sound_handle dv w \<and> sound_handle dv r \<and> \<lparr>st_write = w, st_read = r, st_th = ?t\<rparr> = st)"
    by (cases "Thresholds_Validate ?t"; cases "dv_Open dv (''file:'' @ ?p @ writePragmas)"; cases "dv_Open dv (''file:'' @ ?p @ readPragmas)")
       (simp_all add: sqlite_Open_def Let_def b p h)
  then show ?thesis by (cases st) (auto simp: t)
qed

text \<open>A handle whose driver drops the foreign-key pragma.\<close>

definition sample_driver :: "int \<Rightarrow> string sqlite_driver" where
  "sample_driver fk = \<lparr>dv_Open = Inr, dv_journal_mode = (\<lambda>h. Inr ''WAL''), dv_foreign_keys = (\<lambda>h. Inr fk)\<rparr>"

lemma Open_samples:
  "(case sqlite_Open (sample_driver 1) True \<lparr>OP_Location = ''jdx.db'', OP_Thresholds = \<lparr>AutoMerge = 0.94, Review = 0.86\<rparr>\<rparr> of
      Inl e \<Rightarrow> False | Inr st \<Rightarrow> st_th st = \<lparr>AutoMerge = 0.94, Review = 0.86\<rparr>) \<and>
   sqlite_Open (sample_driver 0) True \<lparr>OP_Location = ''jdx.db'', OP_Thresholds = \<lparr>AutoMerge = 0.94, Review = 0.86\<rparr>\<rparr> =
     Inl (ErrMsg ''foreign_keys'')"
  by code_simp

end
