(* ===== verification/Jdx_Main.thy ===== *)
theory Jdx_Main
  imports Jdx_Http Jdx_Config Jdx_Jumpdrive Jdx_Embed Jdx_Capability Jdx_Lifecycle
begin

text \<open>
  The command line (\<open>cmd/jumpdrive-index\<close>): how \<open>run\<close> assembles a store, an identity and an
  embedder from the environment and either migrates or serves, and how the \<open>ingest\<close> subcommand
  does its work. The operating system and the libraries are fields of a record. Logging, signals,
  the flag parser and the listening socket are not modelled.
\<close>

section \<open>The surroundings of a process\<close>

record ('h, 'p, 's, 'm, 'dev) machine =
  mc_getenv :: "string \<Rightarrow> string"
  mc_url_Parse :: "string \<Rightarrow> (string \<times> string) option"
  mc_sqlite :: "'h sqlite_driver"
  mc_write_first :: bool
  mc_pgxpool_New :: "string \<Rightarrow> 'p res"
  mc_exec :: "'s scripting"
  mc_now :: "nat \<Rightarrow> time"
  mc_migrationsFS :: "(string \<times> string) list"
  mc_pg_migrationsFS :: "(string \<times> string) list"
  mc_max_seq :: "'s \<Rightarrow> int res"
  mc_ReadFile :: "string \<Rightarrow> string res"
  mc_Unmarshal :: "string \<Rightarrow> starchart_config res"
  mc_sha :: "string \<Rightarrow> string"
  mc_NewStore :: "string \<Rightarrow> 'dev res"
  mc_NewFileMembership :: "string \<Rightarrow> 'm res"
  mc_CreateTemp :: "string \<Rightarrow> string res"
  mc_Remove :: "string \<Rightarrow> unit res"

section \<open>The parts\<close>

datatype ('h, 'p) opened = OpenedSQLite "'h sqlite_store" | OpenedPostgres "'p pg_pool"

definition openStore :: "('h, 'p, 's, 'm, 'dev) machine \<Rightarrow> config \<Rightarrow> ('h, 'p) opened res" where
  "openStore mc cfg =
     (if Cf_Backend cfg = BackendSQLite then
        let path = (if Cf_DSN cfg = [] then ''jumpdrive-index.db'' else Cf_DSN cfg) in
        rbind (sqlite_Open (mc_sqlite mc) (mc_write_first mc) \<lparr>OP_Location = path, OP_Thresholds = Cf_Thresholds cfg\<rparr>)
          (\<lambda>s. Inr (OpenedSQLite s))
      else if Cf_Backend cfg = BackendPostgres then
        rbind (pg_Open (mc_pgxpool_New mc) \<lparr>OP_Location = Cf_DSN cfg, OP_Thresholds = Cf_Thresholds cfg\<rparr>)
          (\<lambda>s. Inr (OpenedPostgres s))
      else Inl (ErrMsg ''unknown backend''))"

definition migrate_store :: "('h, 'p, 's, 'm, 'dev) machine \<Rightarrow> ('h, 'p) opened \<Rightarrow> 's disk \<Rightarrow> 's disk \<times> gerr option" where
  "migrate_store mc st d = (case st of
       OpenedSQLite s \<Rightarrow> Migrate (mc_exec mc) (mc_now mc) (mc_migrationsFS mc) d
     | OpenedPostgres s \<Rightarrow> pg_Migrate (mc_exec mc) (mc_now mc) (mc_pg_migrationsFS mc) d)"

datatype identity_model = StarchartIdentity starchart_model | JumpdriveIdentity jd_model

definition VerifyMode :: "string \<Rightarrow> verify_mode" where
  "VerifyMode s = (if s = ''jwks'' then VerifyJWKS else if s = ''authorize'' then VerifyAuthorize
     else if s = ''dual'' then VerifyDual else VerifyOther s)"

definition buildAccessModel :: "('h, 'p, 's, 'm, 'dev) machine \<Rightarrow> config \<Rightarrow> identity_model res" where
  "buildAccessModel mc cfg =
     (if Cf_IdentityMode cfg = IdentityStarchart then
        rbind (if Cf_PrincipalsFile cfg \<noteq> [] then rbind (mc_ReadFile mc (Cf_PrincipalsFile cfg)) (mc_Unmarshal mc)
               else Inr \<lparr>Principals = [], RestrictedDenyTypes = []\<rparr>) (\<lambda>scfg.
        rbind (Starchart_New (mc_sha mc) scfg) (\<lambda>m. Inr (StarchartIdentity m)))
      else if Cf_IdentityMode cfg = IdentityJumpdrive then
        rbind (jd_New \<lparr>JC_BaseURL = Cf_JumpdriveURL cfg, JC_SharedSecret = secret_Reveal (Cf_JumpdriveSecret cfg),
            JC_Mode = VerifyMode (Cf_JumpdriveVerify cfg), JC_Issuer = Cf_JumpdriveIssuer cfg,
            JC_RestrictedDenyTypes = [], JC_CacheSize = 0, JC_Verifier = None\<rparr>) (\<lambda>m. Inr (JumpdriveIdentity m))
      else Inl (ErrMsg ''unknown identity mode''))"

text \<open>\<open>fabricauth.Client\<close>: a device client with its timeout in seconds, or none.\<close>

definition fabricauth_Client :: "(string \<Rightarrow> 'dev res) \<Rightarrow> string \<Rightarrow> int \<Rightarrow> ('dev \<times> int) option res" where
  "fabricauth_Client NewStore dir timeout =
     (if dir = [] then Inr None else rbind (NewStore dir) (\<lambda>store. Inr (Some (store, timeout))))"

datatype 'dev built_embedder = NoEmbedder | OllamaEmbedder ollama | FabricEmbedder fabric "('dev \<times> int) option"

definition buildEmbedder :: "('h, 'p, 's, 'm, 'dev) machine \<Rightarrow> 'dev built_embedder res" where
  "buildEmbedder mc =
     (let getenv = mc_getenv mc; p = getenv ''JDX_EMBED_PROVIDER'' in
      if p = [] \<or> p = ''none'' then Inr NoEmbedder
      else if p = ''ollama'' then
        rbind (NewOllama (getenv ''JDX_EMBED_URL'') (getenv ''JDX_EMBED_MODEL'')) (\<lambda>o1. Inr (OllamaEmbedder o1))
      else if p = ''fabric'' then
        rbind (fabricauth_Client (mc_NewStore mc) (getenv ''JDX_FABRIC_DEVICE_DIR'') 30) (\<lambda>dev.
          case dev of
            Some c \<Rightarrow> rbind (NewFabric (getenv ''JDX_EMBED_URL'') (getenv ''JDX_EMBED_MODEL'') [])
                        (\<lambda>f. Inr (FabricEmbedder f (Some c)))
          | None \<Rightarrow> rbind (NewFabric (getenv ''JDX_EMBED_URL'') (getenv ''JDX_EMBED_MODEL'') (getenv ''JDX_EMBED_TOKEN''))
                        (\<lambda>f. Inr (FabricEmbedder f None)))
      else Inl (ErrMsg ''unknown embed provider''))"

definition OpenMembership :: "('h, 'p, 's, 'm, 'dev) machine \<Rightarrow> string \<Rightarrow> 'm res" where
  "OpenMembership mc dir =
     rbind (mc_NewFileMembership mc dir) (\<lambda>m. rbind (mc_CreateTemp mc dir) (\<lambda>name. rbind (mc_Remove mc name) (\<lambda>_. Inr m)))"

section \<open>Booting\<close>

text \<open>What \<open>run\<close> hands to \<open>Serve\<close>: the address and the parts the handler is made of.\<close>

record ('h, 'p, 'm, 'dev) served =
  SV_Addr :: string
  SV_Head :: int
  SV_Store :: "('h, 'p) opened"
  SV_Identity :: identity_model
  SV_Embedder :: "'dev built_embedder"
  SV_Voidbind :: "(string \<times> 'm) option"

datatype stage = StageOpen | StageMigrate | StageHead | StageAccess | StageEmbedder | StageMembership

datatype ('h, 'p, 'm, 'dev) boot =
    BadConfig "config_error list" | FailedAt stage gerr | Migrated | Serving "('h, 'p, 'm, 'dev) served"

definition assemble ::
    "('h, 'p, 's, 'm, 'dev) machine \<Rightarrow> config \<Rightarrow> ('h, 'p) opened \<Rightarrow> int \<Rightarrow> ('h, 'p, 'm, 'dev) boot" where
  "assemble mc cfg st head =
     (case buildAccessModel mc cfg of
        Inl e \<Rightarrow> FailedAt StageAccess e
      | Inr am \<Rightarrow>
          (case buildEmbedder mc of
             Inl e \<Rightarrow> FailedAt StageEmbedder e
           | Inr em \<Rightarrow>
               (case (if Cf_MCPAuthMode cfg = ''voidbind''
                      then rbind (OpenMembership mc (Cf_MCPVoidbindMembershipDir cfg))
                        (\<lambda>m. Inr (Some (Cf_MCPVoidbindTrustFile cfg, m)))
                      else Inr None) of
                  Inl e \<Rightarrow> FailedAt StageMembership e
                | Inr vb \<Rightarrow> Serving \<lparr>SV_Addr = Cf_HTTPAddr cfg, SV_Head = head, SV_Store = st, SV_Identity = am,
                    SV_Embedder = em, SV_Voidbind = vb\<rparr>)))"

definition run_main :: "('h, 'p, 's, 'm, 'dev) machine \<Rightarrow> 's disk \<Rightarrow> 's disk \<times> ('h, 'p, 'm, 'dev) boot" where
  "run_main mc d =
     (case Load (mc_url_Parse mc) (mc_getenv mc) of
        Inl errs \<Rightarrow> (d, BadConfig errs)
      | Inr cfg \<Rightarrow>
          (case openStore mc cfg of
             Inl e \<Rightarrow> (d, FailedAt StageOpen e)
           | Inr st \<Rightarrow>
               if Cf_Mode cfg = ModeMigrate then
                 (case migrate_store mc st d of
                    (d', Some e) \<Rightarrow> (d', FailedAt StageMigrate e)
                  | (d', None) \<Rightarrow> (d', Migrated))
               else
                 (case mc_max_seq mc (DK_Schema d) of
                    Inl e \<Rightarrow> (d, FailedAt StageHead e)
                  | Inr head \<Rightarrow> (d, assemble mc cfg st head))))"

section \<open>The handler of a running process\<close>

text \<open>What the libraries and the network do at the moment of a request. The trust file is read again
  on every request; the jumpdrive identity and the fabric embedder carry state, which is here the
  state at that moment.\<close>

record ('key, 'ops, 'm) surroundings =
  su_mcp :: mcp_server
  su_crypto :: crypto
  su_jd_world :: jd_world
  su_net :: "embed_request \<Rightarrow> heyarr_outcome"
  su_first_json :: "string \<Rightarrow> json option"
  su_f32 :: "string \<Rightarrow> f32bits option"
  su_ParsePublicKey :: "string \<Rightarrow> 'key option"
  su_file :: "string \<Rightarrow> trust_file"
  su_voidbind :: "('key, 'ops, 'm) voidbind"
  su_head :: "gerr option"

definition access_of :: "(string \<Rightarrow> string) \<Rightarrow> crypto \<Rightarrow> jd_world \<Rightarrow> identity_model \<Rightarrow> access_impl" where
  "access_of sha cr w i = (case i of
       StarchartIdentity m \<Rightarrow> starchart_access sha m
     | JumpdriveIdentity m \<Rightarrow> \<lparr>am_Authenticate = (\<lambda>b. case jd_Authenticate cr w b m of (m', logs, r) \<Rightarrow> r),
         am_FilterFor = jd_FilterFor m, am_CanWrite = jd_CanWrite m, am_CanApprove = jd_CanApprove m\<rparr>)"

definition embedder_of ::
    "(embed_request \<Rightarrow> heyarr_outcome) \<Rightarrow> (string \<Rightarrow> json option) \<Rightarrow> (string \<Rightarrow> f32bits option) \<Rightarrow> 'dev built_embedder \<Rightarrow> embedder option" where
  "embedder_of net first_json f32 em = (case em of
       NoEmbedder \<Rightarrow> None
     | OllamaEmbedder o1 \<Rightarrow> Some \<lparr>em_Model = Ollama_Model o1, em_Embed = Ollama_Embed net first_json f32 o1\<rparr>
     | FabricEmbedder f dev \<Rightarrow> Some \<lparr>em_Model = Fabric_Model f, em_Embed = (\<lambda>texts. snd (Fabric_Embed net first_json f32 texts f))\<rparr>)"

definition http_handler ::
    "(string \<Rightarrow> string) \<Rightarrow> ('key, 'ops, 'm) surroundings \<Rightarrow> ('h, 'p, 'm, 'dev) served \<Rightarrow> 'm http_server" where
  "http_handler sha su sv =
     (let svc = \<lparr>sv_access = access_of sha (su_crypto su) (su_jd_world su) (SV_Identity sv),
            sv_embedder = embedder_of (su_net su) (su_first_json su) (su_f32 su) (SV_Embedder sv)\<rparr>;
          base = (http_New ((su_mcp su)\<lparr>ms_svc := svc\<rparr>))\<lparr>hs_ready := Some (su_head su)\<rparr> in
      WithAuthorizer (case SV_Voidbind sv of
          None \<Rightarrow> None
        | Some (trust_path, m) \<Rightarrow> Some (Voidbind_EffectiveBearer
            ((su_voidbind su)\<lparr>vb_trust := PinnedUsersFromFile (su_ParsePublicKey su) (su_file su trust_path)\<rparr>))) base)"

section \<open>What a loaded configuration holds\<close>

definition loaded :: "(string \<Rightarrow> string) \<Rightarrow> config" where
  "loaded g =
     (let url = TrimRight (g ''JDX_JUMPDRIVE_URL'') {CHR ''/''}; issuer = g ''JDX_JUMPDRIVE_ISSUER'';
          serve = (env_get g ''JDX_MODE'' ''serve'' = ModeServe); jd = (env_get g ''JDX_IDENTITY'' ''starchart'' = IdentityJumpdrive)
      in (read_env g)\<lparr>Cf_Mode := env_get g ''JDX_MODE'' ''serve'', Cf_Backend := env_get g ''JDX_BACKEND'' ''sqlite'',
        Cf_IdentityMode := env_get g ''JDX_IDENTITY'' ''starchart'',
        Cf_AuthEnabled := (ToLower (env_get g ''JDX_AUTH'' ''true'') \<in> {''1'', ''true''}),
        Cf_LegacyStarchart := (ToLower (env_get g ''JDX_LEGACY_STARCHART'' ''false'') \<in> {''1'', ''true''}),
        Cf_JumpdriveVerify := ToLower (env_get g ''JDX_JUMPDRIVE_VERIFY'' ''jwks''),
        Cf_JumpdriveIssuer := (if serve \<and> jd \<and> issuer = [] \<and> HasSuffix url jumpdriveIndexPath
          then TrimSuffix url jumpdriveIndexPath else issuer)\<rparr>)"

lemma read_enum_put: "v \<in> set vals \<Longrightarrow> fst (read_enum vals put bad v s) = put v (fst s)"
  by (simp add: read_enum_fst)

lemma read_bool_put:
  "v \<in> {''1'', ''true'', ''0'', ''false''} \<Longrightarrow> fst (read_bool put bad v s) = put (v \<in> {''1'', ''true''}) (fst s)"
  by (auto simp: read_bool_def)

lemma read_enums_loaded:
  assumes "read_enums g c0 = (c1, [])"
  shows "c1 = c0\<lparr>Cf_Mode := env_get g ''JDX_MODE'' ''serve'', Cf_Backend := env_get g ''JDX_BACKEND'' ''sqlite'',
        Cf_IdentityMode := env_get g ''JDX_IDENTITY'' ''starchart'',
        Cf_AuthEnabled := (ToLower (env_get g ''JDX_AUTH'' ''true'') \<in> {''1'', ''true''}),
        Cf_LegacyStarchart := (ToLower (env_get g ''JDX_LEGACY_STARCHART'' ''false'') \<in> {''1'', ''true''})\<rparr>"
proof -
  define mode backend ident a l where "mode = env_get g ''JDX_MODE'' ''serve''" and "backend = env_get g ''JDX_BACKEND'' ''sqlite''"
    and "ident = env_get g ''JDX_IDENTITY'' ''starchart''" and "a = ToLower (env_get g ''JDX_AUTH'' ''true'')"
    and "l = ToLower (env_get g ''JDX_LEGACY_STARCHART'' ''false'')"
  note e = mode_def [symmetric] backend_def [symmetric] ident_def [symmetric] a_def [symmetric] l_def [symmetric]
  from assms have "snd (read_enums g c0) = []" and c1: "c1 = fst (read_enums g c0)" by simp_all
  then have m: "mode \<in> set [ModeServe, ModeMigrate]" "backend \<in> set [BackendSQLite, BackendPostgres]"
      "ident \<in> set [IdentityStarchart, IdentityJumpdrive]" "a \<in> {''1'', ''true'', ''0'', ''false''}" "l \<in> {''1'', ''true'', ''0'', ''false''}"
    unfolding read_enums_def Let_def read_enum_snd read_bool_snd e by blast+
  show ?thesis
    unfolding c1 read_enums_def Let_def e read_bool_put [OF m(4)] read_bool_put [OF m(5)] read_enum_put [OF m(1)]
      read_enum_put [OF m(2)] read_enum_put [OF m(3)] fst_conv by (cases c0) (simp only: config.update_convs)
qed

text \<open>The environment determines the configuration: whatever loads is \<open>loaded\<close>.\<close>

lemma Load_loaded:
  assumes "Load url g = Inr c"
  shows "c = loaded g"
  using assms
proof (rule LoadE)
  fix c1 c2
  assume e: "read_enums g (read_env g) = (c1, [])"
    and v: "read_enum [''jwks'', ''authorize'', ''dual''] (\<lambda>v. Cf_JumpdriveVerify_update (\<lambda>_. v)) BadVerify
      (ToLower (env_get g ''JDX_JUMPDRIVE_VERIFY'' ''jwks'')) (c1, []) = (c2, [])"
    and jd: "(if Cf_Mode c2 = ModeServe \<and> Cf_IdentityMode c2 = IdentityJumpdrive
      then validateJumpdrive url c2 else (c2, [])) = (c, [])"
  define w where "w = ToLower (env_get g ''JDX_JUMPDRIVE_VERIFY'' ''jwks'')"
  from v have c2: "c2 = c1\<lparr>Cf_JumpdriveVerify := w\<rparr>"
    unfolding w_def [symmetric] by (simp add: read_enum_def split: if_splits)
  from jd have c: "c = (if Cf_Mode c2 = ModeServe \<and> Cf_IdentityMode c2 = IdentityJumpdrive \<and> Cf_JumpdriveIssuer c2 = [] \<and>
      HasSuffix (Cf_JumpdriveURL c2) jumpdriveIndexPath
      then c2\<lparr>Cf_JumpdriveIssuer := TrimSuffix (Cf_JumpdriveURL c2) jumpdriveIndexPath\<rparr> else c2)"
    by (auto simp: validateJumpdrive_def Let_def split: if_split_asm)
  show ?thesis
    unfolding c c2 read_enums_loaded [OF e] loaded_def Let_def w_def
    by (simp add: read_env_def del: ToLower_def)
qed

lemma loaded_auth: "\<exists>b. loaded (g(''JDX_AUTH'' := v)) = (loaded g)\<lparr>Cf_AuthEnabled := b\<rparr>"
  by (rule exI [of _ "ToLower (env_get (g(''JDX_AUTH'' := v)) ''JDX_AUTH'' ''true'') \<in> {''1'', ''true''}"])
     (simp add: loaded_def Let_def read_env_def env_get_def)

section \<open>Properties\<close>

lemma run_main_Serving:
  assumes "run_main mc d = (d', Serving sv)"
  obtains st head where "Load (mc_url_Parse mc) (mc_getenv mc) = Inr (loaded (mc_getenv mc))"
    and "openStore mc (loaded (mc_getenv mc)) = Inr st" and "env_get (mc_getenv mc) ''JDX_MODE'' ''serve'' \<noteq> ModeMigrate"
    and "mc_max_seq mc (DK_Schema d) = Inr head" and "assemble mc (loaded (mc_getenv mc)) st head = Serving sv" and "d' = d"
proof -
  from assms obtain cfg st head where r: "Load (mc_url_Parse mc) (mc_getenv mc) = Inr cfg" "openStore mc cfg = Inr st"
      "Cf_Mode cfg \<noteq> ModeMigrate" "mc_max_seq mc (DK_Schema d) = Inr head" "assemble mc cfg st head = Serving sv" "d' = d"
    by (auto simp: run_main_def split: sum.splits if_splits prod.splits option.splits)
  from Load_loaded [OF r(1)] have "cfg = loaded (mc_getenv mc)" .
  moreover have "Cf_Mode (loaded g) = env_get g ''JDX_MODE'' ''serve''" for g by (simp add: loaded_def Let_def)
  ultimately show thesis using that r by simp
qed

lemma assemble_Serving:
  "assemble mc cfg st head = Serving sv \<longleftrightarrow>
     (\<exists>am em vb. buildAccessModel mc cfg = Inr am \<and> buildEmbedder mc = Inr em \<and>
       (if Cf_MCPAuthMode cfg = ''voidbind'' then \<exists>m. OpenMembership mc (Cf_MCPVoidbindMembershipDir cfg) = Inr m \<and>
          vb = Some (Cf_MCPVoidbindTrustFile cfg, m) else vb = None) \<and>
       sv = \<lparr>SV_Addr = Cf_HTTPAddr cfg, SV_Head = head, SV_Store = st, SV_Identity = am, SV_Embedder = em, SV_Voidbind = vb\<rparr>)"
  by (auto simp: assemble_def elim!: rbindE split: sum.splits if_splits)

lemma starchart_built:
  assumes "buildAccessModel mc cfg = Inr i" and "Cf_IdentityMode cfg = IdentityStarchart"
  obtains scfg m where "i = StarchartIdentity m" and "Starchart_New (mc_sha mc) scfg = Inr m"
    and "Cf_PrincipalsFile cfg = [] \<Longrightarrow> Principals scfg = []"
    and "Cf_PrincipalsFile cfg \<noteq> [] \<Longrightarrow> \<exists>b. mc_ReadFile mc (Cf_PrincipalsFile cfg) = Inr b \<and> mc_Unmarshal mc b = Inr scfg"
  using assms by (auto simp: buildAccessModel_def elim!: rbindE split: if_splits)

lemma starchart_token:
  assumes "Starchart_New sha cfg = Inr m" and "Starchart_Authenticate sha m b = Inr dec"
  shows "b \<noteq> [] \<and> (\<exists>pc \<in> set (Principals cfg). sha b = sha (PC_Token pc) \<and> P_ID (Principal dec) = PC_ID pc)"
proof -
  from assms(2) obtain p where p: "b \<noteq> []" "byToken m (sha b) = Some p" "P_ID (Principal dec) = sp_id p"
    by (auto simp: Starchart_Authenticate_def split: if_splits option.splits)
  from p(2) obtain pc where "pc \<in> set (Principals cfg)" "sha b = sha (PC_Token pc)" "p = sc_principal_of pc"
    by (auto simp: New_byToken(1) [OF assms(1)] dest!: map_of_SomeD)
  with p(1,3) show ?thesis by (intro conjI bexI [of _ pc]) (simp_all add: sc_principal_of_def)
qed

lemma http_handler_parts:
  "hs_auth (http_handler sha su sv) = (case SV_Voidbind sv of
      None \<Rightarrow> BearerFunc (\<lambda>r. bearerFrom (RQH_Header r ''Authorization''))
    | Some (path, m) \<Rightarrow> Voidbind_EffectiveBearer
        ((su_voidbind su)\<lparr>vb_trust := PinnedUsersFromFile (su_ParsePublicKey su) (su_file su path)\<rparr>))"
  "sv_access (ms_svc (hs_mcp (http_handler sha su sv))) = access_of sha (su_crypto su) (su_jd_world su) (SV_Identity sv)"
  by (simp_all add: http_handler_def Let_def WithAuthorizer_def http_New_def split: option.split prod.split)

lemma pinned_bearer:
  assumes "\<forall>trust c p ops m m' u. vb_VerifyWithPossession (su_voidbind su) trust c p ops m = (m', Some u) \<longrightarrow> u \<in> dom trust"
    and "token = snd (Voidbind_EffectiveBearer
        ((su_voidbind su)\<lparr>vb_trust := PinnedUsersFromFile (su_ParsePublicKey su) (su_file su path)\<rparr>) r m)" and "token \<noteq> []"
  shows "deviceCredential (RQH_Header r ''Authorization'') \<noteq> None \<and> (\<exists>lines. su_file su path = FileData lines \<and> token \<in> pins lines)"
proof -
  from EffectiveBearer_verified [OF assms(2) [symmetric] assms(3)] obtain cred trust c p ops m' where
    v: "deviceCredential (RQH_Header r ''Authorization'') = Some cred" "PinnedUsersFromFile (su_ParsePublicKey su) (su_file su path) = Inr trust"
      "vb_VerifyWithPossession (su_voidbind su) trust c p ops m = (m', Some token)" by auto
  from assms(1) v(3) have dom: "token \<in> dom trust" by blast
  from v(2) dom show ?thesis
    using v(1) pinned_users [of "su_ParsePublicKey su" _ trust]
    by (cases "su_file su path") (auto simp: PinnedUsersFromFile_def split: if_splits)
qed

text \<open>C12: From the environment to a write. A process that booted with the starchart identity changes its
  database only on a POST to \<open>/mcp\<close> whose caller presents, up to a collision of digests, the token of
  a principal in the file \<open>JDX_PRINCIPALS_FILE\<close> names; in voidbind mode that token is moreover a key on
  a line of the trust file as it is at the time of the request, and the header a Device credential.
  Without a principals file nothing is ever written.\<close>

theorem boot_to_write:
  assumes "run_main mc d = (d', Serving sv)"
    and "env_get (mc_getenv mc) ''JDX_IDENTITY'' ''starchart'' = IdentityStarchart"
    and "\<forall>trust c p ops m m' u. vb_VerifyWithPossession (su_voidbind su) trust c p ops m = (m', Some u) \<longrightarrow> u \<in> dom trust"
    and "fst (snd (Routes (http_handler (mc_sha mc) su sv) env uuid fl r m db)) \<noteq> db"
    and "token = snd (hs_auth (http_handler (mc_sha mc) su sv) r m)"
  shows "RQH_Method r = ''POST'' \<and> RQH_Path r = ''/mcp'' \<and>
    (\<exists>b cfg pc. mc_ReadFile mc (mc_getenv mc ''JDX_PRINCIPALS_FILE'') = Inr b \<and> mc_Unmarshal mc b = Inr cfg \<and>
      pc \<in> set (Principals cfg) \<and> mc_sha mc token = mc_sha mc (PC_Token pc)) \<and>
    (if ToLower (env_get (mc_getenv mc) ''JDX_MCP_AUTH_MODE'' ''bearer'') = ''voidbind''
     then deviceCredential (RQH_Header r ''Authorization'') \<noteq> None \<and>
       (\<exists>lines. su_file su (mc_getenv mc ''JDX_MCP_VOIDBIND_TRUST_FILE'') = FileData lines \<and> token \<in> pins lines)
     else token = bearerFrom (RQH_Header r ''Authorization''))"
proof -
  let ?g = "mc_getenv mc" and ?h = "http_handler (mc_sha mc) su sv"
  define cfg where "cfg = loaded ?g"
  from run_main_Serving [OF assms(1)] obtain st head where a: "assemble mc cfg st head = Serving sv" unfolding cfg_def by blast
  have f: "Cf_IdentityMode cfg = IdentityStarchart" "Cf_PrincipalsFile cfg = ?g ''JDX_PRINCIPALS_FILE''"
      "Cf_MCPAuthMode cfg = ToLower (env_get ?g ''JDX_MCP_AUTH_MODE'' ''bearer'')"
      "Cf_MCPVoidbindTrustFile cfg = ?g ''JDX_MCP_VOIDBIND_TRUST_FILE''"
    using assms(2) by (simp_all add: cfg_def loaded_def Let_def read_env_def)
  from iffD1 [OF assemble_Serving a] obtain am em vb where am: "buildAccessModel mc cfg = Inr am" "SV_Identity sv = am"
    and vb: "if Cf_MCPAuthMode cfg = ''voidbind'' then \<exists>m. OpenMembership mc (Cf_MCPVoidbindMembershipDir cfg) = Inr m \<and>
        vb = Some (Cf_MCPVoidbindTrustFile cfg, m) else vb = None" "SV_Voidbind sv = vb" by force
  from starchart_built [OF am(1) f(1)] obtain scfg sm where sm: "am = StarchartIdentity sm" "Starchart_New (mc_sha mc) scfg = Inr sm"
    "Cf_PrincipalsFile cfg = [] \<Longrightarrow> Principals scfg = []"
    "Cf_PrincipalsFile cfg \<noteq> [] \<Longrightarrow> \<exists>b. mc_ReadFile mc (Cf_PrincipalsFile cfg) = Inr b \<and> mc_Unmarshal mc b = Inr scfg" by metis
  from Routes_changes [OF assms(4)] obtain dec where post: "RQH_Method r = ''POST''" "RQH_Path r = ''/mcp''"
    and auth: "Starchart_Authenticate (mc_sha mc) sm token = Inr dec"
    by (auto simp: http_handler_parts am(2) sm(1) access_of_def assms(5))
  from starchart_token [OF sm(2) auth] obtain pc where token: "token \<noteq> []" "pc \<in> set (Principals scfg)" "mc_sha mc token = mc_sha mc (PC_Token pc)"
    by blast
  have "deviceCredential (RQH_Header r ''Authorization'') \<noteq> None \<and>
      (\<exists>lines. su_file su (Cf_MCPVoidbindTrustFile cfg) = FileData lines \<and> token \<in> pins lines)"
    if "Cf_MCPAuthMode cfg = ''voidbind''"
    by (rule pinned_bearer [OF assms(3) _ token(1)]) (use vb that assms(5) in \<open>auto simp: http_handler_parts\<close>)
  moreover have "token = bearerFrom (RQH_Header r ''Authorization'')" if "Cf_MCPAuthMode cfg \<noteq> ''voidbind''"
    using vb that assms(5) by (simp add: http_handler_parts BearerFunc_def)
  moreover have "\<exists>b. mc_ReadFile mc (Cf_PrincipalsFile cfg) = Inr b \<and> mc_Unmarshal mc b = Inr scfg"
    using sm(3,4) token(2) by (cases "Cf_PrincipalsFile cfg = []") auto
  ultimately show ?thesis using post token f by auto
qed

text \<open>A process of the witness: voidbind mode over a SQLite store that was migrated, \<open>kate\<close> with the
  token \<open>tk\<close> in the principals file, and her key in the trust file.\<close>

definition sample_getenv :: "string \<Rightarrow> string" where
  "sample_getenv k = (if k = ''JDX_PRINCIPALS_FILE'' then ''p.json'' else if k = ''JDX_MCP_AUTH_MODE'' then ''voidbind''
     else if k = ''JDX_MCP_VOIDBIND_TRUST_FILE'' then ''trust'' else [])"

definition sample_principals :: starchart_config where
  "sample_principals = \<lparr>Principals = [\<lparr>PC_Token = ''tk'', PC_ID = ''kate'', PC_Spaces = [''home''], PC_Restricted = False,
     PC_ApproverSpaces = [''home'']\<rparr>], RestrictedDenyTypes = []\<rparr>"

definition sample_machine :: "(string, unit, bool, unit, unit) machine" where
  "sample_machine = \<lparr>mc_getenv = sample_getenv, mc_url_Parse = (\<lambda>_. None), mc_sqlite = sample_driver 1, mc_write_first = True,
     mc_pgxpool_New = (\<lambda>_. Inl ErrSQL), mc_exec = (\<lambda>b s. Inr True), mc_now = (\<lambda>n. 0), mc_migrationsFS = [(''migrations/0001.sql'', ''x'')],
     mc_pg_migrationsFS = [], mc_max_seq = (\<lambda>migrated. if migrated then Inr 0 else Inl ErrSQL),
     mc_ReadFile = (\<lambda>p. if p = ''p.json'' then Inr ''{}'' else Inl ErrNotFound), mc_Unmarshal = (\<lambda>_. Inr sample_principals),
     mc_sha = (\<lambda>s. s), mc_NewStore = (\<lambda>_. Inl ErrNotFound), mc_NewFileMembership = (\<lambda>_. Inr ()),
     mc_CreateTemp = (\<lambda>d. Inr d), mc_Remove = (\<lambda>_. Inr ())\<rparr>"

definition sample_disk :: "bool \<Rightarrow> bool disk" where
  "sample_disk migrated = \<lparr>DK_Versions = None, DK_Schema = migrated\<rparr>"

definition sample_served :: "(string, unit, unit, unit) served" where
  "sample_served = \<lparr>SV_Addr = ''127.0.0.1:8090'', SV_Head = 0, SV_Store = OpenedSQLite \<lparr>st_write = ''file:jumpdrive-index.db'' @ writePragmas,
       st_read = ''file:jumpdrive-index.db'' @ readPragmas, st_th = \<lparr>AutoMerge = 0.94, Review = 0.86\<rparr>\<rparr>,
     SV_Identity = StarchartIdentity sample_starchart, SV_Embedder = NoEmbedder, SV_Voidbind = Some (''trust'', ())\<rparr>"

definition sample_surroundings :: "(unit, unit, unit) surroundings" where
  "sample_surroundings = \<lparr>su_mcp = sample_mcp, su_crypto = \<lparr>cr_sha256 = (\<lambda>_. []), cr_point = (\<lambda>_. None), cr_ecdsa = (\<lambda>_ _ _ _. False),
       cr_json = (\<lambda>_. None), cr_float = (\<lambda>_. None), cr_rfc3339 = (\<lambda>_. None)\<rparr>,
     su_jd_world = \<lparr>jw_jwks = HttpFailed, jw_authorize = HttpFailed, jw_clk = (\<lambda>_. 0)\<rparr>, su_net = (\<lambda>_. NetFailed),
     su_first_json = (\<lambda>_. None), su_f32 = (\<lambda>_. None), su_ParsePublicKey = (\<lambda>s. if s = ''tk'' then Some () else None),
     su_file = (\<lambda>_. sample_trust_file), su_voidbind = sample_voidbind, su_head = None\<rparr>"

lemma sample_starchart_New: "Starchart_New (\<lambda>s. s) sample_principals = Inr sample_starchart"
  by (auto simp: Starchart_New_def sc_register_def sample_principals_def sample_starchart_def sc_principal_of_def)

lemma sample_opens:
  "0 < Review th \<Longrightarrow> Review th < AutoMerge th \<Longrightarrow> AutoMerge th \<le> 1 \<Longrightarrow>
   sqlite_Open (sample_driver 1) True \<lparr>OP_Location = ''jumpdrive-index.db'', OP_Thresholds = th\<rparr> =
     Inr \<lparr>st_write = ''file:jumpdrive-index.db'' @ writePragmas, st_read = ''file:jumpdrive-index.db'' @ readPragmas, st_th = th\<rparr>"
proof -
  have "EqualFold ''WAL'' ''wal''" by code_simp
  then show "0 < Review th \<Longrightarrow> Review th < AutoMerge th \<Longrightarrow> AutoMerge th \<le> 1 \<Longrightarrow> ?thesis"
    by (simp add: Open_verifies sound_handle_def sample_driver_def)
qed

lemma sample_boots: "run_main sample_machine (sample_disk True) = (sample_disk True, Serving sample_served)"
proof -
  have "case Load (\<lambda>_. None) sample_getenv of Inl e \<Rightarrow> False | Inr c \<Rightarrow> True" by code_simp
  then have l: "Load (\<lambda>_. None) sample_getenv = Inr (loaded sample_getenv)"
    using Load_loaded by (auto split: sum.splits)
  have c: "Cf_Backend (loaded sample_getenv) = BackendSQLite \<and> Cf_DSN (loaded sample_getenv) = [] \<and>
      Cf_Mode (loaded sample_getenv) = ModeServe \<and> Cf_IdentityMode (loaded sample_getenv) = IdentityStarchart \<and>
      Cf_PrincipalsFile (loaded sample_getenv) = ''p.json'' \<and> Cf_MCPAuthMode (loaded sample_getenv) = ''voidbind'' \<and>
      Cf_MCPVoidbindTrustFile (loaded sample_getenv) = ''trust'' \<and> Cf_HTTPAddr (loaded sample_getenv) = ''127.0.0.1:8090'' \<and>
      Cf_Thresholds (loaded sample_getenv) = \<lparr>AutoMerge = 0.94, Review = 0.86\<rparr>" by code_simp
  have o: "openStore sample_machine (loaded sample_getenv) = Inr (SV_Store sample_served)"
    unfolding openStore_def sample_machine_def machine.simps Let_def
    by (simp add: c sample_served_def sample_opens)
  show ?thesis
    by (simp add: run_main_def sample_machine_def l c) (simp add: o [unfolded sample_machine_def] assemble_def buildAccessModel_def
        buildEmbedder_def OpenMembership_def c sample_starchart_New sample_disk_def sample_served_def sample_getenv_def)
qed

lemma sample_handler:
  "hs_auth (http_handler (mc_sha sample_machine) sample_surroundings sample_served) = Voidbind_EffectiveBearer sample_voidbind"
  "hs_mcp (http_handler (mc_sha sample_machine) sample_surroundings sample_served) = sample_mcp"
  by (simp_all add: http_handler_def Let_def WithAuthorizer_def http_New_def sample_served_def sample_surroundings_def
      sample_voidbind_def access_of_def embedder_of_def sample_machine_def sample_mcp_def sample_service_def)

lemma sample_boot_changes:
  "fst (snd (Routes (http_handler (mc_sha sample_machine) sample_surroundings sample_served) sample_write_env ''sid'' True
    (sample_request ''device op~proof'') () sample_db)) \<noteq> sample_db"
proof -
  have "hs_auth sample_http = Voidbind_EffectiveBearer sample_voidbind" "hs_mcp sample_http = sample_mcp"
    by (simp_all add: sample_http_def http_New_def)
  then have "handleMCPPost (http_handler (mc_sha sample_machine) sample_surroundings sample_served) = handleMCPPost sample_http"
    by (intro ext) (simp only: handleMCPPost_def sample_handler)
  then show ?thesis using sample_http_changes by (simp add: Routes_def Let_def sample_request_def)
qed

theorem boot_to_write_witness:
  "snd (hs_auth (http_handler (mc_sha sample_machine) sample_surroundings sample_served) (sample_request ''device op~proof'') ()) = ''tk'' \<and>
   (\<exists>lines. sample_trust_file = FileData lines \<and> ''tk'' \<in> pins lines)"
proof -
  have lib: "\<forall>trust c p ops m m' u. vb_VerifyWithPossession (su_voidbind sample_surroundings) trust c p ops m = (m', Some u) \<longrightarrow> u \<in> dom trust"
    by (auto simp: sample_surroundings_def sample_voidbind_def split: if_splits)
  have mode: "env_get (mc_getenv sample_machine) ''JDX_IDENTITY'' ''starchart'' = IdentityStarchart"
    "ToLower (env_get (mc_getenv sample_machine) ''JDX_MCP_AUTH_MODE'' ''bearer'') = ''voidbind''"
    unfolding sample_machine_def machine.simps by code_simp+
  have b: "''tk'' = snd (hs_auth (http_handler (mc_sha sample_machine) sample_surroundings sample_served) (sample_request ''device op~proof'') ())"
    by (simp add: sample_handler sample_bearer)
  have trusted: "su_file sample_surroundings x = sample_trust_file" for x by (simp add: sample_surroundings_def)
  from boot_to_write [OF sample_boots mode(1) lib sample_boot_changes b, unfolded trusted mode(2)] b show ?thesis by simp
qed

text \<open>Only \<open>JDX_MODE=migrate\<close> touches the schema. A process that changes the database while it boots is in
  migrate mode, and a process in that mode never serves; a serving process has read a projection head from
  the schema as it found it.\<close>

theorem boot_migrates_on_request:
  "(fst (run_main mc d) \<noteq> d \<longrightarrow> mc_getenv mc ''JDX_MODE'' = ModeMigrate) \<and>
   (mc_getenv mc ''JDX_MODE'' = ModeMigrate \<longrightarrow> (\<forall>sv. snd (run_main mc d) \<noteq> Serving sv)) \<and>
   (\<forall>sv. snd (run_main mc d) = Serving sv \<longrightarrow> mc_max_seq mc (DK_Schema d) = Inr (SV_Head sv))"
proof -
  have m: "Cf_Mode (loaded g) = ModeMigrate \<longleftrightarrow> g ''JDX_MODE'' = ModeMigrate" for g
    by (simp add: loaded_def Let_def env_get_def)
  have "mc_getenv mc ''JDX_MODE'' = ModeMigrate" if "fst (run_main mc d) \<noteq> d"
    using that m Load_loaded [of "mc_url_Parse mc" "mc_getenv mc"]
    by (auto simp: run_main_def split: sum.splits if_splits prod.splits option.splits)
  moreover have "mc_getenv mc ''JDX_MODE'' \<noteq> ModeMigrate \<and> mc_max_seq mc (DK_Schema d) = Inr (SV_Head sv)"
    if s: "snd (run_main mc d) = Serving sv" for sv
  proof -
    from s have "run_main mc d = (fst (run_main mc d), Serving sv)" by (simp add: prod_eq_iff)
    then obtain st head where "env_get (mc_getenv mc) ''JDX_MODE'' ''serve'' \<noteq> ModeMigrate"
        "mc_max_seq mc (DK_Schema d) = Inr head" "assemble mc (loaded (mc_getenv mc)) st head = Serving sv"
      by (rule run_main_Serving)
    then show ?thesis by (auto simp: assemble_Serving env_get_def split: if_splits)
  qed
  ultimately show ?thesis by blast
qed

theorem boot_migrates_on_request_witness:
  "snd (run_main sample_machine (sample_disk True)) = Serving sample_served \<and>
   fst (run_main (sample_machine\<lparr>mc_getenv := sample_getenv(''JDX_MODE'' := ModeMigrate)\<rparr>) (sample_disk False)) \<noteq> sample_disk False \<and>
   mc_max_seq sample_machine (DK_Schema (sample_disk True)) = Inr (SV_Head sample_served)"
proof -
  have "fst (run_main (sample_machine\<lparr>mc_getenv := sample_getenv(''JDX_MODE'' := ModeMigrate)\<rparr>) (sample_disk False)) \<noteq> sample_disk False"
    unfolding fun_upd_def by code_simp
  with boot_migrates_on_request [of sample_machine "sample_disk True"] sample_boots show ?thesis by simp
qed

text \<open>\<open>JDX_AUTH\<close> decides nothing but the check on the address. Whatever value it takes, if the configuration
  still loads, the process that serves is the same one: an unauthenticated mode does not exist, although
  the setting is documented as gating the bearer requirement.\<close>

theorem auth_setting_is_inert:
  assumes "run_main mc d = (d', Serving sv)"
    and "Load (mc_url_Parse mc) ((mc_getenv mc)(''JDX_AUTH'' := v)) = Inr c"
  shows "run_main (mc\<lparr>mc_getenv := (mc_getenv mc)(''JDX_AUTH'' := v)\<rparr>) d = (d', Serving sv)"
proof -
  let ?g = "(mc_getenv mc)(''JDX_AUTH'' := v)"
  let ?mc = "mc\<lparr>mc_getenv := ?g\<rparr>"
  from run_main_Serving [OF assms(1)] obtain st head where r: "openStore mc (loaded (mc_getenv mc)) = Inr st"
      "env_get (mc_getenv mc) ''JDX_MODE'' ''serve'' \<noteq> ModeMigrate" "mc_max_seq mc (DK_Schema d) = Inr head"
      "assemble mc (loaded (mc_getenv mc)) st head = Serving sv" "d' = d" by blast
  obtain b where l: "loaded ?g = (loaded (mc_getenv mc))\<lparr>Cf_AuthEnabled := b\<rparr>" using loaded_auth by blast
  have same: "Cf_Backend (loaded ?g) = Cf_Backend (loaded (mc_getenv mc))"
    "Cf_DSN (loaded ?g) = Cf_DSN (loaded (mc_getenv mc))"
    "Cf_Thresholds (loaded ?g) = Cf_Thresholds (loaded (mc_getenv mc))"
    "Cf_IdentityMode (loaded ?g) = Cf_IdentityMode (loaded (mc_getenv mc))"
    "Cf_PrincipalsFile (loaded ?g) = Cf_PrincipalsFile (loaded (mc_getenv mc))"
    "Cf_JumpdriveURL (loaded ?g) = Cf_JumpdriveURL (loaded (mc_getenv mc))"
    "Cf_JumpdriveSecret (loaded ?g) = Cf_JumpdriveSecret (loaded (mc_getenv mc))"
    "Cf_JumpdriveVerify (loaded ?g) = Cf_JumpdriveVerify (loaded (mc_getenv mc))"
    "Cf_JumpdriveIssuer (loaded ?g) = Cf_JumpdriveIssuer (loaded (mc_getenv mc))"
    "Cf_MCPAuthMode (loaded ?g) = Cf_MCPAuthMode (loaded (mc_getenv mc))"
    "Cf_MCPVoidbindMembershipDir (loaded ?g) = Cf_MCPVoidbindMembershipDir (loaded (mc_getenv mc))"
    "Cf_MCPVoidbindTrustFile (loaded ?g) = Cf_MCPVoidbindTrustFile (loaded (mc_getenv mc))"
    "Cf_HTTPAddr (loaded ?g) = Cf_HTTPAddr (loaded (mc_getenv mc))" "mc_sqlite ?mc = mc_sqlite mc"
    "mc_write_first ?mc = mc_write_first mc" "mc_pgxpool_New ?mc = mc_pgxpool_New mc" "mc_ReadFile ?mc = mc_ReadFile mc"
    "mc_Unmarshal ?mc = mc_Unmarshal mc" "mc_sha ?mc = mc_sha mc" "mc_NewFileMembership ?mc = mc_NewFileMembership mc"
    "mc_CreateTemp ?mc = mc_CreateTemp mc" "mc_Remove ?mc = mc_Remove mc" "mc_NewStore ?mc = mc_NewStore mc"
    "mc_getenv ?mc ''JDX_EMBED_PROVIDER'' = mc_getenv mc ''JDX_EMBED_PROVIDER''"
    "mc_getenv ?mc ''JDX_EMBED_URL'' = mc_getenv mc ''JDX_EMBED_URL''"
    "mc_getenv ?mc ''JDX_EMBED_MODEL'' = mc_getenv mc ''JDX_EMBED_MODEL''"
    "mc_getenv ?mc ''JDX_EMBED_TOKEN'' = mc_getenv mc ''JDX_EMBED_TOKEN''"
    "mc_getenv ?mc ''JDX_FABRIC_DEVICE_DIR'' = mc_getenv mc ''JDX_FABRIC_DEVICE_DIR''" by (simp_all add: l)
  have "openStore ?mc (loaded ?g) = Inr st" using r(1) unfolding openStore_def same .
  moreover have "assemble ?mc (loaded ?g) st head = Serving sv"
    using r(4) unfolding assemble_def buildAccessModel_def buildEmbedder_def OpenMembership_def Let_def same .
  moreover have "Cf_Mode (loaded ?g) \<noteq> ModeMigrate" using r(2) by (simp add: loaded_def Let_def env_get_def split: if_splits)
  moreover from Load_loaded [OF assms(2)] assms(2) have "Load (mc_url_Parse mc) ?g = Inr (loaded ?g)" by simp
  ultimately show ?thesis using r(3,5) by (simp add: run_main_def)
qed

theorem auth_setting_is_inert_witness:
  "run_main (sample_machine\<lparr>mc_getenv := (mc_getenv sample_machine)(''JDX_AUTH'' := ''false'')\<rparr>) (sample_disk True) =
     (sample_disk True, Serving sample_served)"
proof -
  have "case Load (\<lambda>_. None) (\<lambda>k. if k = ''JDX_AUTH'' then ''false'' else sample_getenv k) of Inl e \<Rightarrow> False | Inr c \<Rightarrow> True" by code_simp
  then obtain c where "Load (mc_url_Parse sample_machine) ((mc_getenv sample_machine)(''JDX_AUTH'' := ''false'')) = Inr c"
    by (auto simp: sample_machine_def fun_upd_def split: sum.splits)
  from auth_setting_is_inert [OF sample_boots this] show ?thesis .
qed

end
