(* ===== verification/Jdx_IngestCmd.thy ===== *)
theory Jdx_IngestCmd
  imports Jdx_Main
begin

text \<open>
  The \<open>ingest\<close> subcommand (\<open>cmd/jumpdrive-index/ingest.go\<close>): flags to a store, a reconciler, a
  capability and one run of the ingestor. Flags are given as the names and values the flag package
  parsed; the operating system and the network during the run are a record.
\<close>

section \<open>Flags\<close>

record ingest_flags =
  FL_db :: string
  FL_ref :: string
  FL_owner :: string
  FL_space :: string
  FL_visibility :: string
  FL_subjectTMDB :: string
  FL_heyarrURL :: string
  FL_heyarrToken :: string

definition flag_value :: "(string \<times> string) list \<Rightarrow> string \<Rightarrow> string \<Rightarrow> string" where
  "flag_value given name def = (case map_of (rev given) name of None \<Rightarrow> def | Some v \<Rightarrow> v)"

definition ingest_flags_of :: "(string \<times> string) list \<Rightarrow> ingest_flags" where
  "ingest_flags_of given = \<lparr>FL_db = flag_value given ''db'' ''jumpdrive-index.db'', FL_ref = flag_value given ''ref'' [],
     FL_owner = flag_value given ''owner'' [], FL_space = flag_value given ''space'' [],
     FL_visibility = flag_value given ''visibility'' ''private'', FL_subjectTMDB = flag_value given ''subject-tmdb'' [],
     FL_heyarrURL = flag_value given ''heyarr-url'' [], FL_heyarrToken = flag_value given ''heyarr-token'' []\<rparr>"

definition splitCSV :: "string \<Rightarrow> string list" where
  "splitCSV s = filter (\<lambda>p. p \<noteq> []) (map TrimSpace (Split CHR '','' s))"

section \<open>The capability\<close>

text \<open>The transcriber keeps the client it was given: a device client or the default one.\<close>

record 'dev built_capability =
  bc_exec :: exec_capability
  bc_fabric :: "(fabric_transcriber \<times> ('dev \<times> int) option) option"

definition buildExecCapability :: "('h, 'p, 's, 'm, 'dev) machine \<Rightarrow> 'dev built_capability res" where
  "buildExecCapability mc =
     (let getenv = mc_getenv mc; ec = \<lparr>bc_exec = NewExecCapability, bc_fabric = None\<rparr>; t = getenv ''JDX_INGEST_TRANSCRIBE'' in
      if t \<in> {[], ''local'', ''whisper''} then Inr ec
      else if t = ''fabric'' then
        rbind (fabricauth_Client (mc_NewStore mc) (getenv ''JDX_FABRIC_DEVICE_DIR'') 600) (\<lambda>dev.
        rbind (NewFabricTranscriber (getenv ''JDX_INGEST_TRANSCRIBE_URL'') (getenv ''JDX_INGEST_TRANSCRIBE_MODEL'')
            (if dev \<noteq> None then [] else getenv ''JDX_INGEST_TRANSCRIBE_TOKEN'')) (\<lambda>ft.
          Inr (ec\<lparr>bc_fabric := Some (ft, dev)\<rparr>)))
      else Inl (ErrMsg ''unknown transcribe provider''))"

section \<open>The run\<close>

record 'dev ingest_world =
  iw_exec :: exec_world
  iw_parse :: "string \<Rightarrow> json option"
  iw_open :: "string \<Rightarrow> string option"
  iw_upload :: "('dev \<times> int) option \<Rightarrow> upload \<Rightarrow> heyarr_outcome"
  iw_first_json :: "string \<Rightarrow> json option"
  iw_heyarr :: "heyarr_request \<Rightarrow> heyarr_outcome"
  iw_newReqID :: "int \<Rightarrow> string"
  iw_FormatFloat :: "real \<Rightarrow> string"
  iw_JSONFloat :: "real \<Rightarrow> string"
  iw_envs :: "nat \<Rightarrow> env"

definition capability_of :: "'dev ingest_world \<Rightarrow> 'dev built_capability \<Rightarrow> exec_capability" where
  "capability_of w bc = (case bc_fabric bc of
       None \<Rightarrow> bc_exec bc
     | Some (ft, dev) \<Rightarrow> (bc_exec bc)\<lparr>EC_Transcriber := Some (Transcribe (iw_open w) (iw_upload w dev) (iw_first_json w) ft)\<rparr>)"

definition ingestor_of :: "'dev ingest_world \<Rightarrow> 'dev built_capability \<Rightarrow> bool \<Rightarrow> heyarr_client ingestor" where
  "ingestor_of w bc reconciles = \<lparr>IG_Fetch = exec_Fetch (iw_exec w) (iw_parse w) (capability_of w bc),
     IG_Reconcil = (if reconciles then Some (heyarr_reconcil (iw_parse w) (iw_heyarr w) (iw_newReqID w)) else None),
     IG_FormatFloat = iw_FormatFloat w, IG_JSONFloat = iw_JSONFloat w\<rparr>"

definition ingest_request_of :: "ingest_flags \<Rightarrow> ingest_request" where
  "ingest_request_of fl = \<lparr>RQ_Ref = FL_ref fl, RQ_Owner = FL_owner fl, RQ_Space = FL_space fl,
     RQ_Visibility = vis_of (FL_visibility fl), RQ_SubjectTMDB = splitCSV (FL_subjectTMDB fl)\<rparr>"

definition runIngest ::
    "('h, 'p, 's, 'm, 'dev) machine \<Rightarrow> 'dev ingest_world \<Rightarrow> (string \<times> string) list \<Rightarrow> 's disk \<Rightarrow> db \<Rightarrow>
     's disk \<times> db \<times> ingest_result res" where
  "runIngest mc w given d db =
     (let fl = ingest_flags_of given in
      if TrimSpace (FL_ref fl) = [] then (d, db, Inl (ErrMsg ''ingest: --ref is required''))
      else (case sqlite_Open (mc_sqlite mc) (mc_write_first mc)
              \<lparr>OP_Location = FL_db fl, OP_Thresholds = \<lparr>AutoMerge = 0.94, Review = 0.86\<rparr>\<rparr> of
          Inl e \<Rightarrow> (d, db, Inl e)
        | Inr st \<Rightarrow>
            (case Migrate (mc_exec mc) (mc_now mc) (mc_migrationsFS mc) d of
               (d', Some e) \<Rightarrow> (d', db, Inl e)
             | (d', None) \<Rightarrow>
                 (case (if TrimSpace (FL_heyarrURL fl) \<noteq> []
                        then rbind (heyarr_New (FL_heyarrURL fl) (FL_heyarrToken fl)) (\<lambda>c. Inr (Some c)) else Inr None) of
                    Inl e \<Rightarrow> (d', db, Inl e)
                  | Inr reconciler \<Rightarrow>
                      (case buildExecCapability mc of
                         Inl e \<Rightarrow> (d', db, Inl e)
                       | Inr ec \<Rightarrow>
                           let client = (case reconciler of None \<Rightarrow> \<lparr>HC_baseURL = [], HC_token = [], HC_seq = 0\<rparr> | Some c \<Rightarrow> c) in
                           (case Ingest (ingestor_of w ec (reconciler \<noteq> None)) (iw_envs w) (ingest_request_of fl)
                                \<lparr>ST_db = db, ST_client = client, ST_calls = 0\<rparr> of
                              (s, r) \<Rightarrow> (d', ST_db s, r)))))))"

section \<open>Properties\<close>

text \<open>The subcommand ingests only into a database whose schema is complete, and completes it itself: either
  it ends in an error with the content as it was, or every embedded migration has been applied, so that
  a later migration, whatever its scripts would do, changes nothing. This holds for any flags, also
  those the ingestor rejects afterwards.\<close>

theorem ingest_on_complete_schema:
  "(\<exists>e. snd (runIngest mc w given d db) = (db, Inl e)) \<or>
   Migrate exec' now' (mc_migrationsFS mc) (fst (runIngest mc w given d db)) = (fst (runIngest mc w given d db), None)"
proof (cases "TrimSpace (FL_ref (ingest_flags_of given)) = []")
  case False
  let ?o = "sqlite_Open (mc_sqlite mc) (mc_write_first mc)
      \<lparr>OP_Location = FL_db (ingest_flags_of given), OP_Thresholds = \<lparr>AutoMerge = 0.94, Review = 0.86\<rparr>\<rparr>"
  show ?thesis
  proof (cases ?o)
    case (Inr st)
    obtain d' e where m: "Migrate (mc_exec mc) (mc_now mc) (mc_migrationsFS mc) d = (d', e)" by fastforce
    show ?thesis
    proof (cases e)
      case None
      then have "fst (runIngest mc w given d db) = d'"
        unfolding runIngest_def Let_def if_not_P [OF False] Inr m
        by (simp add: case_prod_beta split: sum.split)
      then show ?thesis using Migrate_again [OF m [unfolded None]] by (simp del: disj_not1)
    qed (unfold runIngest_def Let_def if_not_P [OF False] Inr m, simp)
  qed (unfold runIngest_def Let_def if_not_P [OF False], simp)
qed (simp add: runIngest_def Let_def)

text \<open>Every id of a comma-separated flag reaches the request trimmed and non-empty, and none is lost.\<close>

lemma splitCSV_items: "p \<in> set (splitCSV s) \<longleftrightarrow> p \<noteq> [] \<and> p \<in> TrimSpace ` set (Split CHR '','' s)"
  by (auto simp: splitCSV_def)

end
